(* ===== verification/Prelude.thy ===== *)
theory Prelude
  imports Complex_Main "HOL-Library.AList" "HOL-Library.Multiset"
begin

text \<open>
  Shared vocabulary of the habit-tracker development. Calendar dates are Python
  \<open>datetime.date\<close> values, represented by their proleptic Gregorian ordinal
  (\<open>date.toordinal()\<close>): day 1 is 0001-01-01 and \<open>date.max\<close> (9999-12-31) is
  day 3652059, so \<open>d - timedelta(days=1)\<close> is \<open>d - 1\<close> and \<open>(a - b).days\<close> is
  \<open>a - b\<close>. Identifiers are the UUID strings of the code, timestamps are opaque
  integers. The collections \<open>stats_simps\<close> and \<open>store_simps\<close> gather the unfolding
  rules of the statistics engine and of the stores; the generic lemmas below are the
  list and set facts several components share.
\<close>

type_synonym date = int
type_synonym habit_id = string
type_synonym log_id = string
type_synonym timestamp = int

named_theorems stats_simps "unfolding rules of the statistics engine"
named_theorems store_simps "unfolding rules of the repositories and the service"

text \<open>The range of Python's \<open>datetime.date\<close>, as ordinals.\<close>

definition date_min :: date where
  "date_min = 1"

definition date_max :: date where
  "date_max = 3652059"

definition valid_date :: "date \<Rightarrow> bool" where
  "valid_date d \<longleftrightarrow> date_min \<le> d \<and> d \<le> date_max"

subsection \<open>Generic lemmas\<close>

lemma card_le_length_if_subset_image:
  assumes "A \<subseteq> f ` set xs"
  shows "card A \<le> length xs"
proof -
  have "card A \<le> card (f ` set xs)"
    using assms by (simp add: card_mono)
  also have "\<dots> \<le> card (set xs)"
    by (rule card_image_le) simp
  also have "\<dots> \<le> length xs"
    by (rule card_length)
  finally show ?thesis .
qed

lemma fold_upt_Suc:
  "fold f [0..<Suc n] s = f n (fold f [0..<n] s)"
  by simp

lemma ratio_bounds:
  assumes "a \<le> b"
  shows "0 \<le> real a / real b \<and> real a / real b \<le> 1"
proof (cases "b = 0")
  case True
  then show ?thesis by simp
next
  case False
  with assms show ?thesis by (simp add: divide_le_eq_1)
qed

lemma strict_sorted_nth_less_iff:
  fixes xs :: "'a::linorder list"
  assumes "sorted_wrt (<) xs" "i < length xs" "j < length xs"
  shows "xs ! i < xs ! j \<longleftrightarrow> i < j"
proof
  assume lt: "xs ! i < xs ! j"
  show "i < j"
  proof (rule ccontr)
    assume "\<not> i < j"
    then consider "i = j" | "j < i" by linarith
    then show False
    proof cases
      case 1
      with lt show False by simp
    next
      case 2
      with assms have "xs ! j < xs ! i" by (simp add: sorted_wrt_nth_less)
      with lt show False by simp
    qed
  qed
next
  assume "i < j"
  with assms show "xs ! i < xs ! j" by (simp add: sorted_wrt_nth_less)
qed

lemma case_unit_any [simp]: "(case u of () \<Rightarrow> f) = f"
  by (cases u) (simp only: old.unit.case)

lemma fold_insert_if:
  "fold (\<lambda>x acc. if P x then insert (f x) acc else acc) xs A = A \<union> f ` {x \<in> set xs. P x}"
  by (induction xs arbitrary: A) auto

lemma map_of_keys_ok_Some:
  assumes "\<forall>(k, v) \<in> set al. key v = k" "map_of al k = Some v"
  shows "key v = k"
  using assms by (auto dest: map_of_SomeD)

lemma map_le_None: "m1 \<subseteq>\<^sub>m m2 \<Longrightarrow> m2 x = None \<Longrightarrow> m1 x = None"
  by (auto simp: map_le_def dom_def)

lemma map_le_Some: "m1 \<subseteq>\<^sub>m m2 \<Longrightarrow> m1 x = Some y \<Longrightarrow> m2 x = Some y"
  by (auto simp: map_le_def dom_def)

end
