(* ===== verification/Models.thy ===== *)
theory Models
  imports Prelude
begin

text \<open>
  The domain objects of \<open>src/app/core/models.py\<close>: the habit type enumeration
  \<open>HabitType\<close>, the dataclasses \<open>LogEntry\<close> and \<open>Habit\<close>, the partial update
  \<open>HabitUpdate\<close> of \<open>src/app/api/schemas.py\<close>, and the exceptions the service and
  the statistics engine raise, as one error datatype. Record fields carry an
  \<open>h_\<close>/\<open>l_\<close>/\<open>u_\<close> prefix because HOL field names share one name space
  (\<open>id\<close> and \<open>type\<close> are taken).
\<close>

datatype habit_type = BOOLEAN | NUMERIC

record log_entry =
  l_id :: log_id
  l_habit_id :: habit_id
  l_date :: date
  l_value :: "real option"
  l_created_at :: timestamp

record habit =
  h_id :: habit_id
  h_name :: string
  h_description :: "string option"
  h_category :: "string option"
  h_type :: habit_type
  h_goal :: "real option"
  h_created_at :: timestamp
  h_parent_id :: "habit_id option"
  h_subhabit_ids :: "habit_id list"

text \<open>
  \<open>LogEntry.create\<close> draws a fresh UUID and reads the clock; both are inputs of the
  model.
\<close>

definition log_entry_create ::
  "log_id \<Rightarrow> timestamp \<Rightarrow> habit_id \<Rightarrow> date \<Rightarrow> real option \<Rightarrow> log_entry" where
  "log_entry_create fresh_id now habit_id log_date value =
     \<lparr>l_id = fresh_id, l_habit_id = habit_id, l_date = log_date, l_value = value,
      l_created_at = now\<rparr>"

record habit_update =
  u_name :: "string option"
  u_description :: "string option"
  u_category :: "string option"
  u_goal :: "real option"

text \<open>
  The exceptions of the code. \<open>HabitNotFound\<close>, \<open>ParentHabitNotFound\<close> and
  \<open>NoCalculator\<close> are Python \<open>ValueError\<close>s, \<open>HabitKeyError\<close> is the
  \<open>KeyError\<close> of a repository's \<open>update\<close>, \<open>DateOverflow\<close> the
  \<open>OverflowError\<close> of \<open>date - timedelta\<close> below \<open>date.min\<close>,
  \<open>IntegrityError\<close> the \<open>sqlite3.IntegrityError\<close> of an \<open>INSERT\<close> whose primary key
  is taken, and \<open>InvalidHabitType\<close> the \<open>ValueError\<close> of \<open>HabitType(text)\<close> on a
  stored type text that names no member.
\<close>

datatype error =
    HabitNotFound
  | ParentHabitNotFound
  | NoCalculator habit_type
  | HabitKeyError
  | DateOverflow
  | IntegrityError
  | InvalidHabitType string

fun is_value_error :: "error \<Rightarrow> bool" where
  "is_value_error HabitNotFound = True"
| "is_value_error ParentHabitNotFound = True"
| "is_value_error (NoCalculator _) = True"
| "is_value_error HabitKeyError = False"
| "is_value_error DateOverflow = False"
| "is_value_error IntegrityError = False"
| "is_value_error (InvalidHabitType _) = True"

end
