(* ===== verification/Streaks.thy ===== *)
theory Streaks
  imports Models
begin

text \<open>
  The streak computation \<open>StatisticsCalculator._calculate_streaks\<close> of
  \<open>src/app/core/statistics.py\<close>. The set of completed dates is a HOL set of date
  ordinals. The current-streak \<open>while\<close> loop walks back from \<open>today\<close> (an input:
  the code reads \<open>date.today()\<close>) and raises \<open>OverflowError\<close> when the cursor
  would leave \<open>date.min\<close>; it terminates because the cursor decreases towards
  \<open>date_min\<close>. The longest-streak \<open>for i in range(len(sorted_dates))\<close> loop is a
  \<open>fold\<close> of one step per index over \<open>(longest_streak, current)\<close>.
  The abstract specification is \<open>has_run S d k\<close>: the \<open>k\<close> days ending at \<open>d\<close>
  are all in \<open>S\<close>. The lemmas show that the current streak is the length of the
  maximal run ending today and the longest streak the length of the longest run.
\<close>

subsection \<open>The code\<close>

function current_streak_loop :: "date set \<Rightarrow> date \<Rightarrow> nat \<Rightarrow> error + nat" where
  "current_streak_loop completed_dates cursor current_streak =
     (if cursor \<in> completed_dates then
        (if cursor - 1 < date_min then Inl DateOverflow
         else current_streak_loop completed_dates (cursor - 1) (Suc current_streak))
      else Inr current_streak)"
  by pat_completeness auto
termination
  by (relation "measure (\<lambda>(_, cursor, _). nat (cursor - date_min))") auto

declare current_streak_loop.simps [simp del]

definition longest_step :: "date list \<Rightarrow> nat \<Rightarrow> nat \<times> nat \<Rightarrow> nat \<times> nat" where
  "longest_step sorted_dates i acc =
     (case acc of (longest_streak, current) \<Rightarrow>
        (let current' =
           (if i = 0 then 1
            else if sorted_dates ! i - sorted_dates ! (i - 1) = 1 then Suc current
            else 1)
         in (max longest_streak current', current')))"

definition longest_streak_loop :: "date list \<Rightarrow> nat" where
  "longest_streak_loop sorted_dates =
     fst (fold (longest_step sorted_dates) [0..<length sorted_dates] (0, 0))"

definition calculate_streaks :: "date \<Rightarrow> date set \<Rightarrow> error + nat \<times> nat" where
  "calculate_streaks today completed_dates =
     (if completed_dates = {} then Inr (0, 0)
      else
        (let sorted_dates = sorted_list_of_set completed_dates in
         case current_streak_loop completed_dates today 0 of
           Inl e \<Rightarrow> Inl e
         | Inr current_streak \<Rightarrow> Inr (current_streak, longest_streak_loop sorted_dates)))"

declare longest_step_def [stats_simps] longest_streak_loop_def [stats_simps]
  calculate_streaks_def [stats_simps]

subsection \<open>Specification: runs of consecutive days\<close>

text \<open>
  \<open>has_run S d k\<close>: the \<open>k\<close> consecutive days ending at \<open>d\<close>, the
  interval \<open>(d - k, d]\<close>, are all in \<open>S\<close>. \<open>longest_inv\<close> is the invariant of the longest-streak loop after its
  first \<open>i\<close> iterations: \<open>current\<close> is the length of the maximal run ending at
  \<open>sorted_dates[i-1]\<close>, and \<open>longest_streak\<close> the length of the longest run
  ending at one of the dates seen so far.
\<close>

definition has_run :: "date set \<Rightarrow> date \<Rightarrow> nat \<Rightarrow> bool" where
  "has_run S d k \<longleftrightarrow> {d - int k<..d} \<subseteq> S"

definition longest_inv :: "date list \<Rightarrow> nat \<Rightarrow> nat \<times> nat \<Rightarrow> bool" where
  "longest_inv ds i acc \<longleftrightarrow>
     (0 < i \<longrightarrow> (\<forall>k. has_run (set ds) (ds ! (i - 1)) k \<longleftrightarrow> k \<le> snd acc)) \<and>
     (\<forall>k>0. (\<exists>j<i. has_run (set ds) (ds ! j) k) \<longleftrightarrow> k \<le> fst acc)"

subsection \<open>Runs\<close>

lemma has_run_all: "has_run S d k \<longleftrightarrow> (\<forall>j<k. d - int j \<in> S)"
proof
  assume "has_run S d k"
  then show "\<forall>j<k. d - int j \<in> S"
    by (auto simp: has_run_def subset_eq)
next
  assume all: "\<forall>j<k. d - int j \<in> S"
  show "has_run S d k"
    unfolding has_run_def
  proof
    fix x assume "x \<in> {d - int k<..d}"
    then have "nat (d - x) < k" and "x = d - int (nat (d - x))" by auto
    with all show "x \<in> S" by metis
  qed
qed

lemma has_run_0 [simp]: "has_run S d 0"
  by (simp add: has_run_def)

lemma has_run_Suc: "has_run S d (Suc k) \<longleftrightarrow> d \<in> S \<and> has_run S (d - 1) k"
proof
  assume run: "has_run S d (Suc k)"
  have "d - int 0 \<in> S"
    using run unfolding has_run_all by blast
  moreover have "d - 1 - int j \<in> S" if "j < k" for j
  proof -
    from that have "Suc j < Suc k" by simp
    with run have "d - int (Suc j) \<in> S" unfolding has_run_all by blast
    then show ?thesis by (simp add: algebra_simps)
  qed
  ultimately show "d \<in> S \<and> has_run S (d - 1) k"
    by (simp add: has_run_all)
next
  assume r: "d \<in> S \<and> has_run S (d - 1) k"
  show "has_run S d (Suc k)"
    unfolding has_run_all
  proof (intro allI impI)
    fix j assume "j < Suc k"
    then consider "j = 0" | i where "j = Suc i" "i < k"
      by (cases j) auto
    then show "d - int j \<in> S"
    proof cases
      case 1
      with r show ?thesis by simp
    next
      case 2
      with r have "d - 1 - int i \<in> S" by (simp add: has_run_all)
      with 2 show ?thesis by (simp add: algebra_simps)
    qed
  qed
qed

lemma has_run_not_in: "d \<notin> S \<Longrightarrow> has_run S d k \<longleftrightarrow> k = 0"
  by (cases k) (simp_all add: has_run_Suc)

lemma has_run_isolated: "d \<in> S \<Longrightarrow> d - 1 \<notin> S \<Longrightarrow> has_run S d k \<longleftrightarrow> k \<le> 1"
  by (cases k) (simp_all add: has_run_Suc has_run_not_in)

lemma has_run_in: "has_run S d k \<Longrightarrow> 0 < k \<Longrightarrow> d \<in> S"
  by (cases k) (simp_all add: has_run_Suc)

lemma has_run_mono: "has_run S d k \<Longrightarrow> j \<le> k \<Longrightarrow> has_run S d j"
  by (auto simp: has_run_all)

lemma has_run_last: "has_run S d (Suc k) \<longleftrightarrow> has_run S d k \<and> d - int k \<in> S"
  by (auto simp: has_run_all less_Suc_eq)

lemmas run_simps = has_run_0 has_run_Suc has_run_not_in

subsection \<open>The current-streak loop\<close>

lemma current_streak_loop_Inr_iff:
  "date_min \<le> cursor \<Longrightarrow>
   current_streak_loop S cursor n = Inr c \<longleftrightarrow>
   (n \<le> c \<and> has_run S cursor (c - n) \<and> cursor - int (c - n) \<notin> S \<and> date_min \<le> cursor - int (c - n))"
proof (induction S cursor n rule: current_streak_loop.induct)
  case (1 S cursor n)
  show ?case
  proof (cases "cursor \<in> S")
    case False
    then show ?thesis
      using "1.prems" by (auto simp: current_streak_loop.simps [of S cursor n] has_run_not_in)
  next
    case inS: True
    show ?thesis
    proof (cases "cursor - 1 < date_min")
      case True
      have "\<not> (n \<le> c \<and> has_run S cursor (c - n) \<and> cursor - int (c - n) \<notin> S \<and> date_min \<le> cursor - int (c - n))"
      proof
        assume h: "n \<le> c \<and> has_run S cursor (c - n) \<and> cursor - int (c - n) \<notin> S \<and> date_min \<le> cursor - int (c - n)"
        with inS have "c - n \<noteq> 0" by auto
        with h True show False by linarith
      qed
      with inS True show ?thesis
        by (simp add: current_streak_loop.simps [of S cursor n])
    next
      case False
      with "1.IH" inS have IH:
        "current_streak_loop S (cursor - 1) (Suc n) = Inr c \<longleftrightarrow>
         (Suc n \<le> c \<and> has_run S (cursor - 1) (c - Suc n) \<and> cursor - 1 - int (c - Suc n) \<notin> S
          \<and> date_min \<le> cursor - 1 - int (c - Suc n))"
        by simp
      have "(n \<le> c \<and> has_run S cursor (c - n) \<and> cursor - int (c - n) \<notin> S \<and> date_min \<le> cursor - int (c - n))
        \<longleftrightarrow> (Suc n \<le> c \<and> has_run S (cursor - 1) (c - Suc n) \<and> cursor - 1 - int (c - Suc n) \<notin> S
          \<and> date_min \<le> cursor - 1 - int (c - Suc n))"
      proof (cases "n < c")
        case True
        then have "c - n = Suc (c - Suc n)" by simp
        with True inS show ?thesis by (simp add: has_run_Suc algebra_simps of_nat_diff)
      next
        case False
        with inS show ?thesis by auto
      qed
      with IH inS False show ?thesis
        by (simp add: current_streak_loop.simps [of S cursor n])
    qed
  qed
qed


lemma current_streak_loop_Inl_iff:
  "date_min \<le> cursor \<Longrightarrow>
   current_streak_loop S cursor n = Inl e \<longleftrightarrow>
   (e = DateOverflow \<and> has_run S cursor (nat (cursor - date_min + 1)))"
proof (induction S cursor n rule: current_streak_loop.induct)
  case (1 S cursor n)
  have k: "nat (cursor - date_min + 1) = Suc (nat (cursor - 1 - date_min + 1))"
    using "1.prems" by simp
  show ?case
  proof (cases "cursor \<in> S")
    case False
    then show ?thesis
      by (simp add: current_streak_loop.simps [of S cursor n] k has_run_Suc)
  next
    case inS: True
    show ?thesis
    proof (cases "cursor - 1 < date_min")
      case True
      with "1.prems" have "nat (cursor - 1 - date_min + 1) = 0" by simp
      with inS True show ?thesis
        by (auto simp: current_streak_loop.simps [of S cursor n] k has_run_Suc)
    next
      case False
      with "1.IH" inS have "current_streak_loop S (cursor - 1) (Suc n) = Inl e \<longleftrightarrow>
          (e = DateOverflow \<and> has_run S (cursor - 1) (nat (cursor - 1 - date_min + 1)))"
        by simp
      with inS False show ?thesis
        by (simp add: current_streak_loop.simps [of S cursor n] k has_run_Suc)
    qed
  qed
qed

subsection \<open>The longest-streak loop\<close>

lemma gap_before_not_in:
  fixes ds :: "date list"
  assumes sorted: "sorted_wrt (<) ds" and i: "i < length ds"
    and gap: "i = 0 \<or> ds ! i - ds ! (i - 1) \<noteq> 1"
  shows "ds ! i - 1 \<notin> set ds"
proof
  assume "ds ! i - 1 \<in> set ds"
  then obtain j where j: "j < length ds" "ds ! j = ds ! i - 1"
    by (auto simp: in_set_conv_nth)
  then have "j < i"
    using strict_sorted_nth_less_iff [OF sorted j(1) i] by simp
  then have "0 < i" and "j \<le> i - 1" by auto
  have "ds ! j \<le> ds ! (i - 1)"
  proof (cases "j = i - 1")
    case True
    then show ?thesis by simp
  next
    case False
    with \<open>j \<le> i - 1\<close> have "j < i - 1" by simp
    moreover have "i - 1 < length ds" using i by simp
    ultimately show ?thesis
      using sorted by (simp add: sorted_wrt_nth_less less_imp_le)
  qed
  moreover have "ds ! (i - 1) < ds ! i"
    using sorted i \<open>0 < i\<close> by (simp add: sorted_wrt_nth_less)
  ultimately have "ds ! i - ds ! (i - 1) = 1"
    using j(2) by linarith
  with gap \<open>0 < i\<close> show False by simp
qed

lemma longest_inv_start: "longest_inv ds 0 (0, 0)"
  by (simp add: longest_inv_def)

lemma longest_step_current:
  fixes ds :: "date list"
  assumes sorted: "sorted_wrt (<) ds" and i: "i < length ds"
    and inv: "longest_inv ds i acc"
  shows "has_run (set ds) (ds ! i) k \<longleftrightarrow> k \<le> snd (longest_step ds i acc)"
proof -
  have inS: "ds ! i \<in> set ds" using i by simp
  show ?thesis
  proof (cases "i = 0 \<or> ds ! i - ds ! (i - 1) \<noteq> 1")
    case True
    then have "snd (longest_step ds i acc) = 1"
      by (auto simp: longest_step_def split: prod.splits)
    with has_run_isolated [OF inS gap_before_not_in [OF sorted i True]] show ?thesis
      by simp
  next
    case False
    then have pos: "0 < i" and prev: "ds ! i - 1 = ds ! (i - 1)" by auto
    from False have st: "snd (longest_step ds i acc) = Suc (snd acc)"
      by (auto simp: longest_step_def split: prod.splits)
    from inv pos have cur: "\<forall>k. has_run (set ds) (ds ! (i - 1)) k \<longleftrightarrow> k \<le> snd acc"
      by (simp add: longest_inv_def)
    show ?thesis
    proof (cases k)
      case 0
      then show ?thesis by simp
    next
      case (Suc k')
      with cur inS prev st show ?thesis by (simp add: has_run_Suc)
    qed
  qed
qed

lemma longest_step_inv:
  fixes ds :: "date list"
  assumes sorted: "sorted_wrt (<) ds" and i: "i < length ds"
    and inv: "longest_inv ds i acc"
  shows "longest_inv ds (Suc i) (longest_step ds i acc)"
proof -
  have cur: "\<forall>k. has_run (set ds) (ds ! i) k \<longleftrightarrow> k \<le> snd (longest_step ds i acc)"
    using longest_step_current [OF sorted i inv] by blast
  have fst_step: "fst (longest_step ds i acc) = max (fst acc) (snd (longest_step ds i acc))"
    by (simp add: longest_step_def Let_def split: prod.splits)
  have best: "(\<exists>j<Suc i. has_run (set ds) (ds ! j) k) \<longleftrightarrow> k \<le> fst (longest_step ds i acc)"
    if "0 < k" for k
  proof -
    have "(\<exists>j<Suc i. has_run (set ds) (ds ! j) k) \<longleftrightarrow>
          (\<exists>j<i. has_run (set ds) (ds ! j) k) \<or> has_run (set ds) (ds ! i) k"
      by (auto simp: less_Suc_eq)
    also have "\<dots> \<longleftrightarrow> k \<le> fst acc \<or> k \<le> snd (longest_step ds i acc)"
      using inv that cur by (simp add: longest_inv_def)
    finally show ?thesis by (simp add: fst_step le_max_iff_disj)
  qed
  from cur best show ?thesis
    by (simp add: longest_inv_def)
qed

lemma longest_fold_inv:
  fixes ds :: "date list"
  assumes "sorted_wrt (<) ds" "i \<le> length ds"
  shows "longest_inv ds i (fold (longest_step ds) [0..<i] (0, 0))"
  using assms(2)
proof (induction i)
  case 0
  then show ?case by (simp add: longest_inv_start)
next
  case (Suc i)
  then have "longest_inv ds i (fold (longest_step ds) [0..<i] (0, 0))" by simp
  with Suc.prems show ?case
    by (simp add: longest_step_inv [OF assms(1)])
qed

lemma run_ends_in_list:
  "has_run (set ds) d k \<Longrightarrow> 0 < k \<Longrightarrow> \<exists>j<length ds. has_run (set ds) (ds ! j) k"
  by (metis has_run_in in_set_conv_nth)

lemma longest_streak_loop_runs:
  fixes ds :: "date list"
  assumes "sorted_wrt (<) ds"
  shows "k \<le> longest_streak_loop ds \<longleftrightarrow> (\<exists>d. has_run (set ds) d k)"
proof (cases "k = 0")
  case True
  then show ?thesis by simp
next
  case False
  have "longest_inv ds (length ds) (fold (longest_step ds) [0..<length ds] (0, 0))"
    using longest_fold_inv [OF assms] by simp
  with False have "(\<exists>j<length ds. has_run (set ds) (ds ! j) k) \<longleftrightarrow> k \<le> longest_streak_loop ds"
    by (simp add: longest_inv_def longest_streak_loop_def)
  with False show ?thesis
    by (auto dest: run_ends_in_list)
qed


subsection \<open>Properties of \<open>_calculate_streaks\<close>\<close>

lemma calculate_streaks_InrE:
  assumes "calculate_streaks today S = Inr (c, l)"
  obtains "S = {}" "c = 0" "l = 0"
  | "S \<noteq> {}" "current_streak_loop S today 0 = Inr c"
    "l = longest_streak_loop (sorted_list_of_set S)"
  using assms by (cases "S = {}") (auto simp: calculate_streaks_def Let_def split: sum.splits)

lemma current_streak_loop_error: "current_streak_loop S c n = Inl e \<Longrightarrow> e = DateOverflow"
proof (induction S c n rule: current_streak_loop.induct)
  case (1 S c n)
  then show ?case
    by (subst (asm) current_streak_loop.simps) (auto split: if_splits)
qed

lemma calculate_streaks_error: "calculate_streaks today S = Inl e \<Longrightarrow> e = DateOverflow"
  by (auto simp: calculate_streaks_def Let_def split: if_splits sum.splits dest: current_streak_loop_error)

lemma longest_streak_loop_set:
  "finite S \<Longrightarrow> k \<le> longest_streak_loop (sorted_list_of_set S) \<longleftrightarrow> (\<exists>d. has_run S d k)"
  using longest_streak_loop_runs [OF strict_sorted_list_of_set, of k S] by simp

lemma has_run_card: "finite S \<Longrightarrow> has_run S d k \<Longrightarrow> k \<le> card S"
proof -
  assume fin: "finite S" and run: "has_run S d k"
  have sub: "{d - int k<..d} \<subseteq> S" using run by (simp add: has_run_def)
  have "card {d - int k<..d} \<le> card S" by (rule card_mono [OF fin sub])
  then show "k \<le> card S" by simp
qed

lemma calculate_streaks_longest_le_card:
  assumes "finite S" and "calculate_streaks today S = Inr (c, l)"
  shows "l \<le> card S"
  using assms(2)
proof (cases rule: calculate_streaks_InrE)
  case 1
  then show ?thesis by simp
next
  case 2
  then obtain d where "has_run S d l"
    using longest_streak_loop_set [OF assms(1), of l] by auto
  with assms(1) show ?thesis by (rule has_run_card)
qed

text \<open>
  C1. The longest streak returned by \<open>_calculate_streaks\<close> is the length of the
  longest run of consecutive completed days: a run of \<open>k\<close> days exists exactly
  when \<open>k\<close> is at most the longest streak. This is the refinement of the index loop
  over the sorted dates to the abstract "longest run" specification.
\<close>

theorem longest_streak_is_longest_run:
  assumes "finite S" and "calculate_streaks today S = Inr (c, l)"
  shows "k \<le> l \<longleftrightarrow> (\<exists>d. has_run S d k)"
  using assms(2)
proof (cases rule: calculate_streaks_InrE)
  case 1
  then show ?thesis by (simp add: has_run_not_in)
next
  case 2
  with assms(1) show ?thesis by (simp add: longest_streak_loop_set)
qed

text \<open>
  C2. The current streak is the length of the maximal run of completed days ending
  today: the days \<open>(today - current, today]\<close> are all completed and the day before
  them is not.
\<close>

theorem current_streak_is_run_to_today:
  assumes "date_min \<le> today" and "calculate_streaks today S = Inr (c, l)"
  shows "has_run S today c \<and> today - int c \<notin> S"
  using assms(2)
proof (cases rule: calculate_streaks_InrE)
  case 1
  then show ?thesis by simp
next
  case 2
  with current_streak_loop_Inr_iff [OF assms(1)] show ?thesis by simp
qed

text \<open>
  C3. The streak computation fails, with Python's \<open>OverflowError\<close>, exactly when
  every day from \<open>date.min\<close> (0001-01-01) up to today is completed: the backward
  walk then steps below \<open>date.min\<close>. In every other case it returns a result.
\<close>

theorem current_streak_overflow:
  assumes "date_min \<le> today"
  shows "(\<exists>e. calculate_streaks today S = Inl e) \<longleftrightarrow> has_run S today (nat (today - date_min + 1))"
proof (cases "S = {}")
  case True
  have "nat (today - date_min + 1) \<noteq> 0" using assms by simp
  with True show ?thesis by (simp add: calculate_streaks_def has_run_not_in)
next
  case False
  then have "(\<exists>e. calculate_streaks today S = Inl e) \<longleftrightarrow> (\<exists>e. current_streak_loop S today 0 = Inl e)"
    by (auto simp: calculate_streaks_def Let_def split: sum.splits)
  with current_streak_loop_Inl_iff [OF assms] show ?thesis by simp
qed

text \<open>
  C4. The current streak never exceeds the longest streak.
\<close>

theorem current_streak_le_longest:
  assumes "finite S" and "date_min \<le> today" and "calculate_streaks today S = Inr (c, l)"
  shows "c \<le> l"
  using assms(3)
proof (cases rule: calculate_streaks_InrE)
  case 1
  then show ?thesis by simp
next
  case 2
  then have "has_run S today c"
    using current_streak_loop_Inr_iff [OF assms(2)] by simp
  with 2 assms(1) show ?thesis by (auto simp: longest_streak_loop_set)
qed

subsection \<open>Witnesses\<close>

lemma calculate_streaks_example: "calculate_streaks 7 (set [5, 6, 7, 10]) = Inr (3, 3)"
  by (simp add: calculate_streaks_def sorted_list_of_set_sort_remdups current_streak_loop.simps
      longest_streak_loop_def longest_step_def date_min_def upt_rec)

lemma calculate_streaks_overflow_example:
  "calculate_streaks 3 (set [1, 2, 3]) = Inl DateOverflow"
  by (simp add: calculate_streaks_def current_streak_loop.simps date_min_def)

theorem longest_streak_is_longest_run_witness:
  "finite (set [5, 6, 7, 10 :: date]) \<and> calculate_streaks 7 (set [5, 6, 7, 10]) = Inr (3, 3) \<and>
   ((3::nat) \<le> 3 \<longleftrightarrow> (\<exists>d. has_run (set [5, 6, 7, 10]) d 3))"
  using longest_streak_is_longest_run [OF _ calculate_streaks_example, of 3]
    calculate_streaks_example
  by simp

theorem current_streak_is_run_to_today_witness:
  "date_min \<le> 7 \<and> calculate_streaks 7 (set [5, 6, 7, 10]) = Inr (3, 3) \<and>
   has_run (set [5, 6, 7, 10]) 7 3 \<and> 7 - int 3 \<notin> set [5, 6, 7, 10]"
proof -
  have "date_min \<le> (7::date)" by (simp add: date_min_def)
  then show ?thesis
    using current_streak_is_run_to_today [of 7 "set [5, 6, 7, 10]" 3 3] calculate_streaks_example
    by simp
qed

theorem current_streak_overflow_witness:
  "date_min \<le> 3 \<and> calculate_streaks 3 (set [1, 2, 3]) = Inl DateOverflow \<and>
   has_run (set [1, 2, 3]) 3 (nat (3 - date_min + 1))"
proof -
  have "date_min \<le> (3::date)" by (simp add: date_min_def)
  then show ?thesis
    using current_streak_overflow [of 3 "set [1, 2, 3]"] calculate_streaks_overflow_example
    by auto
qed

theorem current_streak_le_longest_witness:
  "finite (set [5, 6, 7, 10 :: date]) \<and> date_min \<le> 7 \<and>
   calculate_streaks 7 (set [5, 6, 7, 10]) = Inr (3, 3) \<and> (3::nat) \<le> 3"
proof -
  have "date_min \<le> (7::date)" by (simp add: date_min_def)
  then show ?thesis
    using current_streak_le_longest [of "set [5, 6, 7, 10]" 7 3 3] calculate_streaks_example
    by simp
qed

end
