(* ===== verification/Statistics.thy ===== *)
theory Statistics
  imports Streaks
begin

text \<open>
  The calculators of \<open>src/app/core/statistics.py\<close>: the result dataclass
  \<open>StatisticsResult\<close>, the window filter \<open>_filter_logs_by_date\<close>, the two
  \<open>calculate\<close> methods of \<open>BooleanStatisticsCalculator\<close> and
  \<open>NumericStatisticsCalculator\<close> (each loop over the filtered logs is a
  \<open>fold\<close> that builds the completed-date set, and for numeric habits the list of
  values too), the closed set of calculator classes as a datatype with a dispatching
  \<open>calculate\<close>, and \<open>StatisticsCalculatorFactory\<close>: its class-level registry is a
  map from habit types to calculators, passed explicitly. Python floats are modelled
  as reals: \<open>completion_rate\<close> and \<open>average_value\<close> are the exact quotients,
  without IEEE rounding.
\<close>

subsection \<open>The code\<close>

record statistics_result =
  current_streak :: nat
  longest_streak :: nat
  total_completions :: nat
  completion_rate :: real
  average_value :: "real option"
  total_days_tracked :: nat

definition filter_logs_by_date ::
  "log_entry list \<Rightarrow> date option \<Rightarrow> date option \<Rightarrow> log_entry list" where
  "filter_logs_by_date logs start end_d =
     (let filtered = (case start of None \<Rightarrow> logs
                       | Some s \<Rightarrow> filter (\<lambda>entry. s \<le> l_date entry) logs)
      in case end_d of None \<Rightarrow> filtered
         | Some e \<Rightarrow> filter (\<lambda>entry. l_date entry \<le> e) filtered)"

definition boolean_completes :: "log_entry \<Rightarrow> bool" where
  "boolean_completes entry = (case l_value entry of None \<Rightarrow> False | Some v \<Rightarrow> 1 \<le> v)"

definition boolean_completed_dates :: "log_entry list \<Rightarrow> date set" where
  "boolean_completed_dates filtered_logs =
     fold (\<lambda>entry completed_dates.
             if boolean_completes entry then insert (l_date entry) completed_dates
             else completed_dates) filtered_logs {}"

definition boolean_calculate ::
  "date \<Rightarrow> habit \<Rightarrow> log_entry list \<Rightarrow> date option \<Rightarrow> date option \<Rightarrow> error + statistics_result" where
  "boolean_calculate today habit logs start end_d =
     (let filtered_logs = filter_logs_by_date logs start end_d;
          completed_dates = boolean_completed_dates filtered_logs
      in case calculate_streaks today completed_dates of
           Inl e \<Rightarrow> Inl e
         | Inr (current, longest) \<Rightarrow>
             (let total_completions = card completed_dates;
                  total_days = length filtered_logs;
                  completion_rate =
                    (if 0 < total_days then real total_completions / real total_days else 0)
              in Inr \<lparr>current_streak = current, longest_streak = longest,
                      total_completions = total_completions, completion_rate = completion_rate,
                      average_value = None, total_days_tracked = total_days\<rparr>))"

definition numeric_step ::
  "real option \<Rightarrow> log_entry \<Rightarrow> date set \<times> real list \<Rightarrow> date set \<times> real list" where
  "numeric_step goal entry acc =
     (case acc of (completed_dates, values) \<Rightarrow>
        (case l_value entry of
           None \<Rightarrow> (completed_dates, values)
         | Some v \<Rightarrow>
             (let values' = values @ [v] in
              case goal of
                Some g \<Rightarrow> (if g \<le> v then (insert (l_date entry) completed_dates, values')
                           else (completed_dates, values'))
              | None \<Rightarrow> (if 0 < v then (insert (l_date entry) completed_dates, values')
                          else (completed_dates, values')))))"

definition numeric_calculate ::
  "date \<Rightarrow> habit \<Rightarrow> log_entry list \<Rightarrow> date option \<Rightarrow> date option \<Rightarrow> error + statistics_result" where
  "numeric_calculate today habit logs start end_d =
     (let filtered_logs = filter_logs_by_date logs start end_d;
          (completed_dates, values) = fold (numeric_step (h_goal habit)) filtered_logs ({}, [])
      in case calculate_streaks today completed_dates of
           Inl e \<Rightarrow> Inl e
         | Inr (current, longest) \<Rightarrow>
             (let total_completions = card completed_dates;
                  total_days = length filtered_logs;
                  completion_rate =
                    (if 0 < total_days then real total_completions / real total_days else 0);
                  average_value =
                    (if values \<noteq> [] then Some (sum_list values / real (length values)) else None)
              in Inr \<lparr>current_streak = current, longest_streak = longest,
                      total_completions = total_completions, completion_rate = completion_rate,
                      average_value = average_value, total_days_tracked = total_days\<rparr>))"

datatype calculator = BooleanStatisticsCalculator | NumericStatisticsCalculator

fun calculate ::
  "calculator \<Rightarrow> date \<Rightarrow> habit \<Rightarrow> log_entry list \<Rightarrow> date option \<Rightarrow> date option
   \<Rightarrow> error + statistics_result" where
  "calculate BooleanStatisticsCalculator = boolean_calculate"
| "calculate NumericStatisticsCalculator = numeric_calculate"

type_synonym calculator_registry = "habit_type \<Rightarrow> calculator option"

definition default_calculators :: calculator_registry where
  "default_calculators =
     [BOOLEAN \<mapsto> BooleanStatisticsCalculator, NUMERIC \<mapsto> NumericStatisticsCalculator]"

definition get_calculator :: "calculator_registry \<Rightarrow> habit_type \<Rightarrow> error + calculator" where
  "get_calculator calculators habit_type =
     (case calculators habit_type of
        None \<Rightarrow> Inl (NoCalculator habit_type)
      | Some calculator \<Rightarrow> Inr calculator)"

definition register_calculator ::
  "calculator_registry \<Rightarrow> habit_type \<Rightarrow> calculator \<Rightarrow> calculator_registry" where
  "register_calculator calculators habit_type calculator = calculators(habit_type \<mapsto> calculator)"

declare filter_logs_by_date_def [stats_simps] boolean_completes_def [stats_simps]
  boolean_completed_dates_def [stats_simps] boolean_calculate_def [stats_simps]
  numeric_step_def [stats_simps] numeric_calculate_def [stats_simps]

subsection \<open>Test fixtures\<close>

text \<open>
  Log entries and habits shaped like those of \<open>src/tests/test_statistics.py\<close>, and the
  logs of the spec's scenarios A (five consecutive boolean completions ending today) and
  C (numeric habit with goal 10, values 15, 12 and 5), with today as day 100.
\<close>

definition test_log :: "date \<Rightarrow> real option \<Rightarrow> log_entry" where
  "test_log d v = \<lparr>l_id = ''log'', l_habit_id = ''h'', l_date = d, l_value = v, l_created_at = 0\<rparr>"

definition test_habit :: "habit_type \<Rightarrow> real option \<Rightarrow> habit" where
  "test_habit t g = \<lparr>h_id = ''h'', h_name = ''Test'', h_description = None, h_category = None,
     h_type = t, h_goal = g, h_created_at = 0, h_parent_id = None, h_subhabit_ids = []\<rparr>"

definition scenario_a_logs :: "log_entry list" where
  "scenario_a_logs = [test_log 100 (Some 1), test_log 99 (Some 1), test_log 98 (Some 1),
     test_log 97 (Some 1), test_log 96 (Some 1)]"

definition scenario_c_logs :: "log_entry list" where
  "scenario_c_logs = [test_log 100 (Some 15), test_log 99 (Some 12), test_log 98 (Some 5)]"

definition scenario_b_logs :: "log_entry list" where
  "scenario_b_logs = [test_log 100 (Some 1), test_log 99 (Some 1), test_log 95 (Some 1), test_log 94 (Some 1)]"

definition scenario_d_logs :: "log_entry list" where
  "scenario_d_logs = [test_log 100 (Some 5000), test_log 99 (Some 7000)]"

definition scenario_f_logs :: "log_entry list" where
  "scenario_f_logs = [test_log 100 (Some 1), test_log 95 (Some 1), test_log 90 (Some 1)]"

subsection \<open>Specification\<close>

text \<open>
  \<open>in_window start end d\<close>: the date lies in the optional inclusive window.
  \<open>numeric_completes goal v\<close>: the completion rule of a numeric habit.
\<close>

definition in_window :: "date option \<Rightarrow> date option \<Rightarrow> date \<Rightarrow> bool" where
  "in_window start end_d d \<longleftrightarrow>
     (case start of None \<Rightarrow> True | Some s \<Rightarrow> s \<le> d) \<and>
     (case end_d of None \<Rightarrow> True | Some e \<Rightarrow> d \<le> e)"

definition numeric_completes :: "real option \<Rightarrow> real \<Rightarrow> bool" where
  "numeric_completes goal v \<longleftrightarrow> (case goal of Some g \<Rightarrow> g \<le> v | None \<Rightarrow> 0 < v)"

lemma filter_logs_by_date_eq:
  "filter_logs_by_date logs start end_d = filter (\<lambda>l. in_window start end_d (l_date l)) logs"
  by (auto simp: filter_logs_by_date_def in_window_def split: option.splits)

lemma boolean_completes_iff: "boolean_completes l \<longleftrightarrow> (\<exists>v. l_value l = Some v \<and> 1 \<le> v)"
  by (simp add: boolean_completes_def split: option.splits)

lemma boolean_completed_dates_eq:
  "boolean_completed_dates ls = l_date ` {l \<in> set ls. boolean_completes l}"
  by (simp add: boolean_completed_dates_def fold_insert_if)

lemma numeric_fold_eq:
  "fold (numeric_step goal) ls (C, vs) =
     (C \<union> l_date ` {l \<in> set ls. \<exists>v. l_value l = Some v \<and> numeric_completes goal v},
      vs @ List.map_filter l_value ls)"
proof (induction ls arbitrary: C vs)
  case Nil
  then show ?case by (simp add: List.map_filter_def)
next
  case (Cons l ls)
  show ?case
  proof (cases "l_value l")
    case None
    with Cons.IH show ?thesis
      by (auto simp: numeric_step_def List.map_filter_def)
  next
    case (Some v)
    then have step: "numeric_step goal l (C, vs) =
        (if numeric_completes goal v then insert (l_date l) C else C, vs @ [v])"
      by (simp add: numeric_step_def numeric_completes_def Let_def split: option.splits)
    show ?thesis
      using Cons.IH [of "if numeric_completes goal v then insert (l_date l) C else C" "vs @ [v]"]
      by (auto simp: step Some List.map_filter_def)
  qed
qed

lemma numeric_fold_start:
  "fold (numeric_step goal) ls ({}, []) =
     (l_date ` {l \<in> set ls. \<exists>v. l_value l = Some v \<and> numeric_completes goal v},
      List.map_filter l_value ls)"
  using numeric_fold_eq [of goal ls "{}" "[]"] by simp

text \<open>
  The calculators read their input as a multiset: the completed-date sets, the entry
  count and the sum and count of the values depend only on which entries occur, not
  on their order. (With Python floats the sum could differ in its last bits between
  orders; with the exact reals of this model it does not.)
\<close>

lemma mset_map_filter_eq:
  "mset xs = mset ys \<Longrightarrow> mset (List.map_filter f xs) = mset (List.map_filter f ys)"
  by (simp add: List.map_filter_def mset_map mset_filter)

lemma filter_logs_by_date_mset:
  "mset logs = mset logs' \<Longrightarrow>
   mset (filter_logs_by_date logs start end_d) = mset (filter_logs_by_date logs' start end_d)"
  by (simp add: filter_logs_by_date_eq mset_filter)

lemma calculate_mset:
  assumes m: "mset logs = mset logs'"
  shows "calculate c today h logs start end_d = calculate c today h logs' start end_d"
proof -
  let ?fl = "filter_logs_by_date logs start end_d" and ?fl' = "filter_logs_by_date logs' start end_d"
  have mf: "mset ?fl = mset ?fl'" using filter_logs_by_date_mset [OF m] .
  then have set: "set ?fl = set ?fl'" and len: "length ?fl = length ?fl'"
    by (metis set_mset_mset, metis size_mset)
  have mv: "mset (List.map_filter l_value ?fl) = mset (List.map_filter l_value ?fl')"
    using mset_map_filter_eq [OF mf] .
  then have sum: "sum_list (List.map_filter l_value ?fl) = sum_list (List.map_filter l_value ?fl')"
    and lenv: "length (List.map_filter l_value ?fl) = length (List.map_filter l_value ?fl')"
    by (metis sum_mset_sum_list, metis size_mset)
  have nil: "List.map_filter l_value ?fl = [] \<longleftrightarrow> List.map_filter l_value ?fl' = []"
    using lenv by auto
  show ?thesis
  proof (cases c)
    case BooleanStatisticsCalculator
    have "boolean_completed_dates ?fl = boolean_completed_dates ?fl'"
      by (simp add: boolean_completed_dates_eq set)
    with BooleanStatisticsCalculator show ?thesis
      by (simp only: calculate.simps boolean_calculate_def Let_def len)
  next
    case NumericStatisticsCalculator
    have "l_date ` {l \<in> set ?fl. \<exists>v. l_value l = Some v \<and> numeric_completes (h_goal h) v} =
        l_date ` {l \<in> set ?fl'. \<exists>v. l_value l = Some v \<and> numeric_completes (h_goal h) v}"
      by (simp only: set)
    with NumericStatisticsCalculator show ?thesis
      by (simp only: calculate.simps numeric_calculate_def numeric_fold_start Let_def prod.case
          len sum lenv nil)
  qed
qed

lemma sum_case_Inr_pair:
  "(case x of Inl e \<Rightarrow> Inl e | Inr (c, l) \<Rightarrow> Inr (f c l)) = Inr r \<longleftrightarrow>
   (\<exists>c l. x = Inr (c, l) \<and> r = f c l)"
  by (auto split: sum.splits)

lemma boolean_calculate_Inr:
  "boolean_calculate today h logs start end_d = Inr r \<longleftrightarrow>
   (let fl = filter_logs_by_date logs start end_d; S = boolean_completed_dates fl in
    calculate_streaks today S = Inr (current_streak r, longest_streak r) \<and>
    total_completions r = card S \<and> total_days_tracked r = length fl \<and>
    completion_rate r = (if 0 < length fl then real (card S) / real (length fl) else 0) \<and>
    average_value r = None)"
  unfolding boolean_calculate_def Let_def by (auto split: sum.splits)

lemma numeric_calculate_Inr:
  "numeric_calculate today h logs start end_d = Inr r \<longleftrightarrow>
   (let fl = filter_logs_by_date logs start end_d;
        S = l_date ` {l \<in> set fl. \<exists>v. l_value l = Some v \<and> numeric_completes (h_goal h) v};
        vs = List.map_filter l_value fl in
    calculate_streaks today S = Inr (current_streak r, longest_streak r) \<and>
    total_completions r = card S \<and> total_days_tracked r = length fl \<and>
    completion_rate r = (if 0 < length fl then real (card S) / real (length fl) else 0) \<and>
    average_value r = (if vs \<noteq> [] then Some (sum_list vs / real (length vs)) else None))"
  unfolding numeric_calculate_def Let_def numeric_fold_start by (auto split: sum.splits)

lemma calculate_Inr_cases:
  assumes "calculate calc today h logs start end_d = Inr r"
  obtains S where "S \<subseteq> l_date ` set (filter_logs_by_date logs start end_d)"
    "calculate_streaks today S = Inr (current_streak r, longest_streak r)"
    "total_completions r = card S"
    "total_days_tracked r = length (filter_logs_by_date logs start end_d)"
    "completion_rate r = (if 0 < total_days_tracked r
        then real (total_completions r) / real (total_days_tracked r) else 0)"
proof (cases calc)
  case BooleanStatisticsCalculator
  with assms show ?thesis
    by (intro that [of "boolean_completed_dates (filter_logs_by_date logs start end_d)"])
       (auto simp: boolean_calculate_Inr boolean_completed_dates_eq Let_def)
next
  case NumericStatisticsCalculator
  with assms show ?thesis
    by (intro that [of "l_date ` {l \<in> set (filter_logs_by_date logs start end_d).
        \<exists>v. l_value l = Some v \<and> numeric_completes (h_goal h) v}"])
       (auto simp: numeric_calculate_Inr Let_def)
qed

lemma calculate_error: "calculate c today h logs start end_d = Inl e \<Longrightarrow> e = DateOverflow"
  by (cases c) (auto simp: boolean_calculate_def numeric_calculate_def Let_def split: sum.splits prod.splits
      dest: calculate_streaks_error)

lemma boolean_calculate_error: "boolean_calculate today h logs start end_d = Inl e \<Longrightarrow> e = DateOverflow"
  using calculate_error [of BooleanStatisticsCalculator] by simp

lemma numeric_calculate_error: "numeric_calculate today h logs start end_d = Inl e \<Longrightarrow> e = DateOverflow"
  using calculate_error [of NumericStatisticsCalculator] by simp

text \<open>
  C5. For either calculator, the number of completed days never exceeds the number of
  log entries in the window, and the completion rate lies in [0, 1].
\<close>

theorem completion_rate_bounds:
  assumes "calculate calc today h logs start end_d = Inr r"
  shows "total_completions r \<le> total_days_tracked r \<and>
         0 \<le> completion_rate r \<and> completion_rate r \<le> 1"
  using assms
proof (cases rule: calculate_Inr_cases)
  case (1 S)
  then have le: "total_completions r \<le> total_days_tracked r"
    by (simp add: card_le_length_if_subset_image)
  then show ?thesis
    using ratio_bounds [OF le] 1(5) by simp
qed


text \<open>
  C6. Every result of either calculator is ordered: the current streak is at most the
  longest streak, which is at most the number of completed dates, which is at most the
  number of entries in the window.
\<close>

theorem statistics_bounds:
  assumes "date_min \<le> today" and "calculate calc today h logs start end_d = Inr r"
  shows "current_streak r \<le> longest_streak r \<and> longest_streak r \<le> total_completions r \<and>
    total_completions r \<le> total_days_tracked r"
  using assms(2)
proof (cases rule: calculate_Inr_cases)
  case (1 S)
  have fin: "finite S" using 1(1) by (rule finite_subset) simp
  have cl: "current_streak r \<le> longest_streak r"
    using 1(2)
  proof (cases rule: calculate_streaks_InrE)
    case 1
    then show ?thesis by simp
  next
    case 2
    then have "has_run S today (current_streak r)"
      using current_streak_loop_Inr_iff [OF assms(1)] by simp
    with 2 fin show ?thesis by (auto simp: longest_streak_loop_set)
  qed
  moreover have "longest_streak r \<le> total_completions r"
    using calculate_streaks_longest_le_card [OF fin 1(2)] 1(3) by simp
  moreover have "total_completions r \<le> total_days_tracked r"
    using 1(1) 1(3) 1(4) by (simp add: card_le_length_if_subset_image)
  ultimately show ?thesis by simp
qed

subsection \<open>Properties of the calculators\<close>

lemma map_filter_Nil_iff: "List.map_filter f xs = [] \<longleftrightarrow> (\<forall>x \<in> set xs. f x = None)"
  by (induction xs) (auto simp: List.map_filter_def)

text \<open>
  C7. The boolean calculator counts the entries in the window as days tracked, counts
  the distinct dates of entries in the window whose value is present and at least 1.0 as
  completions, computes both streaks over exactly those dates, and reports no average.
\<close>

theorem boolean_calculate_spec:
  assumes "boolean_calculate today h logs start end_d = Inr r"
  shows "total_days_tracked r = length (filter (\<lambda>l. in_window start end_d (l_date l)) logs) \<and>
    total_completions r =
      card (l_date ` {l \<in> set logs. in_window start end_d (l_date l) \<and> (\<exists>v. l_value l = Some v \<and> 1 \<le> v)}) \<and>
    calculate_streaks today
      (l_date ` {l \<in> set logs. in_window start end_d (l_date l) \<and> (\<exists>v. l_value l = Some v \<and> 1 \<le> v)})
      = Inr (current_streak r, longest_streak r) \<and>
    average_value r = None"
  using assms
  by (simp add: boolean_calculate_Inr boolean_completed_dates_eq filter_logs_by_date_eq Let_def
      conj_assoc boolean_completes_iff)

text \<open>
  C8. The numeric calculator counts as completed the distinct dates of entries in the
  window whose value is present and reaches the goal (or is positive when there is no
  goal), and computes both streaks over exactly those dates.
\<close>

theorem numeric_calculate_completions:
  assumes "numeric_calculate today h logs start end_d = Inr r"
  shows "total_completions r =
      card (l_date ` {l \<in> set logs. in_window start end_d (l_date l) \<and>
                       (\<exists>v. l_value l = Some v \<and> numeric_completes (h_goal h) v)}) \<and>
    calculate_streaks today
      (l_date ` {l \<in> set logs. in_window start end_d (l_date l) \<and>
                  (\<exists>v. l_value l = Some v \<and> numeric_completes (h_goal h) v)})
      = Inr (current_streak r, longest_streak r)"
  using assms
  by (simp add: numeric_calculate_Inr filter_logs_by_date_eq Let_def conj_assoc)

text \<open>
  C9. The numeric average is absent exactly when no entry in the window carries a value;
  otherwise it is the mean of all values in the window, whether or not they complete.
\<close>

theorem numeric_average_value:
  assumes "numeric_calculate today h logs start end_d = Inr r"
  shows "(average_value r = None \<longleftrightarrow>
            (\<forall>l \<in> set logs. in_window start end_d (l_date l) \<longrightarrow> l_value l = None)) \<and>
    (\<forall>a. average_value r = Some a \<longrightarrow>
       a * real (length (List.map_filter l_value (filter_logs_by_date logs start end_d))) =
       sum_list (List.map_filter l_value (filter_logs_by_date logs start end_d)))"
proof -
  let ?vs = "List.map_filter l_value (filter_logs_by_date logs start end_d)"
  have avg: "average_value r = (if ?vs \<noteq> [] then Some (sum_list ?vs / real (length ?vs)) else None)"
    using assms by (simp add: numeric_calculate_Inr Let_def)
  have none: "?vs = [] \<longleftrightarrow> (\<forall>l \<in> set logs. in_window start end_d (l_date l) \<longrightarrow> l_value l = None)"
    by (auto simp: map_filter_Nil_iff filter_logs_by_date_eq)
  show ?thesis
    using avg none by auto
qed

text \<open>
  With no log entries, either calculator returns all counts, streaks and the rate
  as 0 and no average.
\<close>

lemma empty_logs_statistics:
  "calculate calc today h [] start end_d =
     Inr \<lparr>current_streak = 0, longest_streak = 0, total_completions = 0, completion_rate = 0,
          average_value = None, total_days_tracked = 0\<rparr>"
  by (cases calc)
     (simp_all add: boolean_calculate_def numeric_calculate_def filter_logs_by_date_def
       boolean_completed_dates_def calculate_streaks_def split: option.splits)

text \<open>
  The factory's default registry has a calculator for every habit type: the
  boolean calculator for BOOLEAN and the numeric one for NUMERIC.
\<close>

lemma default_calculator_total:
  "get_calculator default_calculators t =
     Inr (case t of BOOLEAN \<Rightarrow> BooleanStatisticsCalculator | NUMERIC \<Rightarrow> NumericStatisticsCalculator)"
  by (cases t) (simp_all add: get_calculator_def default_calculators_def)

text \<open>
  \<open>get_calculator\<close> fails, with the \<open>ValueError\<close> "No calculator found",
  exactly when the registry has no calculator for the type.
\<close>

lemma get_calculator_error:
  "get_calculator calculators t = Inl e \<longleftrightarrow> calculators t = None \<and> e = NoCalculator t"
  by (auto simp: get_calculator_def split: option.splits)

text \<open>
  After \<open>register_calculator\<close>, the factory returns the registered calculator for
  that type and is unchanged for every other type.
\<close>

lemma register_calculator_lookup:
  "get_calculator (register_calculator calculators t c) t = Inr c \<and>
   (t' \<noteq> t \<longrightarrow> get_calculator (register_calculator calculators t c) t' = get_calculator calculators t')"
  by (simp add: get_calculator_def register_calculator_def)

text \<open>
  The two sequential filters of \<open>_filter_logs_by_date\<close> keep exactly the entries
  whose date lies in the inclusive window, in their order, and filtering twice with the
  same window changes nothing (the service filters in the repository and again here).
\<close>

lemma filter_logs_by_date_window:
  "filter_logs_by_date logs start end_d = filter (\<lambda>l. in_window start end_d (l_date l)) logs \<and>
   filter_logs_by_date (filter_logs_by_date logs start end_d) start end_d =
   filter_logs_by_date logs start end_d"
  by (simp add: filter_logs_by_date_eq)

text \<open>
  Spec scenarios B, D and F evaluate as the spec says: a gap of three days splits
  the boolean streaks into runs of 2; a numeric habit without goal completes both positive
  entries and averages them to 6000; a window starting 7 days ago leaves out an older
  entry from the days tracked.
\<close>

lemma spec_scenarios_b_d_f:
  "calculate BooleanStatisticsCalculator 100 (test_habit BOOLEAN None) scenario_b_logs None None =
     Inr \<lparr>current_streak = 2, longest_streak = 2, total_completions = 4, completion_rate = 1,
          average_value = None, total_days_tracked = 4\<rparr> \<and>
   calculate NumericStatisticsCalculator 100 (test_habit NUMERIC None) scenario_d_logs None None =
     Inr \<lparr>current_streak = 2, longest_streak = 2, total_completions = 2, completion_rate = 1,
          average_value = Some 6000, total_days_tracked = 2\<rparr> \<and>
   calculate BooleanStatisticsCalculator 100 (test_habit BOOLEAN None) scenario_f_logs (Some 93) None =
     Inr \<lparr>current_streak = 1, longest_streak = 1, total_completions = 2, completion_rate = 1,
          average_value = None, total_days_tracked = 2\<rparr>"
  by (simp add: boolean_calculate_def numeric_calculate_def numeric_step_def filter_logs_by_date_def
      boolean_completed_dates_def boolean_completes_def test_habit_def scenario_b_logs_def
      scenario_d_logs_def scenario_f_logs_def test_log_def calculate_streaks_def
      current_streak_loop.simps date_min_def sorted_list_of_set_sort_remdups longest_streak_loop_def
      longest_step_def upt_rec)

subsection \<open>Witnesses\<close>

lemma scenario_a:
  "calculate BooleanStatisticsCalculator 100 (test_habit BOOLEAN None)
     scenario_a_logs None None =
   Inr \<lparr>current_streak = 5, longest_streak = 5, total_completions = 5, completion_rate = 1,
        average_value = None, total_days_tracked = 5\<rparr>"
  by (simp add: boolean_calculate_def filter_logs_by_date_def boolean_completed_dates_def
      boolean_completes_def scenario_a_logs_def test_log_def calculate_streaks_def current_streak_loop.simps date_min_def
      sorted_list_of_set_sort_remdups longest_streak_loop_def longest_step_def upt_rec)

lemma scenario_c:
  "calculate NumericStatisticsCalculator 100 (test_habit NUMERIC (Some 10))
     scenario_c_logs None None =
   Inr \<lparr>current_streak = 2, longest_streak = 2, total_completions = 2, completion_rate = 2 / 3,
        average_value = Some (32 / 3), total_days_tracked = 3\<rparr>"
  by (simp add: numeric_calculate_def filter_logs_by_date_def numeric_step_def test_habit_def
      scenario_c_logs_def test_log_def calculate_streaks_def current_streak_loop.simps date_min_def
      sorted_list_of_set_sort_remdups longest_streak_loop_def longest_step_def upt_rec)


theorem statistics_bounds_witness:
  "date_min \<le> 100 \<and>
   calculate BooleanStatisticsCalculator 100 (test_habit BOOLEAN None) scenario_a_logs None None =
     Inr \<lparr>current_streak = 5, longest_streak = 5, total_completions = 5, completion_rate = 1,
          average_value = None, total_days_tracked = 5\<rparr>"
proof -
  have "date_min \<le> (100::int)" by (simp add: date_min_def)
  with statistics_bounds [OF this scenario_a] scenario_a show ?thesis by simp
qed

theorem completion_rate_bounds_witness:
  "calculate BooleanStatisticsCalculator 100 (test_habit BOOLEAN None) scenario_a_logs None None =
     Inr \<lparr>current_streak = 5, longest_streak = 5, total_completions = 5, completion_rate = 1,
          average_value = None, total_days_tracked = 5\<rparr> \<and>
   (5::nat) \<le> 5 \<and> (0::real) \<le> 1 \<and> (1::real) \<le> 1"
  using completion_rate_bounds [OF scenario_a] scenario_a by simp

theorem boolean_calculate_spec_witness:
  "boolean_calculate 100 (test_habit BOOLEAN None) scenario_a_logs None None =
     Inr \<lparr>current_streak = 5, longest_streak = 5, total_completions = 5, completion_rate = 1,
          average_value = None, total_days_tracked = 5\<rparr> \<and>
   length (filter (\<lambda>l. in_window None None (l_date l)) scenario_a_logs) = 5"
  using boolean_calculate_spec [of 100 "test_habit BOOLEAN None" scenario_a_logs None None]
    scenario_a
  by simp

theorem numeric_calculate_completions_witness:
  "numeric_calculate 100 (test_habit NUMERIC (Some 10)) scenario_c_logs None None =
     Inr \<lparr>current_streak = 2, longest_streak = 2, total_completions = 2, completion_rate = 2 / 3,
          average_value = Some (32 / 3), total_days_tracked = 3\<rparr> \<and>
   card (l_date ` {l \<in> set scenario_c_logs. in_window None None (l_date l) \<and>
      (\<exists>v. l_value l = Some v \<and> numeric_completes (Some 10) v)}) = 2"
  using numeric_calculate_completions [of 100 "test_habit NUMERIC (Some 10)" scenario_c_logs None None]
    scenario_c
  by (simp add: test_habit_def)

theorem numeric_average_value_witness:
  "numeric_calculate 100 (test_habit NUMERIC (Some 10)) scenario_c_logs None None =
     Inr \<lparr>current_streak = 2, longest_streak = 2, total_completions = 2, completion_rate = 2 / 3,
          average_value = Some (32 / 3), total_days_tracked = 3\<rparr> \<and>
   (32 / 3) * real (length (List.map_filter l_value (filter_logs_by_date scenario_c_logs None None))) =
     sum_list (List.map_filter l_value (filter_logs_by_date scenario_c_logs None None))"
proof -
  let ?vs = "List.map_filter l_value (filter_logs_by_date scenario_c_logs None None)"
  have r: "numeric_calculate 100 (test_habit NUMERIC (Some 10)) scenario_c_logs None None =
     Inr \<lparr>current_streak = 2, longest_streak = 2, total_completions = 2, completion_rate = 2 / 3,
          average_value = Some (32 / 3), total_days_tracked = 3\<rparr>"
    using scenario_c by simp
  have "\<forall>a. Some (32 / 3) = Some a \<longrightarrow> a * real (length ?vs) = sum_list ?vs"
    using numeric_average_value [OF r] by simp
  then have "(32 / 3) * real (length ?vs) = sum_list ?vs" by blast
  with r show ?thesis by blast
qed

lemma register_calculator_lookup_witness:
  "get_calculator (register_calculator default_calculators NUMERIC BooleanStatisticsCalculator) NUMERIC
     = Inr BooleanStatisticsCalculator \<and>
   get_calculator (register_calculator default_calculators NUMERIC BooleanStatisticsCalculator) BOOLEAN
     = get_calculator default_calculators BOOLEAN"
  using register_calculator_lookup [of default_calculators NUMERIC BooleanStatisticsCalculator BOOLEAN]
  by simp

end
