(* ===== verification/Repository.thy ===== *)
theory Repository
  imports Statistics
begin

text \<open>
  The in-memory repositories of \<open>src/app/db/in_memory.py\<close>, which implement the
  \<open>HabitRepository\<close> and \<open>LogRepository\<close> protocols of
  \<open>src/app/db/repository.py\<close>. \<open>InMemoryHabitRepository._storage\<close> is a Python
  dict, i.e. an insertion-ordered map: an association list where \<open>AList.update\<close>
  overwrites a present key in place and appends a new one, and \<open>AList.delete\<close> is
  \<open>dict.pop(k, None)\<close>. \<open>InMemoryLogRepository._storage\<close> is a list that
  \<open>add\<close> appends to; \<open>list_for_habit\<close> filters it and sorts it with Python's
  stable \<open>sorted(..., key=date)\<close>, which is \<open>sort_key\<close> (a stable insertion sort).
  The well-formedness invariant \<open>habit_store_wf\<close>: keys are distinct and each
  habit is stored under its own id.
\<close>

subsection \<open>The code\<close>

type_synonym habit_store = "(habit_id \<times> habit) list"
type_synonym log_store = "log_entry list"

definition habit_repo_add :: "habit \<Rightarrow> habit_store \<Rightarrow> habit_store" where
  "habit_repo_add habit storage = AList.update (h_id habit) habit storage"

definition habit_repo_get :: "habit_store \<Rightarrow> habit_id \<Rightarrow> habit option" where
  "habit_repo_get storage habit_id = map_of storage habit_id"

definition habit_repo_list :: "habit_store \<Rightarrow> habit list" where
  "habit_repo_list storage = map snd storage"

definition habit_repo_update :: "habit \<Rightarrow> habit_store \<Rightarrow> error + habit_store" where
  "habit_repo_update habit storage =
     (if h_id habit \<notin> fst ` set storage then Inl HabitKeyError
      else Inr (AList.update (h_id habit) habit storage))"

definition habit_repo_delete :: "habit_id \<Rightarrow> habit_store \<Rightarrow> habit_store" where
  "habit_repo_delete habit_id storage = AList.delete habit_id storage"

definition log_repo_add :: "log_entry \<Rightarrow> log_store \<Rightarrow> log_store" where
  "log_repo_add entry storage = storage @ [entry]"

definition list_for_habit ::
  "log_store \<Rightarrow> habit_id \<Rightarrow> date option \<Rightarrow> date option \<Rightarrow> log_entry list" where
  "list_for_habit storage habit_id start end_d =
     (let logs = filter (\<lambda>entry. l_habit_id entry = habit_id) storage;
          logs = (case start of None \<Rightarrow> logs
                  | Some s \<Rightarrow> filter (\<lambda>entry. s \<le> l_date entry) logs);
          logs = (case end_d of None \<Rightarrow> logs
                  | Some e \<Rightarrow> filter (\<lambda>entry. l_date entry \<le> e) logs)
      in sort_key l_date logs)"

definition log_repo_list_all :: "log_store \<Rightarrow> log_entry list" where
  "log_repo_list_all storage = storage"

declare habit_repo_add_def [store_simps] habit_repo_get_def [store_simps]
  habit_repo_list_def [store_simps] habit_repo_update_def [store_simps]
  habit_repo_delete_def [store_simps] log_repo_add_def [store_simps]

subsection \<open>Invariant\<close>

definition habit_store_wf :: "habit_store \<Rightarrow> bool" where
  "habit_store_wf storage \<longleftrightarrow>
     distinct (map fst storage) \<and> list_all (\<lambda>(k, h). h_id h = k) storage"

subsection \<open>Test fixtures\<close>

text \<open>A habit with a given id, parent and sub-habit list, as the service tests build them.\<close>

definition named_habit :: "habit_id \<Rightarrow> habit_id option \<Rightarrow> habit_id list \<Rightarrow> habit" where
  "named_habit i p subs = \<lparr>h_id = i, h_name = i, h_description = None, h_category = None,
     h_type = BOOLEAN, h_goal = None, h_created_at = 0, h_parent_id = p, h_subhabit_ids = subs\<rparr>"

subsection \<open>Lemmas\<close>

lemma habit_repo_get_add [simp]:
  "habit_repo_get (habit_repo_add h s) i = (if i = h_id h then Some h else habit_repo_get s i)"
  by (simp add: habit_repo_add_def habit_repo_get_def update_conv')

lemma habit_repo_get_delete [simp]:
  "habit_repo_get (habit_repo_delete i s) j = (if j = i then None else habit_repo_get s j)"
  by (simp add: habit_repo_delete_def habit_repo_get_def delete_conv')

lemma habit_repo_dom: "h_id' \<in> fst ` set s \<longleftrightarrow> habit_repo_get s h_id' \<noteq> None"
  by (simp add: habit_repo_get_def map_of_eq_None_iff)

lemma habit_repo_update_Inr:
  "habit_repo_update h s = Inr s' \<longleftrightarrow> habit_repo_get s (h_id h) \<noteq> None \<and> s' = habit_repo_add h s"
  by (auto simp: habit_repo_update_def habit_repo_add_def habit_repo_dom)

lemma habit_store_wf_add: "habit_store_wf s \<Longrightarrow> habit_store_wf (habit_repo_add h s)"
proof -
  have ids: "list_all (\<lambda>(k, h'). h_id h' = k) (AList.update (h_id h) h s)"
    if "list_all (\<lambda>(k, h'). h_id h' = k) s" for s
    using that by (induction s) auto
  show "habit_store_wf s \<Longrightarrow> habit_store_wf (habit_repo_add h s)"
    by (simp add: habit_store_wf_def habit_repo_add_def distinct_update ids)
qed

lemma habit_store_wf_delete: "habit_store_wf s \<Longrightarrow> habit_store_wf (habit_repo_delete i s)"
proof -
  assume wf: "habit_store_wf s"
  then have "distinct (map fst (AList.delete i s))"
    by (simp add: habit_store_wf_def distinct_delete)
  moreover have "list_all (\<lambda>(k, h). h_id h = k) (AList.delete i s)"
    using wf by (auto simp: habit_store_wf_def AList.delete_eq list_all_iff)
  ultimately show ?thesis
    by (simp add: habit_store_wf_def habit_repo_delete_def)
qed

lemma habit_store_wf_get:
  "habit_store_wf st \<Longrightarrow> habit_repo_get st k = Some h \<Longrightarrow> h_id h = k"
  by (auto simp: habit_store_wf_def habit_repo_get_def list_all_iff dest: map_of_SomeD)

lemma list_for_habit_eq:
  "list_for_habit storage hid start end_d =
     sort_key l_date (filter (\<lambda>e. l_habit_id e = hid \<and> in_window start end_d (l_date e)) storage)"
  by (auto simp: list_for_habit_def in_window_def Let_def split: option.splits intro!: arg_cong [where f = "sort_key l_date"])

lemma map_snd_update_wf:
  assumes "distinct (map fst s)" "list_all (\<lambda>(k, h'). h_id h' = k) s"
  shows "map snd (AList.update (h_id h) h s) =
    (if map_of s (h_id h) = None then map snd s @ [h]
     else map (\<lambda>h'. if h_id h' = h_id h then h else h') (map snd s))"
  using assms
proof (induction s)
  case Nil
  then show ?case by simp
next
  case (Cons p s)
  obtain k v where p: "p = (k, v)" by (cases p)
  with Cons.prems have kv: "h_id v = k" and notin: "k \<notin> fst ` set s" by auto
  have rest: "map (\<lambda>h'. if h_id h' = k then h else h') (map snd s) = map snd s"
  proof (rule map_idI)
    fix x assume "x \<in> set (map snd s)"
    then obtain k2 where in2: "(k2, x) \<in> set s" by auto
    with Cons.prems p have "h_id x = k2" by (auto simp: list_all_iff)
    moreover from in2 notin have "k2 \<noteq> k" by force
    ultimately show "(if h_id x = k then h else x) = x" by simp
  qed
  show ?case
  proof (cases "k = h_id h")
    case True
    with p kv rest show ?thesis by simp
  next
    case False
    with Cons.IH Cons.prems p kv show ?thesis by auto
  qed
qed

subsection \<open>Properties of the repositories\<close>

text \<open>
  C10. \<open>list_for_habit\<close> returns exactly the stored entries of the habit whose date lies
  in the window, sorted by date; entries of the same date keep their insertion order
  (Python's \<open>sorted\<close> is stable).
\<close>

theorem list_for_habit_spec:
  "sorted (map l_date (list_for_habit storage hid start end_d)) \<and>
   mset (list_for_habit storage hid start end_d) =
     mset (filter (\<lambda>e. l_habit_id e = hid \<and> in_window start end_d (l_date e)) storage) \<and>
   filter (\<lambda>e. l_date e = d) (list_for_habit storage hid start end_d) =
     filter (\<lambda>e. l_date e = d \<and> l_habit_id e = hid \<and> in_window start end_d (l_date e)) storage"
  by (simp add: list_for_habit_eq sort_key_stable filter_filter conj_commute conj_left_commute)

text \<open>
  On a well-formed store, \<open>add\<close> of a habit whose id is new appends it at the end of
  \<open>list()\<close>, and \<open>add\<close> of a present id replaces that habit in place (dict
  insertion order).
\<close>

lemma habit_repo_list_add:
  assumes "habit_store_wf s"
  shows "habit_repo_list (habit_repo_add h s) =
    (if habit_repo_get s (h_id h) = None then habit_repo_list s @ [h]
     else map (\<lambda>h'. if h_id h' = h_id h then h else h') (habit_repo_list s))"
proof -
  from assms have d: "distinct (map fst s)" and l: "list_all (\<lambda>(k, h'). h_id h' = k) s"
    by (simp_all add: habit_store_wf_def)
  show ?thesis
    using map_snd_update_wf [OF d l]
    unfolding habit_repo_list_def habit_repo_add_def habit_repo_get_def .
qed


text \<open>
  The repository's \<open>update\<close> raises \<open>KeyError\<close> exactly when the habit's id is
  not stored.
\<close>

lemma habit_repo_update_missing:
  "habit_repo_update h s = Inl e \<longleftrightarrow> habit_repo_get s (h_id h) = None \<and> e = HabitKeyError"
  by (auto simp: habit_repo_update_def habit_repo_dom)

text \<open>
  C11. Every writing operation of the habit repository keeps the store well formed:
  distinct keys, each habit stored under its own id.
\<close>

theorem habit_store_wf_preserved:
  assumes "habit_store_wf s"
  shows "habit_store_wf (habit_repo_add h s) \<and> habit_store_wf (habit_repo_delete i s) \<and>
    (\<forall>s'. habit_repo_update h s = Inr s' \<longrightarrow> habit_store_wf s')"
  using assms by (auto simp: habit_store_wf_add habit_store_wf_delete habit_repo_update_Inr)

subsection \<open>Witnesses\<close>

lemma habit_repo_list_add_witness:
  "habit_store_wf [(''a'', named_habit ''a'' None [])] \<and>
   habit_repo_list (habit_repo_add (named_habit ''b'' None []) [(''a'', named_habit ''a'' None [])]) =
     [named_habit ''a'' None [], named_habit ''b'' None []]"
proof -
  have wf: "habit_store_wf [(''a'', named_habit ''a'' None [])]"
    by (simp add: habit_store_wf_def named_habit_def)
  show ?thesis
    using habit_repo_list_add [OF wf, of "named_habit ''b'' None []"] wf
    by (simp add: habit_repo_list_def habit_repo_get_def named_habit_def)
qed

theorem habit_store_wf_preserved_witness:
  "habit_store_wf [(''a'', named_habit ''a'' None [])] \<and>
   habit_store_wf (habit_repo_add (named_habit ''b'' None []) [(''a'', named_habit ''a'' None [])])"
proof -
  have wf: "habit_store_wf [(''a'', named_habit ''a'' None [])]"
    by (simp add: habit_store_wf_def named_habit_def)
  show ?thesis
    using habit_store_wf_preserved [OF wf, of "named_habit ''b'' None []"] wf by simp
qed

end
