(* ===== verification/Services.thy ===== *)
theory Services
  imports Repository
begin

text \<open>
  \<open>HabitService\<close> of \<open>src/app/core/services.py\<close> over the in-memory repositories.
  The dataclass's two fields \<open>habit_repo\<close> and \<open>log_repo\<close> are the record \<open>service\<close>; every method that writes
  returns the new state together with its outcome, \<open>(error + 'a) \<times> service\<close>, so
  that an exception raised after some writes keeps them, as in Python. Fresh UUIDs and
  the clock are inputs. The recursive \<open>delete_habit\<close> has no termination argument in
  the code (a cycle of sub-habit ids makes it recurse forever), so it takes a fuel
  argument, one unit per level of recursion, and running out is \<open>None\<close>;
  \<open>delete_subhabits\<close> is its \<open>for\<close> loop over \<open>habit.subhabit_ids\<close>.
  \<open>get_statistics\<close> takes the factory's registry and \<open>date.today()\<close> as inputs.
  Aliasing: the in-memory repository hands out the stored object itself and the
  methods mutate it before writing it back; the functional model writes the mutated
  copy, which gives the same store (except on the \<open>KeyError\<close> branch of
  \<open>update_habit\<close>, unreachable on a well-formed store, where Python keeps the mutation
  and the model returns the state unchanged).
\<close>

subsection \<open>The code\<close>

record service =
  habit_repository :: habit_store
  log_repository :: log_store

definition create_habit :: "habit \<Rightarrow> service \<Rightarrow> service" where
  "create_habit habit s = s\<lparr>habit_repository := habit_repo_add habit (habit_repository s)\<rparr>"

definition get_habit :: "service \<Rightarrow> habit_id \<Rightarrow> habit option" where
  "get_habit s habit_id = habit_repo_get (habit_repository s) habit_id"

definition list_habits :: "service \<Rightarrow> habit list" where
  "list_habits s = habit_repo_list (habit_repository s)"

definition apply_update :: "habit_update \<Rightarrow> habit \<Rightarrow> habit" where
  "apply_update update habit =
     (let habit = (case u_name update of None \<Rightarrow> habit | Some n \<Rightarrow> habit\<lparr>h_name := n\<rparr>);
          habit = (case u_description update of None \<Rightarrow> habit
                   | Some d \<Rightarrow> habit\<lparr>h_description := Some d\<rparr>);
          habit = (case u_category update of None \<Rightarrow> habit
                   | Some c \<Rightarrow> habit\<lparr>h_category := Some c\<rparr>);
          habit = (case u_goal update of None \<Rightarrow> habit | Some g \<Rightarrow> habit\<lparr>h_goal := Some g\<rparr>)
      in habit)"

definition update_habit ::
  "habit_id \<Rightarrow> habit_update \<Rightarrow> service \<Rightarrow> (error + habit) \<times> service" where
  "update_habit habit_id update s =
     (case habit_repo_get (habit_repository s) habit_id of
        None \<Rightarrow> (Inl HabitNotFound, s)
      | Some habit \<Rightarrow>
          (let habit' = apply_update update habit in
           case habit_repo_update habit' (habit_repository s) of
             Inl e \<Rightarrow> (Inl e, s)
           | Inr st \<Rightarrow> (Inr habit', s\<lparr>habit_repository := st\<rparr>)))"

fun delete_habit :: "nat \<Rightarrow> habit_id \<Rightarrow> service \<Rightarrow> ((error + unit) \<times> service) option"
and delete_subhabits :: "nat \<Rightarrow> habit_id list \<Rightarrow> service \<Rightarrow> ((error + unit) \<times> service) option"
where
  "delete_habit 0 habit_id s = None"
| "delete_habit (Suc n) habit_id s =
     (case habit_repo_get (habit_repository s) habit_id of
        None \<Rightarrow> Some (Inl HabitNotFound, s)
      | Some habit \<Rightarrow>
          (case delete_subhabits n (h_subhabit_ids habit) s of
             None \<Rightarrow> None
           | Some (Inl e, s') \<Rightarrow> Some (Inl e, s')
           | Some (Inr (), s') \<Rightarrow>
               Some (Inr (), s'\<lparr>habit_repository := habit_repo_delete habit_id (habit_repository s')\<rparr>)))"
| "delete_subhabits n [] s = Some (Inr (), s)"
| "delete_subhabits n (subhabit_id # rest) s =
     (case delete_habit n subhabit_id s of
        None \<Rightarrow> None
      | Some (Inl e, s') \<Rightarrow> Some (Inl e, s')
      | Some (Inr (), s') \<Rightarrow> delete_subhabits n rest s')"

definition add_subhabit :: "habit_id \<Rightarrow> habit \<Rightarrow> service \<Rightarrow> (error + unit) \<times> service" where
  "add_subhabit parent_id subhabit s =
     (case habit_repo_get (habit_repository s) parent_id of
        None \<Rightarrow> (Inl ParentHabitNotFound, s)
      | Some parent \<Rightarrow>
          (let subhabit' = subhabit\<lparr>h_parent_id := Some parent_id\<rparr>;
               parent' = parent\<lparr>h_subhabit_ids := h_subhabit_ids parent @ [h_id subhabit]\<rparr>;
               s1 = s\<lparr>habit_repository := habit_repo_add subhabit' (habit_repository s)\<rparr>
           in case habit_repo_update parent' (habit_repository s1) of
                Inl e \<Rightarrow> (Inl e, s1)
              | Inr st \<Rightarrow> (Inr (), s1\<lparr>habit_repository := st\<rparr>)))"

definition record_log ::
  "log_id \<Rightarrow> timestamp \<Rightarrow> habit_id \<Rightarrow> date \<Rightarrow> real option \<Rightarrow> service
   \<Rightarrow> (error + log_entry) \<times> service" where
  "record_log fresh_id now habit_id log_date value s =
     (case habit_repo_get (habit_repository s) habit_id of
        None \<Rightarrow> (Inl HabitNotFound, s)
      | Some _ \<Rightarrow>
          (let entry = log_entry_create fresh_id now habit_id log_date value
           in (Inr entry, s\<lparr>log_repository := log_repo_add entry (log_repository s)\<rparr>)))"

definition get_logs ::
  "service \<Rightarrow> habit_id \<Rightarrow> date option \<Rightarrow> date option \<Rightarrow> error + log_entry list" where
  "get_logs s habit_id start end_d =
     (case habit_repo_get (habit_repository s) habit_id of
        None \<Rightarrow> Inl HabitNotFound
      | Some _ \<Rightarrow> Inr (list_for_habit (log_repository s) habit_id start end_d))"

definition get_statistics ::
  "calculator_registry \<Rightarrow> date \<Rightarrow> service \<Rightarrow> habit_id \<Rightarrow> date option \<Rightarrow> date option
   \<Rightarrow> error + habit_id \<times> statistics_result" where
  "get_statistics calculators today s habit_id start end_d =
     (case habit_repo_get (habit_repository s) habit_id of
        None \<Rightarrow> Inl HabitNotFound
      | Some habit \<Rightarrow>
          (let logs = list_for_habit (log_repository s) habit_id start end_d in
           case get_calculator calculators (h_type habit) of
             Inl e \<Rightarrow> Inl e
           | Inr calculator \<Rightarrow>
               (case calculate calculator today habit logs start end_d of
                  Inl e \<Rightarrow> Inl e
                | Inr result \<Rightarrow> Inr (habit_id, result))))"

declare create_habit_def [store_simps] get_habit_def [store_simps] update_habit_def [store_simps]
  add_subhabit_def [store_simps] record_log_def [store_simps] get_logs_def [store_simps]
  get_statistics_def [store_simps]


subsection \<open>Reachability, fuel and closure\<close>

text \<open>
  \<open>delete_depth_ok n st i\<close> holds when every chain of sub-habit ids below \<open>i\<close>
  ends (at an id that is absent or has no sub-habits) within \<open>n\<close> levels: the fuel
  \<open>delete_habit\<close> needs. \<open>subhabit_of st c p\<close> is the edge relation of the
  store's sub-habit graph, and \<open>deleted_closed st st'\<close> says that every habit of
  \<open>st\<close> missing from \<open>st'\<close> has all its sub-habits missing too.
\<close>

fun delete_depth_ok :: "nat \<Rightarrow> habit_store \<Rightarrow> habit_id \<Rightarrow> bool" where
  "delete_depth_ok 0 st i = False"
| "delete_depth_ok (Suc n) st i =
     (case habit_repo_get st i of
        None \<Rightarrow> True
      | Some h \<Rightarrow> list_all (delete_depth_ok n st) (h_subhabit_ids h))"

definition subhabit_of :: "habit_store \<Rightarrow> habit_id \<Rightarrow> habit_id \<Rightarrow> bool" where
  "subhabit_of st c p =
     (case habit_repo_get st p of None \<Rightarrow> False | Some h \<Rightarrow> c \<in> set (h_subhabit_ids h))"

definition deleted_closed :: "habit_store \<Rightarrow> habit_store \<Rightarrow> bool" where
  "deleted_closed st st' \<longleftrightarrow>
     (\<forall>k h. habit_repo_get st k = Some h \<longrightarrow> habit_repo_get st' k = None \<longrightarrow>
        list_all (\<lambda>c. habit_repo_get st' c = None) (h_subhabit_ids h))"

text \<open>Spec scenario E: a parent with one sub-habit.\<close>

definition scenario_e_service :: service where
  "scenario_e_service =
     \<lparr>habit_repository = [(''p'', named_habit ''p'' None [''c'']), (''c'', named_habit ''c'' (Some ''p'') [])],
      log_repository = []\<rparr>"

text \<open>
  \<open>links_ok\<close> is the parent/child linkage invariant of the spec's data model, checked
  over the keys of the store.
\<close>

definition links_ok :: "habit_store \<Rightarrow> bool" where
  "links_ok st \<longleftrightarrow>
     list_all (\<lambda>p. case habit_repo_get st p of None \<Rightarrow> True | Some h \<Rightarrow>
        list_all (\<lambda>c. case habit_repo_get st c of None \<Rightarrow> False
                          | Some hc \<Rightarrow> h_parent_id hc = Some p) (h_subhabit_ids h) \<and>
        (case h_parent_id h of None \<Rightarrow> True
         | Some q \<Rightarrow> (case habit_repo_get st q of None \<Rightarrow> False
                       | Some hq \<Rightarrow> p \<in> set (h_subhabit_ids hq)))) (map fst st)"

text \<open>Fixtures: the empty service and an update that renames.\<close>

definition empty_service :: service where
  "empty_service = \<lparr>habit_repository = [], log_repository = []\<rparr>"

definition rename_update :: "string \<Rightarrow> habit_update" where
  "rename_update n = \<lparr>u_name = Some n, u_description = None, u_category = None, u_goal = None\<rparr>"

subsection \<open>Lemmas on the recursive delete\<close>

lemma delete_fuel_Suc:
  shows "delete_habit n i s = Some r \<Longrightarrow> delete_habit (Suc n) i s = Some r"
    and "delete_subhabits n cs s = Some r \<Longrightarrow> delete_subhabits (Suc n) cs s = Some r"
proof (induction n i s and n cs s arbitrary: r and r rule: delete_habit_delete_subhabits.induct)
  case (1 habit_id s)
  then show ?case by simp
next
  case (2 n habit_id s)
  show ?case
  proof (cases "habit_repo_get (habit_repository s) habit_id")
    case None
    with "2.prems" show ?thesis by simp
  next
    case (Some h)
    obtain r0 where r0: "delete_subhabits n (h_subhabit_ids h) s = Some r0"
      using "2.prems" Some by (cases "delete_subhabits n (h_subhabit_ids h) s") simp_all
    have "delete_subhabits (Suc n) (h_subhabit_ids h) s = Some r0"
      by (rule "2.IH" [OF Some r0])
    with Some r0 "2.prems" show ?thesis
      by (simp del: delete_subhabits.simps)
  qed
next
  case (3 n s)
  then show ?case by simp
next
  case (4 n subhabit_id rest s)
  obtain r0 where r0: "delete_habit n subhabit_id s = Some r0"
    using "4.prems" by (cases "delete_habit n subhabit_id s") simp_all
  have r0': "delete_habit (Suc n) subhabit_id s = Some r0"
    by (rule "4.IH"(1) [OF r0])
  obtain x s' where xs: "r0 = (x, s')" by (cases r0)
  show ?case
  proof (cases x)
    case (Inl e)
    with "4.prems" r0 xs have "r = (Inl e, s')" by (simp del: delete_habit.simps)
    with r0' xs Inl show ?thesis by (simp del: delete_habit.simps)
  next
    case (Inr u)
    then have u: "x = Inr ()" by simp
    with "4.prems" r0 xs have rest: "delete_subhabits n rest s' = Some r"
      by (simp del: delete_habit.simps)
    have "delete_subhabits (Suc n) rest s' = Some r"
      by (rule "4.IH"(2) [OF r0 [unfolded xs u] refl refl refl rest])
    with r0' xs u show ?thesis by (simp del: delete_habit.simps)
  qed
qed

lemma habit_repo_get_delete_le:
  "habit_repo_get (habit_repo_delete i st) \<subseteq>\<^sub>m habit_repo_get st"
  by (auto simp: map_le_def)

lemma delete_shrinks:
  shows "delete_habit n i s = Some (x, s') \<Longrightarrow>
           habit_repo_get (habit_repository s') \<subseteq>\<^sub>m habit_repo_get (habit_repository s) \<and>
           log_repository s' = log_repository s"
    and "delete_subhabits n cs s = Some (x, s') \<Longrightarrow>
           habit_repo_get (habit_repository s') \<subseteq>\<^sub>m habit_repo_get (habit_repository s) \<and>
           log_repository s' = log_repository s"
proof (induction n i s and n cs s arbitrary: x s' and x s' rule: delete_habit_delete_subhabits.induct)
  case (1 habit_id s)
  then show ?case by simp
next
  case (2 n habit_id s)
  show ?case
  proof (cases "habit_repo_get (habit_repository s) habit_id")
    case None
    with "2.prems" show ?thesis by simp
  next
    case (Some h)
    obtain r1 where r1: "delete_subhabits n (h_subhabit_ids h) s = Some r1"
      using "2.prems" Some by (cases "delete_subhabits n (h_subhabit_ids h) s") simp_all
    obtain x0 s0 where r0: "delete_subhabits n (h_subhabit_ids h) s = Some (x0, s0)"
      using r1 by (cases r1) simp
    have le: "habit_repo_get (habit_repository s0) \<subseteq>\<^sub>m habit_repo_get (habit_repository s) \<and>
        log_repository s0 = log_repository s"
      by (rule "2.IH" [OF Some r0])
    show ?thesis
    proof (cases x0)
      case (Inl e)
      with Some r0 "2.prems" le show ?thesis by (simp del: delete_subhabits.simps)
    next
      case (Inr u)
      with Some r0 "2.prems" have s': "s' = s0\<lparr>habit_repository := habit_repo_delete habit_id (habit_repository s0)\<rparr>"
        by (simp del: delete_subhabits.simps)
      have "habit_repo_get (habit_repository s') \<subseteq>\<^sub>m habit_repo_get (habit_repository s0)"
        using habit_repo_get_delete_le s' by simp
      then have "habit_repo_get (habit_repository s') \<subseteq>\<^sub>m habit_repo_get (habit_repository s)"
        using map_le_trans conjunct1 [OF le] by blast
      moreover have "log_repository s' = log_repository s" using le s' by simp
      ultimately show ?thesis by blast
    qed
  qed
next
  case (3 n s)
  then show ?case by simp
next
  case (4 n subhabit_id rest s)
  obtain r1 where r1: "delete_habit n subhabit_id s = Some r1"
    using "4.prems" by (cases "delete_habit n subhabit_id s") simp_all
  obtain x0 s0 where r0: "delete_habit n subhabit_id s = Some (x0, s0)"
    using r1 by (cases r1) simp
  have le0: "habit_repo_get (habit_repository s0) \<subseteq>\<^sub>m habit_repo_get (habit_repository s) \<and>
      log_repository s0 = log_repository s"
    by (rule "4.IH"(1) [OF r0])
  show ?case
  proof (cases x0)
    case (Inl e)
    with "4.prems" r0 le0 show ?thesis by (simp del: delete_habit.simps)
  next
    case (Inr u)
    then have u: "x0 = Inr ()" by simp
    with "4.prems" r0 have rest: "delete_subhabits n rest s0 = Some (x, s')"
      by (simp del: delete_habit.simps)
    have le1: "habit_repo_get (habit_repository s') \<subseteq>\<^sub>m habit_repo_get (habit_repository s0) \<and>
        log_repository s' = log_repository s0"
      by (rule "4.IH"(2) [OF r0 [unfolded u] refl refl refl rest])
    have "habit_repo_get (habit_repository s') \<subseteq>\<^sub>m habit_repo_get (habit_repository s)"
      using map_le_trans [OF conjunct1 [OF le1] conjunct1 [OF le0]] .
    with le0 le1 show ?thesis by simp
  qed
qed

lemma delete_depth_ok_mono:
  "habit_repo_get st' \<subseteq>\<^sub>m habit_repo_get st \<Longrightarrow> delete_depth_ok n st i \<Longrightarrow> delete_depth_ok n st' i"
proof (induction n arbitrary: i)
  case 0
  then show ?case by simp
next
  case (Suc n)
  show ?case
  proof (cases "habit_repo_get st' i")
    case None
    then show ?thesis by simp
  next
    case (Some h)
    with Suc.prems(1) have "habit_repo_get st i = Some h"
      by (auto simp: map_le_def dom_def)
    with Suc.prems(2) Some show ?thesis
      by (auto simp: list_all_iff intro: Suc.IH [OF Suc.prems(1)])
  qed
qed

lemma delete_returns_depth:
  shows "delete_depth_ok n (habit_repository s) i \<Longrightarrow> \<exists>r. delete_habit n i s = Some r"
    and "list_all (delete_depth_ok n (habit_repository s)) cs \<Longrightarrow> \<exists>r. delete_subhabits n cs s = Some r"
proof (induction n i s and n cs s rule: delete_habit_delete_subhabits.induct)
  case (1 habit_id s)
  then show ?case by simp
next
  case (2 n habit_id s)
  show ?case
  proof (cases "habit_repo_get (habit_repository s) habit_id")
    case None
    then show ?thesis by simp
  next
    case (Some h)
    with "2.prems" have "list_all (delete_depth_ok n (habit_repository s)) (h_subhabit_ids h)"
      by simp
    with "2.IH" Some obtain r where "delete_subhabits n (h_subhabit_ids h) s = Some r"
      by blast
    with Some show ?thesis
      by (cases r) (auto split: sum.splits)
  qed
next
  case (3 n s)
  then show ?case by simp
next
  case (4 n subhabit_id rest s)
  from "4.prems" have "delete_depth_ok n (habit_repository s) subhabit_id" by simp
  with "4.IH"(1) obtain r where r: "delete_habit n subhabit_id s = Some r" by blast
  obtain x s' where xs: "r = (x, s')" by (cases r)
  show ?case
  proof (cases x)
    case (Inl e)
    with r xs show ?thesis by simp
  next
    case (Inr u)
    then have u: "x = Inr ()" by simp
    from r xs have "habit_repo_get (habit_repository s') \<subseteq>\<^sub>m habit_repo_get (habit_repository s)"
      using delete_shrinks(1) by blast
    with "4.prems" have "list_all (delete_depth_ok n (habit_repository s')) rest"
      by (auto simp: list_all_iff intro: delete_depth_ok_mono)
    with "4.IH"(2) [OF r [unfolded xs u]] obtain r' where "delete_subhabits n rest s' = Some r'"
      by blast
    with r xs u show ?thesis by simp
  qed
qed

lemma delete_preserves:
  assumes del: "\<And>st k. P st \<Longrightarrow> P (habit_repo_delete k st)"
  shows "delete_habit n i s = Some (r, s') \<Longrightarrow> P (habit_repository s) \<Longrightarrow> P (habit_repository s')"
    and "delete_subhabits n cs s = Some (r, s') \<Longrightarrow> P (habit_repository s) \<Longrightarrow> P (habit_repository s')"
proof (induction n i s and n cs s arbitrary: r s' and r s' rule: delete_habit_delete_subhabits.induct)
  case (1 habit_id s)
  then show ?case by simp
next
  case (2 n habit_id s)
  show ?case
  proof (cases "habit_repo_get (habit_repository s) habit_id")
    case None
    with "2.prems" show ?thesis by simp
  next
    case (Some h)
    obtain x0 s2 where r2: "delete_subhabits n (h_subhabit_ids h) s = Some (x0, s2)"
      using "2.prems"(1) Some by (cases "delete_subhabits n (h_subhabit_ids h) s") auto
    have p2: "P (habit_repository s2)"
      by (rule "2.IH" [OF Some r2 "2.prems"(2)])
    show ?thesis
    proof (cases x0)
      case (Inl e)
      with "2.prems"(1) Some r2 have "s' = s2" by (simp del: delete_subhabits.simps)
      with p2 show ?thesis by simp
    next
      case (Inr u)
      with "2.prems"(1) Some r2 have "s' = s2\<lparr>habit_repository := habit_repo_delete habit_id (habit_repository s2)\<rparr>"
        by (simp del: delete_subhabits.simps)
      with p2 del show ?thesis by simp
    qed
  qed
next
  case (3 n s)
  then show ?case by simp
next
  case (4 n subhabit_id rest s)
  obtain x0 s1 where r0: "delete_habit n subhabit_id s = Some (x0, s1)"
    using "4.prems"(1) by (cases "delete_habit n subhabit_id s") auto
  have p1: "P (habit_repository s1)"
    by (rule "4.IH"(1) [OF r0 "4.prems"(2)])
  show ?case
  proof (cases x0)
    case (Inl e)
    with "4.prems"(1) r0 have "s' = s1" by (simp del: delete_habit.simps)
    with p1 show ?thesis by simp
  next
    case (Inr u)
    then have u: "x0 = Inr ()" by simp
    with "4.prems"(1) r0 have rest: "delete_subhabits n rest s1 = Some (r, s')"
      by (simp del: delete_habit.simps)
    show ?thesis
      by (rule "4.IH"(2) [OF r0 [unfolded u] refl refl refl rest p1])
  qed
qed

text \<open>
  What a delete leaves behind: an id absent before stays absent, a stored habit is either
  removed or kept unchanged, and a successful delete removes the habit it was called on.
  A sub-habit id that names no stored habit makes every delete of its parent fail.
\<close>

lemma delete_keeps_absent:
  "delete_habit n i s = Some (r, s') \<Longrightarrow> habit_repo_get (habit_repository s) c = None \<Longrightarrow>
     habit_repo_get (habit_repository s') c = None"
  "delete_subhabits n cs s = Some (r, s') \<Longrightarrow> habit_repo_get (habit_repository s) c = None \<Longrightarrow>
     habit_repo_get (habit_repository s') c = None"
  by (rule delete_preserves [where P = "\<lambda>st. habit_repo_get st c = None"], simp_all)+

lemma delete_keeps_stored:
  "delete_habit n i s = Some (r, s') \<Longrightarrow> habit_repo_get (habit_repository s) k = Some h \<Longrightarrow>
     habit_repo_get (habit_repository s') k \<in> {None, Some h}"
  by (rule delete_preserves(1) [where P = "\<lambda>st. habit_repo_get st k \<in> {None, Some h}"]) auto

lemma delete_habit_success_absent:
  "delete_habit n i s = Some (Inr (), s') \<Longrightarrow> habit_repo_get (habit_repository s') i = None"
  by (cases n) (auto split: option.splits sum.splits prod.splits)

lemma delete_subhabits_dangling:
  "c \<in> set cs \<Longrightarrow> habit_repo_get (habit_repository s) c = None \<Longrightarrow>
     delete_subhabits n cs s \<noteq> Some (Inr (), s'')"
proof (induction cs arbitrary: s)
  case Nil
  then show ?case by simp
next
  case (Cons x rest)
  show ?case
  proof (cases "x = c")
    case True
    with Cons.prems show ?thesis by (cases n) auto
  next
    case False
    with Cons.prems have c: "c \<in> set rest" by simp
    show ?thesis
    proof (cases "delete_habit n x s")
      case None
      then show ?thesis by simp
    next
      case (Some p)
      obtain r1 s1 where p: "p = (r1, s1)" by (cases p)
      show ?thesis
      proof (cases r1)
        case (Inl e)
        with Some p show ?thesis by simp
      next
        case (Inr u)
        have "habit_repo_get (habit_repository s1) c = None"
          using delete_keeps_absent(1) [of n x s r1 s1 c] Some p Cons.prems(2) by simp
        from Cons.IH [OF c this] Some p Inr show ?thesis by simp
      qed
    qed
  qed
qed

lemma delete_habit_dangling:
  assumes "habit_repo_get (habit_repository s) p = Some hp" and "c \<in> set (h_subhabit_ids hp)"
    and "habit_repo_get (habit_repository s) c = None"
  shows "delete_habit m p s \<noteq> Some (Inr (), s'')"
proof (cases m)
  case 0
  then show ?thesis by simp
next
  case (Suc n)
  have "delete_subhabits n (h_subhabit_ids hp) s \<noteq> Some (Inr (), t)" for t
    using delete_subhabits_dangling [OF assms(2,3)] .
  with assms(1) Suc show ?thesis
    by (auto split: option.splits sum.splits prod.splits)
qed


lemma delete_depth_ok_Suc: "delete_depth_ok n st i \<Longrightarrow> delete_depth_ok (Suc n) st i"
proof (induction n arbitrary: i)
  case 0
  then show ?case by simp
next
  case (Suc n)
  show ?case
  proof (cases "habit_repo_get st i")
    case None
    then show ?thesis by simp
  next
    case (Some h)
    with Suc.prems have "list_all (delete_depth_ok n st) (h_subhabit_ids h)" by simp
    then have "list_all (delete_depth_ok (Suc n) st) (h_subhabit_ids h)"
      by (auto simp only: list_all_iff intro: Suc.IH)
    with Some show ?thesis by (simp only: delete_depth_ok.simps(2) option.case)
  qed
qed

lemma delete_depth_ok_le:
  assumes "delete_depth_ok n st i" and "n \<le> m"
  shows "delete_depth_ok m st i"
  using assms(2) by (induction rule: dec_induct) (rule assms(1), erule delete_depth_ok_Suc)

lemma delete_depth_ok_list:
  "\<forall>c \<in> set cs. \<exists>n. delete_depth_ok n st c \<Longrightarrow> \<exists>n. list_all (delete_depth_ok n st) cs"
proof (induction cs)
  case Nil
  then show ?case by simp
next
  case (Cons c cs)
  then obtain n1 n2 where n1: "delete_depth_ok n1 st c" and n2: "list_all (delete_depth_ok n2 st) cs"
    by auto
  have "delete_depth_ok (max n1 n2) st c"
    using delete_depth_ok_le [OF n1] by simp
  moreover have "list_all (delete_depth_ok (max n1 n2) st) cs"
    using n2 delete_depth_ok_le by (auto simp: list_all_iff)
  ultimately show ?case by auto
qed

lemma delete_depth_ok_wf:
  assumes "wfp (subhabit_of st)"
  shows "\<exists>n. delete_depth_ok n st i"
  using assms
proof (induction i rule: wfp_induct_rule)
  case (less i)
  show ?case
  proof (cases "habit_repo_get st i")
    case None
    then have "delete_depth_ok 1 st i" by simp
    then show ?thesis ..
  next
    case (Some h)
    then have "\<forall>c \<in> set (h_subhabit_ids h). \<exists>n. delete_depth_ok n st c"
      using less by (simp add: subhabit_of_def)
    then obtain n where "list_all (delete_depth_ok n st) (h_subhabit_ids h)"
      using delete_depth_ok_list by blast
    with Some have "delete_depth_ok (Suc n) st i" by simp
    then show ?thesis ..
  qed
qed

lemma deleted_closed_refl: "deleted_closed st st"
  by (simp add: deleted_closed_def)

lemma delete_closed:
  shows "delete_habit n i s = Some (Inr (), s') \<Longrightarrow>
           habit_repo_get (habit_repository s) \<subseteq>\<^sub>m habit_repo_get st0 \<Longrightarrow>
           deleted_closed st0 (habit_repository s) \<Longrightarrow>
           deleted_closed st0 (habit_repository s') \<and> habit_repo_get (habit_repository s') i = None"
    and "delete_subhabits n cs s = Some (Inr (), s') \<Longrightarrow>
           habit_repo_get (habit_repository s) \<subseteq>\<^sub>m habit_repo_get st0 \<Longrightarrow>
           deleted_closed st0 (habit_repository s) \<Longrightarrow>
           deleted_closed st0 (habit_repository s') \<and>
           list_all (\<lambda>c. habit_repo_get (habit_repository s') c = None) cs"
proof (induction n i s and n cs s arbitrary: s' and s' rule: delete_habit_delete_subhabits.induct)
  case (1 habit_id s)
  then show ?case by simp
next
  case (2 n habit_id s)
  obtain h where h: "habit_repo_get (habit_repository s) habit_id = Some h"
    using "2.prems"(1) by (cases "habit_repo_get (habit_repository s) habit_id") simp_all
  obtain r1 where r1: "delete_subhabits n (h_subhabit_ids h) s = Some r1"
    using "2.prems"(1) h by (cases "delete_subhabits n (h_subhabit_ids h) s") simp_all
  obtain x0 s2 where r2: "delete_subhabits n (h_subhabit_ids h) s = Some (x0, s2)"
    using r1 by (cases r1) simp
  have x0: "x0 = Inr ()"
    using "2.prems"(1) h r2 by (cases x0) (simp_all del: delete_subhabits.simps)
  have s': "s' = s2\<lparr>habit_repository := habit_repo_delete habit_id (habit_repository s2)\<rparr>"
    using "2.prems"(1) h r2 x0 by (simp del: delete_subhabits.simps)
  have IH: "deleted_closed st0 (habit_repository s2) \<and>
      list_all (\<lambda>c. habit_repo_get (habit_repository s2) c = None) (h_subhabit_ids h)"
    by (rule "2.IH" [OF h r2 [unfolded x0] "2.prems"(2,3)])
  have h0: "habit_repo_get st0 habit_id = Some h"
    using map_le_Some [OF "2.prems"(2) h] .
  have "deleted_closed st0 (habit_repository s')"
    unfolding deleted_closed_def
  proof (intro allI impI)
    fix k hk
    assume k0: "habit_repo_get st0 k = Some hk" and ks: "habit_repo_get (habit_repository s') k = None"
    show "list_all (\<lambda>c. habit_repo_get (habit_repository s') c = None) (h_subhabit_ids hk)"
    proof (cases "k = habit_id")
      case True
      with k0 h0 IH s' show ?thesis by (auto simp: list_all_iff)
    next
      case False
      with ks s' have "habit_repo_get (habit_repository s2) k = None" by simp
      with IH k0 have "list_all (\<lambda>c. habit_repo_get (habit_repository s2) c = None) (h_subhabit_ids hk)"
        by (simp add: deleted_closed_def)
      with s' show ?thesis by (auto simp: list_all_iff)
    qed
  qed
  with s' show ?case by simp
next
  case (3 n s)
  then show ?case by simp
next
  case (4 n subhabit_id rest s)
  obtain r1 where r1: "delete_habit n subhabit_id s = Some r1"
    using "4.prems"(1) by (cases "delete_habit n subhabit_id s") simp_all
  obtain x0 s1 where r0: "delete_habit n subhabit_id s = Some (x0, s1)"
    using r1 by (cases r1) simp
  have x0: "x0 = Inr ()"
    using "4.prems"(1) r0 by (cases x0) (simp_all del: delete_habit.simps)
  have rest: "delete_subhabits n rest s1 = Some (Inr (), s')"
    using "4.prems"(1) r0 x0 by (simp del: delete_habit.simps)
  have IH1: "deleted_closed st0 (habit_repository s1) \<and> habit_repo_get (habit_repository s1) subhabit_id = None"
    by (rule "4.IH"(1) [OF r0 [unfolded x0] "4.prems"(2,3)])
  have le1: "habit_repo_get (habit_repository s1) \<subseteq>\<^sub>m habit_repo_get (habit_repository s)"
    using delete_shrinks(1) [OF r0] by blast
  have le10: "habit_repo_get (habit_repository s1) \<subseteq>\<^sub>m habit_repo_get st0"
    using map_le_trans [OF le1 "4.prems"(2)] .
  have IH2: "deleted_closed st0 (habit_repository s') \<and>
      list_all (\<lambda>c. habit_repo_get (habit_repository s') c = None) rest"
    by (rule "4.IH"(2) [OF r0 [unfolded x0] refl refl refl rest le10 conjunct1 [OF IH1]])
  have "habit_repo_get (habit_repository s') \<subseteq>\<^sub>m habit_repo_get (habit_repository s1)"
    using delete_shrinks(2) [OF rest] by blast
  then have "habit_repo_get (habit_repository s') subhabit_id = None"
    using conjunct2 [OF IH1] by (rule map_le_None)
  with IH2 show ?case by (simp only: list.pred_inject simp_thms)
qed

lemma self_cycle_diverges:
  assumes "habit_repo_get (habit_repository s) p = Some h" and "h_subhabit_ids h = [p]"
  shows "delete_habit n p s = None"
proof (induction n)
  case 0
  then show ?case by simp
next
  case (Suc n)
  with assms show ?case by simp
qed

subsection \<open>Lemmas on update, linkage and sub-habits\<close>

lemma apply_update_subhabits [simp]: "h_subhabit_ids (apply_update u h) = h_subhabit_ids h"
  by (simp add: apply_update_def Let_def split: option.splits)

lemma apply_update_id [simp]: "h_id (apply_update u h) = h_id h"
  by (simp add: apply_update_def Let_def split: option.splits)

lemma apply_update_kept [simp]:
  "h_type (apply_update u h) = h_type h" "h_created_at (apply_update u h) = h_created_at h"
  "h_parent_id (apply_update u h) = h_parent_id h"
  by (simp_all add: apply_update_def Let_def split: option.splits)

lemma update_habit_Some:
  assumes "habit_store_wf (habit_repository s)" and "get_habit s i = Some h"
  shows "update_habit i u s = (Inr (apply_update u h),
     s\<lparr>habit_repository := habit_repo_add (apply_update u h) (habit_repository s)\<rparr>)"
proof -
  have "h_id h = i"
    using habit_store_wf_get [OF assms(1)] assms(2) by (simp add: get_habit_def)
  moreover have "h_id (apply_update u h) = h_id h"
    by (simp add: apply_update_def Let_def split: option.splits)
  ultimately show ?thesis
    using assms(2) by (simp add: update_habit_def get_habit_def habit_repo_update_def habit_repo_add_def
        habit_repo_dom habit_repo_get_def Let_def)
qed

lemma list_all_store_keys:
  "list_all (\<lambda>p. case habit_repo_get st p of None \<Rightarrow> True | Some h \<Rightarrow> Q p h) (map fst st) \<longleftrightarrow>
     (\<forall>p h. habit_repo_get st p = Some h \<longrightarrow> Q p h)"
proof -
  have keys: "p \<in> set (map fst st) \<longleftrightarrow> habit_repo_get st p \<noteq> None" for p
    using habit_repo_dom [of p st] by simp
  show ?thesis
    unfolding list_all_iff
  proof safe
    fix p h
    assume all: "\<forall>x\<in>set (map fst st). case habit_repo_get st x of None \<Rightarrow> True | Some h \<Rightarrow> Q x h"
      and ph: "habit_repo_get st p = Some h"
    then have "p \<in> set (map fst st)" using keys by simp
    with all ph show "Q p h" by fastforce
  next
    fix p
    assume "\<forall>p h. habit_repo_get st p = Some h \<longrightarrow> Q p h"
    then show "case habit_repo_get st p of None \<Rightarrow> True | Some h \<Rightarrow> Q p h"
      by (simp split: option.splits)
  qed
qed

lemma links_ok_iff:
  "links_ok st \<longleftrightarrow>
     (\<forall>p h c. habit_repo_get st p = Some h \<longrightarrow> c \<in> set (h_subhabit_ids h) \<longrightarrow>
        (\<exists>hc. habit_repo_get st c = Some hc \<and> h_parent_id hc = Some p)) \<and>
     (\<forall>c hc q. habit_repo_get st c = Some hc \<longrightarrow> h_parent_id hc = Some q \<longrightarrow>
        (\<exists>hq. habit_repo_get st q = Some hq \<and> c \<in> set (h_subhabit_ids hq)))"
proof -
  have fw: "list_all (\<lambda>c. case habit_repo_get st c of None \<Rightarrow> False
                          | Some hc \<Rightarrow> h_parent_id hc = Some p) cs \<longleftrightarrow>
     (\<forall>c \<in> set cs. \<exists>hc. habit_repo_get st c = Some hc \<and> h_parent_id hc = Some p)" for p cs
    by (auto simp: list_all_iff split: option.splits)
  have bw: "(case hp of None \<Rightarrow> True
         | Some q \<Rightarrow> (case habit_repo_get st q of None \<Rightarrow> False
                       | Some hq \<Rightarrow> p \<in> set (h_subhabit_ids hq))) \<longleftrightarrow>
     (\<forall>q. hp = Some q \<longrightarrow> (\<exists>hq. habit_repo_get st q = Some hq \<and> p \<in> set (h_subhabit_ids hq)))" for hp p
    by (auto split: option.splits)
  show ?thesis
    unfolding links_ok_def list_all_store_keys fw bw by blast
qed

lemma habit_repo_get_add_fun:
  "habit_repo_get (habit_repo_add h st) = (habit_repo_get st)(h_id h \<mapsto> h)"
  by (rule ext) simp

lemma add_subhabit_Some:
  assumes "habit_store_wf (habit_repository s)" and "get_habit s p = Some parent"
  shows "add_subhabit p sub s =
    (Inr (), s\<lparr>habit_repository :=
       habit_repo_add (parent\<lparr>h_subhabit_ids := h_subhabit_ids parent @ [h_id sub]\<rparr>)
         (habit_repo_add (sub\<lparr>h_parent_id := Some p\<rparr>) (habit_repository s))\<rparr>)"
proof -
  have pid: "h_id parent = p"
    using habit_store_wf_get [OF assms(1)] assms(2) by (simp add: get_habit_def)
  have "habit_repo_update (parent\<lparr>h_subhabit_ids := h_subhabit_ids parent @ [h_id sub]\<rparr>)
      (habit_repo_add (sub\<lparr>h_parent_id := Some p\<rparr>) (habit_repository s)) =
    Inr (habit_repo_add (parent\<lparr>h_subhabit_ids := h_subhabit_ids parent @ [h_id sub]\<rparr>)
      (habit_repo_add (sub\<lparr>h_parent_id := Some p\<rparr>) (habit_repository s)))"
    using pid assms(2) by (simp add: habit_repo_update_Inr get_habit_def)
  then show ?thesis
    using assms(2) by (simp add: add_subhabit_def get_habit_def Let_def)
qed

subsection \<open>Properties of the service\<close>

text \<open>
  C12. Termination of the cascading delete: when the sub-habit relation of the store is
  well founded (no cycle of sub-habit ids), some finite recursion depth suffices and
  \<open>delete_habit\<close> returns, with an outcome or an error.
\<close>

theorem delete_habit_terminates:
  assumes "wfp (subhabit_of (habit_repository s))"
  shows "\<exists>n r. delete_habit n i s = Some r"
proof -
  obtain n where "delete_depth_ok n (habit_repository s) i"
    using delete_depth_ok_wf [OF assms] ..
  then show ?thesis
    using delete_returns_depth(1) by blast
qed

text \<open>
  C13. A delete that succeeds removes the habit and every habit reachable from it
  through sub-habit ids (its whole subtree, spec scenario E), and leaves the logs alone.
\<close>

theorem delete_habit_removes_subtree:
  assumes "delete_habit n i s = Some (Inr (), s')"
    and "(subhabit_of (habit_repository s))\<^sup>*\<^sup>* c i"
  shows "habit_repo_get (habit_repository s') c = None \<and> log_repository s' = log_repository s"
proof -
  have cl: "deleted_closed (habit_repository s) (habit_repository s') \<and>
      habit_repo_get (habit_repository s') i = None"
    using delete_closed(1) [OF assms(1) map_le_refl deleted_closed_refl] .
  have "habit_repo_get (habit_repository s') c = None"
    using assms(2)
  proof (induction rule: converse_rtranclp_induct)
    case base
    then show ?case using cl by simp
  next
    case (step a b)
    then obtain hb where hb: "habit_repo_get (habit_repository s) b = Some hb"
      and a: "a \<in> set (h_subhabit_ids hb)"
      by (auto simp: subhabit_of_def split: option.splits)
    with step.IH cl show ?case
      by (auto simp: deleted_closed_def list_all_iff)
  qed
  moreover have "log_repository s' = log_repository s"
    using delete_shrinks(1) [OF assms(1)] by blast
  ultimately show ?thesis by simp
qed

text \<open>
  C14. A cycle is reachable through the service API: \<open>add_subhabit\<close> of a habit whose
  id is the parent's own id succeeds and makes the parent its own sub-habit, after which
  \<open>delete_habit\<close> of it recurses forever (no fuel suffices).
\<close>

theorem add_subhabit_self_cycle_diverges:
  assumes "habit_store_wf (habit_repository s)" and "habit_repo_get (habit_repository s) p = Some parent"
    and "h_subhabit_ids parent = []" and "h_id sub = p"
  shows "fst (add_subhabit p sub s) = Inr () \<and> (\<forall>n. delete_habit n p (snd (add_subhabit p sub s)) = None)"
proof -
  let ?parent' = "parent\<lparr>h_subhabit_ids := [p]\<rparr>"
  let ?s1 = "s\<lparr>habit_repository := habit_repo_add (sub\<lparr>h_parent_id := Some p\<rparr>) (habit_repository s)\<rparr>"
  have pid: "h_id parent = p"
    using habit_store_wf_get [OF assms(1,2)] .
  have upd: "habit_repo_update ?parent' (habit_repository ?s1) = Inr (habit_repo_add ?parent' (habit_repository ?s1))"
    using assms pid by (simp add: habit_repo_update_Inr)
  have res: "add_subhabit p sub s = (Inr (), ?s1\<lparr>habit_repository := habit_repo_add ?parent' (habit_repository ?s1)\<rparr>)"
    using assms pid upd by (simp add: add_subhabit_def Let_def)
  have "habit_repo_get (habit_repository (snd (add_subhabit p sub s))) p = Some ?parent'"
    using res pid by simp
  then have "\<forall>n. delete_habit n p (snd (add_subhabit p sub s)) = None"
    using self_cycle_diverges by simp
  with res show ?thesis by simp
qed

text \<open>
  C15. Deleting a sub-habit directly removes it but leaves its id in the parent's
  \<open>subhabit_ids\<close>: if the parent survives the delete it is stored unchanged, still
  listing the deleted id, and no later \<open>delete_habit\<close> of the parent can succeed,
  whatever the recursion depth: the parent can never be deleted.
\<close>

theorem delete_child_then_parent_fails:
  assumes "habit_repo_get (habit_repository s) p = Some hp" and "c \<in> set (h_subhabit_ids hp)"
    and "delete_habit n c s = Some (Inr (), s')" and "habit_repo_get (habit_repository s') p \<noteq> None"
  shows "habit_repo_get (habit_repository s') c = None \<and> habit_repo_get (habit_repository s') p = Some hp \<and>
    (\<forall>m s''. delete_habit m p s' \<noteq> Some (Inr (), s''))"
proof -
  have c: "habit_repo_get (habit_repository s') c = None"
    using delete_habit_success_absent [OF assms(3)] .
  have p: "habit_repo_get (habit_repository s') p = Some hp"
    using delete_keeps_stored [OF assms(3) assms(1)] assms(4) by auto
  from c p delete_habit_dangling [OF p assms(2) c] show ?thesis by blast
qed

text \<open>
  More recursion depth never changes what \<open>delete_habit\<close> returns: once a
  depth suffices, every larger one gives the same outcome and state.
\<close>

lemma delete_habit_fuel_mono:
  assumes "delete_habit n i s = Some r" and "n \<le> m"
  shows "delete_habit m i s = Some r"
  using assms(2) by (induction rule: dec_induct) (rule assms(1), erule delete_fuel_Suc(1))

text \<open>
  C16. On a well-formed store, \<open>update_habit\<close> of a missing id raises "Habit not
  found" and changes nothing; otherwise it returns the updated habit and stores it under
  the same id (the repository's \<open>KeyError\<close> is unreachable).
\<close>

theorem update_habit_spec:
  assumes "habit_store_wf (habit_repository s)"
  shows "update_habit i u s =
    (case get_habit s i of
       None \<Rightarrow> (Inl HabitNotFound, s)
     | Some h \<Rightarrow> (Inr (apply_update u h),
         s\<lparr>habit_repository := habit_repo_add (apply_update u h) (habit_repository s)\<rparr>))"
proof (cases "get_habit s i")
  case None
  then show ?thesis by (simp add: update_habit_def get_habit_def)
next
  case (Some h)
  then have "h_id h = i"
    using habit_store_wf_get [OF assms] by (simp add: get_habit_def)
  moreover have "h_id (apply_update u h) = h_id h"
    by (simp add: apply_update_def Let_def split: option.splits)
  ultimately show ?thesis
    using Some by (simp add: update_habit_def get_habit_def habit_repo_update_def habit_repo_add_def
        habit_repo_dom habit_repo_get_def Let_def)
qed

text \<open>
  C17. \<open>update_habit\<close> replaces exactly the fields the update supplies (a supplied
  description, category or goal becomes present) and keeps every other field: id, type,
  creation time, parent and sub-habit list.
\<close>

theorem update_habit_fields:
  assumes "fst (update_habit i u s) = Inr h'"
  shows "\<exists>h. get_habit s i = Some h \<and>
    h_name h' = (case u_name u of None \<Rightarrow> h_name h | Some n \<Rightarrow> n) \<and>
    h_description h' = (case u_description u of None \<Rightarrow> h_description h | Some d \<Rightarrow> Some d) \<and>
    h_category h' = (case u_category u of None \<Rightarrow> h_category h | Some c \<Rightarrow> Some c) \<and>
    h_goal h' = (case u_goal u of None \<Rightarrow> h_goal h | Some g \<Rightarrow> Some g) \<and>
    h_id h' = h_id h \<and> h_type h' = h_type h \<and> h_created_at h' = h_created_at h \<and>
    h_parent_id h' = h_parent_id h \<and> h_subhabit_ids h' = h_subhabit_ids h"
proof -
  obtain h where h: "get_habit s i = Some h"
    using assms by (cases "get_habit s i") (simp_all add: update_habit_def get_habit_def)
  then have "h' = apply_update u h"
    using assms by (auto simp: update_habit_def get_habit_def Let_def split: sum.splits)
  with h show ?thesis
    by (simp add: apply_update_def Let_def split: option.splits)
qed

text \<open>
  C18. \<open>add_subhabit\<close> on a well-formed store: a missing parent raises "Parent habit
  not found" and changes nothing; otherwise the sub-habit is stored with its parent
  link, the parent's list gains its id at the end, the store stays well formed and the
  logs are unchanged.
\<close>

theorem add_subhabit_spec:
  assumes "habit_store_wf (habit_repository s)"
  shows "case get_habit s p of
     None \<Rightarrow> add_subhabit p sub s = (Inl ParentHabitNotFound, s)
   | Some parent \<Rightarrow>
       fst (add_subhabit p sub s) = Inr () \<and>
       habit_repo_get (habit_repository (snd (add_subhabit p sub s))) =
         (habit_repo_get (habit_repository s))
           (h_id sub \<mapsto> sub\<lparr>h_parent_id := Some p\<rparr>,
            p \<mapsto> parent\<lparr>h_subhabit_ids := h_subhabit_ids parent @ [h_id sub]\<rparr>) \<and>
       habit_store_wf (habit_repository (snd (add_subhabit p sub s))) \<and>
       log_repository (snd (add_subhabit p sub s)) = log_repository s"
proof (cases "get_habit s p")
  case None
  then show ?thesis by (simp add: add_subhabit_def get_habit_def)
next
  case (Some parent)
  have pid: "h_id parent = p"
    using habit_store_wf_get [OF assms] Some by (simp add: get_habit_def)
  show ?thesis
    using Some add_subhabit_Some [OF assms Some] pid assms
    by (simp add: habit_repo_get_add_fun habit_store_wf_add)
qed

text \<open>
  C19. The spec's linkage invariant (every listed sub-habit exists and names this
  habit as parent; every set parent exists and lists the habit) is preserved by
  \<open>add_subhabit\<close> of a habit whose id is new and whose sub-habit list is empty.
\<close>

theorem add_subhabit_links_ok:
  assumes "habit_store_wf (habit_repository s)" and "links_ok (habit_repository s)"
    and "get_habit s (h_id sub) = None" and "h_subhabit_ids sub = []"
  shows "links_ok (habit_repository (snd (add_subhabit p sub s)))"
proof (cases "get_habit s p")
  case None
  then show ?thesis using assms(2) by (simp add: add_subhabit_def get_habit_def)
next
  case (Some parent)
  have pid: "h_id parent = p"
    using habit_store_wf_get [OF assms(1)] Some by (simp add: get_habit_def)
  have cp: "h_id sub \<noteq> p" using Some assms(3) by auto
  have G: "habit_repo_get (habit_repository (snd (add_subhabit p sub s))) =
      (habit_repo_get (habit_repository s))
           (h_id sub \<mapsto> sub\<lparr>h_parent_id := Some p\<rparr>,
            p \<mapsto> parent\<lparr>h_subhabit_ids := h_subhabit_ids parent @ [h_id sub]\<rparr>)"
    using add_subhabit_Some [OF assms(1) Some] pid by (simp add: habit_repo_get_add_fun)
  have fresh: "habit_repo_get (habit_repository s) (h_id sub) = None"
    using assms(3) by (simp add: get_habit_def)
  have par: "habit_repo_get (habit_repository s) p = Some parent"
    using Some by (simp add: get_habit_def)
  from assms(2) have fw: "\<And>q h x. habit_repo_get (habit_repository s) q = Some h \<Longrightarrow>
      x \<in> set (h_subhabit_ids h) \<Longrightarrow>
      \<exists>hx. habit_repo_get (habit_repository s) x = Some hx \<and> h_parent_id hx = Some q"
    and bw: "\<And>x hx q. habit_repo_get (habit_repository s) x = Some hx \<Longrightarrow> h_parent_id hx = Some q \<Longrightarrow>
      \<exists>hq. habit_repo_get (habit_repository s) q = Some hq \<and> x \<in> set (h_subhabit_ids hq)"
    unfolding links_ok_iff by blast+
  show ?thesis
    unfolding links_ok_iff G
  proof (intro conjI allI impI)
    fix q h x
    assume qh: "((habit_repo_get (habit_repository s))(h_id sub \<mapsto> sub\<lparr>h_parent_id := Some p\<rparr>,
        p \<mapsto> parent\<lparr>h_subhabit_ids := h_subhabit_ids parent @ [h_id sub]\<rparr>)) q = Some h"
      and x: "x \<in> set (h_subhabit_ids h)"
    show "\<exists>hx. ((habit_repo_get (habit_repository s))(h_id sub \<mapsto> sub\<lparr>h_parent_id := Some p\<rparr>,
        p \<mapsto> parent\<lparr>h_subhabit_ids := h_subhabit_ids parent @ [h_id sub]\<rparr>)) x = Some hx \<and>
        h_parent_id hx = Some q"
      using qh x fw [of q _ x] fw [of p parent x] fresh par cp assms(4)
      by (cases "q = p"; cases "x = h_id sub"; cases "x = p") (auto split: if_splits)
  next
    fix x hx q
    assume xh: "((habit_repo_get (habit_repository s))(h_id sub \<mapsto> sub\<lparr>h_parent_id := Some p\<rparr>,
        p \<mapsto> parent\<lparr>h_subhabit_ids := h_subhabit_ids parent @ [h_id sub]\<rparr>)) x = Some hx"
      and q: "h_parent_id hx = Some q"
    show "\<exists>hq. ((habit_repo_get (habit_repository s))(h_id sub \<mapsto> sub\<lparr>h_parent_id := Some p\<rparr>,
        p \<mapsto> parent\<lparr>h_subhabit_ids := h_subhabit_ids parent @ [h_id sub]\<rparr>)) q = Some hq \<and>
        x \<in> set (h_subhabit_ids hq)"
      using xh q bw [of x _ q] bw [of p parent q] fresh par cp
      by (cases "q = p"; cases "x = h_id sub"; cases "q = h_id sub"; cases "x = p") (auto split: if_splits)
  qed
qed

text \<open>
  C20. \<open>record_log\<close> then \<open>get_logs\<close>: without the habit both raise "Habit not
  found" and nothing is written; otherwise the new entry is returned, and the habit's
  logs in a window gain exactly that entry when its date is in the window, stay sorted by
  date, and list it after the earlier entries of the same date.
\<close>

theorem record_log_get_logs:
  "case get_habit s i of
     None \<Rightarrow> record_log fid now i d v s = (Inl HabitNotFound, s) \<and> get_logs s i st en = Inl HabitNotFound
   | Some h \<Rightarrow>
       fst (record_log fid now i d v s) = Inr (log_entry_create fid now i d v) \<and>
       (\<exists>L L'. get_logs s i st en = Inr L \<and>
          get_logs (snd (record_log fid now i d v s)) i st en = Inr L' \<and>
          sorted (map l_date L') \<and>
          mset L' = mset L + (if in_window st en d then {#log_entry_create fid now i d v#} else {#}) \<and>
          filter (\<lambda>e. l_date e = d) L' =
            filter (\<lambda>e. l_date e = d) L @
              (if in_window st en d then [log_entry_create fid now i d v] else []))"
proof (cases "get_habit s i")
  case None
  then show ?thesis by (simp add: record_log_def get_logs_def get_habit_def)
next
  case (Some h)
  let ?e = "log_entry_create fid now i d v"
  have e: "l_habit_id ?e = i" "l_date ?e = d" by (simp_all add: log_entry_create_def)
  show ?thesis
    using Some e
    by (simp add: record_log_def get_logs_def get_habit_def list_for_habit_eq log_repo_add_def
        sort_key_stable Let_def)
qed

subsection \<open>Witnesses\<close>

theorem delete_child_then_parent_fails_witness:
  "\<exists>s'. habit_repo_get (habit_repository (snd (add_subhabit ''p'' (named_habit ''c'' None [])
           (create_habit (named_habit ''p'' None []) empty_service)))) ''p'' = Some (named_habit ''p'' None [''c'']) \<and>
        ''c'' \<in> set (h_subhabit_ids (named_habit ''p'' None [''c''])) \<and>
        delete_habit 10 ''c'' (snd (add_subhabit ''p'' (named_habit ''c'' None [])
           (create_habit (named_habit ''p'' None []) empty_service))) = Some (Inr (), s') \<and>
        habit_repo_get (habit_repository s') ''p'' \<noteq> None \<and>
        (\<forall>m s''. delete_habit m ''p'' s' \<noteq> Some (Inr (), s''))"
proof -
  let ?s = "snd (add_subhabit ''p'' (named_habit ''c'' None []) (create_habit (named_habit ''p'' None []) empty_service))"
  let ?s' = "\<lparr>habit_repository = [(''p'', named_habit ''p'' None [''c''])], log_repository = []\<rparr>"
  have g: "habit_repo_get (habit_repository ?s) ''p'' = Some (named_habit ''p'' None [''c''])"
    and d: "delete_habit 10 ''c'' ?s = Some (Inr (), ?s')"
    and k: "habit_repo_get (habit_repository ?s') ''p'' \<noteq> None"
    by (simp_all add: empty_service_def create_habit_def add_subhabit_def named_habit_def
      habit_repo_get_def habit_repo_add_def habit_repo_update_def habit_repo_delete_def numeral_eq_Suc)
  have m: "''c'' \<in> set (h_subhabit_ids (named_habit ''p'' None [''c'']))" by (simp add: named_habit_def)
  show ?thesis using delete_child_then_parent_fails [OF g m d k] g m d k by blast
qed


lemma scenario_e_wf: "wfp (subhabit_of (habit_repository scenario_e_service))"
proof -
  let ?f = "\<lambda>x::habit_id. if x = ''p'' then 1 else (0::nat)"
  have "{(c, p). subhabit_of (habit_repository scenario_e_service) c p} \<subseteq> measure ?f"
    by (auto simp: subhabit_of_def scenario_e_service_def named_habit_def habit_repo_get_def
        split: if_splits)
  then show ?thesis
    unfolding wfp_def by (rule wf_subset [OF wf_measure])
qed

theorem delete_habit_terminates_witness:
  "wfp (subhabit_of (habit_repository scenario_e_service)) \<and>
   (\<exists>n r. delete_habit n ''p'' scenario_e_service = Some r)"
  using delete_habit_terminates [OF scenario_e_wf] scenario_e_wf by blast

theorem delete_habit_removes_subtree_witness:
  "\<exists>s'. delete_habit 3 ''p'' scenario_e_service = Some (Inr (), s') \<and>
     habit_repo_get (habit_repository s') ''p'' = None \<and> habit_repo_get (habit_repository s') ''c'' = None"
proof -
  let ?s' = "scenario_e_service\<lparr>habit_repository := []\<rparr>"
  have run: "delete_habit 3 ''p'' scenario_e_service = Some (Inr (), ?s')"
    by (simp add: scenario_e_service_def named_habit_def habit_repo_get_def habit_repo_delete_def
        numeral_3_eq_3)
  have sub: "(subhabit_of (habit_repository scenario_e_service))\<^sup>*\<^sup>* ''c'' ''p''"
    by (rule r_into_rtranclp) (simp add: subhabit_of_def scenario_e_service_def named_habit_def habit_repo_get_def)
  have "habit_repo_get (habit_repository ?s') ''c'' = None"
    using delete_habit_removes_subtree [OF run sub] by blast
  moreover have "habit_repo_get (habit_repository ?s') ''p'' = None"
    using delete_habit_removes_subtree [OF run rtranclp.rtrancl_refl] by blast
  ultimately show ?thesis using run by blast
qed

theorem add_subhabit_self_cycle_diverges_witness:
  "fst (add_subhabit ''p'' (named_habit ''p'' None [])
      \<lparr>habit_repository = [(''p'', named_habit ''p'' None [])], log_repository = []\<rparr>) = Inr () \<and>
   (\<forall>n. delete_habit n ''p'' (snd (add_subhabit ''p'' (named_habit ''p'' None [])
      \<lparr>habit_repository = [(''p'', named_habit ''p'' None [])], log_repository = []\<rparr>)) = None)"
  by (rule add_subhabit_self_cycle_diverges [where parent = "named_habit ''p'' None []"])
     (simp_all add: habit_store_wf_def habit_repo_get_def named_habit_def)

lemma scenario_e_wf_store: "habit_store_wf (habit_repository scenario_e_service)"
  by (simp add: habit_store_wf_def scenario_e_service_def named_habit_def)

lemma scenario_e_delete:
  "delete_habit 3 ''p'' scenario_e_service = Some (Inr (), scenario_e_service\<lparr>habit_repository := []\<rparr>)"
  by (simp add: scenario_e_service_def named_habit_def habit_repo_get_def habit_repo_delete_def
      numeral_3_eq_3)

lemma delete_habit_fuel_mono_witness:
  "delete_habit 3 ''p'' scenario_e_service = Some (Inr (), scenario_e_service\<lparr>habit_repository := []\<rparr>) \<and>
   delete_habit 5 ''p'' scenario_e_service = Some (Inr (), scenario_e_service\<lparr>habit_repository := []\<rparr>)"
  using delete_habit_fuel_mono [OF scenario_e_delete, of 5] scenario_e_delete by simp

theorem update_habit_spec_witness:
  "habit_store_wf (habit_repository scenario_e_service) \<and>
   update_habit ''c'' (rename_update ''run'') scenario_e_service =
     (Inr ((named_habit ''c'' (Some ''p'') [])\<lparr>h_name := ''run''\<rparr>),
      scenario_e_service\<lparr>habit_repository :=
        [(''p'', named_habit ''p'' None [''c'']), (''c'', (named_habit ''c'' (Some ''p'') [])\<lparr>h_name := ''run''\<rparr>)]\<rparr>)"
  using update_habit_spec [OF scenario_e_wf_store, of "''c''" "rename_update ''run''"] scenario_e_wf_store
  by (simp add: get_habit_def scenario_e_service_def named_habit_def habit_repo_get_def
      habit_repo_add_def apply_update_def rename_update_def)

theorem update_habit_fields_witness:
  "fst (update_habit ''c'' (rename_update ''run'') scenario_e_service) =
     Inr ((named_habit ''c'' (Some ''p'') [])\<lparr>h_name := ''run''\<rparr>) \<and>
   (\<exists>h. get_habit scenario_e_service ''c'' = Some h \<and> h_parent_id h = Some ''p'' \<and>
      h_subhabit_ids h = [])"
proof -
  have run: "fst (update_habit ''c'' (rename_update ''run'') scenario_e_service) =
     Inr ((named_habit ''c'' (Some ''p'') [])\<lparr>h_name := ''run''\<rparr>)"
    by (simp add: update_habit_def scenario_e_service_def named_habit_def habit_repo_get_def
        habit_repo_update_def apply_update_def rename_update_def Let_def)
  show ?thesis
  proof -
    obtain h where "get_habit scenario_e_service ''c'' = Some h"
      "h_parent_id ((named_habit ''c'' (Some ''p'') [])\<lparr>h_name := ''run''\<rparr>) = h_parent_id h"
      "h_subhabit_ids ((named_habit ''c'' (Some ''p'') [])\<lparr>h_name := ''run''\<rparr>) = h_subhabit_ids h"
      using update_habit_fields [OF run] by blast
    then show ?thesis using run by (auto simp: named_habit_def)
  qed
qed

theorem add_subhabit_spec_witness:
  "habit_store_wf (habit_repository scenario_e_service) \<and>
   fst (add_subhabit ''p'' (named_habit ''d'' None []) scenario_e_service) = Inr () \<and>
   habit_repo_get (habit_repository (snd (add_subhabit ''p'' (named_habit ''d'' None []) scenario_e_service))) ''d'' =
     Some (named_habit ''d'' (Some ''p'') [])"
  using add_subhabit_spec [OF scenario_e_wf_store, of "''p''" "named_habit ''d'' None []"] scenario_e_wf_store
  by (simp add: get_habit_def scenario_e_service_def named_habit_def habit_repo_get_def)

theorem add_subhabit_links_ok_witness:
  "habit_store_wf (habit_repository scenario_e_service) \<and> links_ok (habit_repository scenario_e_service) \<and>
   get_habit scenario_e_service ''d'' = None \<and>
   links_ok (habit_repository (snd (add_subhabit ''p'' (named_habit ''d'' None []) scenario_e_service)))"
proof -
  have l: "links_ok (habit_repository scenario_e_service)"
    by (simp add: links_ok_def scenario_e_service_def named_habit_def habit_repo_get_def)
  have f: "get_habit scenario_e_service ''d'' = None"
    by (simp add: get_habit_def scenario_e_service_def named_habit_def habit_repo_get_def)
  show ?thesis
    using add_subhabit_links_ok [where s = scenario_e_service and sub = "named_habit ''d'' None []"
        and p = "''p''"] scenario_e_wf_store l f
    by (simp add: named_habit_def)
qed

end
