(* ===== verification/Controllers.thy ===== *)
theory Controllers
  imports Services
begin

text \<open>
  The HTTP routes of \<open>src/app/api/controllers.py\<close> over the service, with the request
  and response models of \<open>src/app/api/schemas.py\<close>. A route takes the decoded path,
  query and body values and the service state and returns a response with the new
  state. FastAPI validates a body against the schema's \<open>Field\<close> constraints before the
  handler runs and answers 422 when they fail (\<open>Unprocessable\<close>); a route's
  \<open>except ValueError\<close> turns the service's \<open>ValueError\<close>s into 404 with the
  exception as detail (\<open>HTTPError\<close>); any other exception escapes the handler and is
  answered 500 (\<open>ServerError\<close>). \<open>uuid.uuid4()\<close> and the clock are arguments.
  \<open>HabitRead(**habit.__dict__)\<close> keeps the fields the read model declares.
\<close>

subsection \<open>The code\<close>

datatype 'a response =
    Response nat 'a
  | HTTPError nat error
  | ServerError error
  | Unprocessable

record habit_create =
  c_name :: string
  c_description :: "string option"
  c_category :: "string option"
  c_type :: habit_type
  c_goal :: "real option"
  c_parent_id :: "habit_id option"

record habit_read =
  hr_id :: habit_id
  hr_name :: string
  hr_description :: "string option"
  hr_category :: "string option"
  hr_type :: habit_type
  hr_goal :: "real option"
  hr_parent_id :: "habit_id option"

record log_create =
  lc_date :: date
  lc_value :: "real option"

record log_read =
  lg_id :: log_id
  lg_habit_id :: habit_id
  lg_date :: date
  lg_value :: "real option"

record habit_stats =
  hs_habit_id :: habit_id
  hs_current_streak :: nat
  hs_longest_streak :: nat
  hs_total_completions :: nat
  hs_completion_rate :: real
  hs_average_value :: "real option"
  hs_total_days_tracked :: nat

definition opt_len_le :: "nat \<Rightarrow> string option \<Rightarrow> bool" where
  "opt_len_le n v = (case v of None \<Rightarrow> True | Some x \<Rightarrow> length x \<le> n)"

definition goal_ok :: "real option \<Rightarrow> bool" where
  "goal_ok g = (case g of None \<Rightarrow> True | Some x \<Rightarrow> 0 < x)"

definition habit_create_valid :: "habit_create \<Rightarrow> bool" where
  "habit_create_valid p \<longleftrightarrow>
     1 \<le> length (c_name p) \<and> length (c_name p) \<le> 200 \<and> opt_len_le 1000 (c_description p) \<and>
     opt_len_le 100 (c_category p) \<and> goal_ok (c_goal p)"

definition habit_update_valid :: "habit_update \<Rightarrow> bool" where
  "habit_update_valid p \<longleftrightarrow>
     (case u_name p of None \<Rightarrow> True | Some n \<Rightarrow> 1 \<le> length n \<and> length n \<le> 200) \<and>
     opt_len_le 1000 (u_description p) \<and> opt_len_le 100 (u_category p) \<and> goal_ok (u_goal p)"

definition habit_to_read :: "habit \<Rightarrow> habit_read" where
  "habit_to_read h =
     \<lparr>hr_id = h_id h, hr_name = h_name h, hr_description = h_description h,
      hr_category = h_category h, hr_type = h_type h, hr_goal = h_goal h,
      hr_parent_id = h_parent_id h\<rparr>"

definition log_to_read :: "log_entry \<Rightarrow> log_read" where
  "log_to_read e = \<lparr>lg_id = l_id e, lg_habit_id = l_habit_id e, lg_date = l_date e, lg_value = l_value e\<rparr>"

definition stats_to_read :: "habit_id \<times> statistics_result \<Rightarrow> habit_stats" where
  "stats_to_read p =
     (case p of (i, r) \<Rightarrow>
       \<lparr>hs_habit_id = i, hs_current_streak = current_streak r, hs_longest_streak = longest_streak r,
        hs_total_completions = total_completions r, hs_completion_rate = completion_rate r,
        hs_average_value = average_value r, hs_total_days_tracked = total_days_tracked r\<rparr>)"

definition handle_value_error :: "nat \<Rightarrow> ('a \<Rightarrow> 'b) \<Rightarrow> error + 'a \<Rightarrow> 'b response" where
  "handle_value_error code f r =
     (case r of
        Inr x \<Rightarrow> Response code (f x)
      | Inl e \<Rightarrow> if is_value_error e then HTTPError 404 e else ServerError e)"

definition new_habit ::
  "habit_id \<Rightarrow> timestamp \<Rightarrow> habit_create \<Rightarrow> habit_id option \<Rightarrow> habit" where
  "new_habit fresh_id now payload parent_id =
     \<lparr>h_id = fresh_id, h_name = c_name payload, h_description = c_description payload,
      h_category = c_category payload, h_type = c_type payload, h_goal = c_goal payload,
      h_created_at = now, h_parent_id = parent_id, h_subhabit_ids = []\<rparr>"

definition route_create_habit ::
  "habit_id \<Rightarrow> timestamp \<Rightarrow> habit_create \<Rightarrow> service \<Rightarrow> habit_read response \<times> service" where
  "route_create_habit fresh_id now payload s =
     (if \<not> habit_create_valid payload then (Unprocessable, s)
      else (let habit = new_habit fresh_id now payload (c_parent_id payload)
            in (Response 201 (habit_to_read habit), create_habit habit s)))"

definition route_list_habits :: "service \<Rightarrow> habit_read list response" where
  "route_list_habits s = Response 200 (map habit_to_read (list_habits s))"

definition route_get_habit :: "service \<Rightarrow> habit_id \<Rightarrow> habit_read response" where
  "route_get_habit s habit_id =
     (case get_habit s habit_id of
        None \<Rightarrow> HTTPError 404 HabitNotFound
      | Some habit \<Rightarrow> Response 200 (habit_to_read habit))"

definition route_update_habit ::
  "habit_id \<Rightarrow> habit_update \<Rightarrow> service \<Rightarrow> habit_read response \<times> service" where
  "route_update_habit habit_id payload s =
     (if \<not> habit_update_valid payload then (Unprocessable, s)
      else (case update_habit habit_id payload s of
              (r, s') \<Rightarrow> (handle_value_error 200 habit_to_read r, s')))"

definition route_delete_habit ::
  "nat \<Rightarrow> habit_id \<Rightarrow> service \<Rightarrow> (unit response \<times> service) option" where
  "route_delete_habit fuel habit_id s =
     (case delete_habit fuel habit_id s of
        None \<Rightarrow> None
      | Some (r, s') \<Rightarrow> Some (handle_value_error 204 id r, s'))"

definition route_add_subhabit ::
  "habit_id \<Rightarrow> timestamp \<Rightarrow> habit_id \<Rightarrow> habit_create \<Rightarrow> service \<Rightarrow> habit_read response \<times> service" where
  "route_add_subhabit fresh_id now habit_id payload s =
     (if \<not> habit_create_valid payload then (Unprocessable, s)
      else (let sub = new_habit fresh_id now payload (Some habit_id) in
            case add_subhabit habit_id sub s of
              (r, s') \<Rightarrow> (handle_value_error 201 (\<lambda>_. habit_to_read sub) r, s')))"

definition route_record_log ::
  "log_id \<Rightarrow> timestamp \<Rightarrow> habit_id \<Rightarrow> log_create \<Rightarrow> service \<Rightarrow> log_read response \<times> service" where
  "route_record_log fresh_id now habit_id payload s =
     (case record_log fresh_id now habit_id (lc_date payload) (lc_value payload) s of
        (r, s') \<Rightarrow> (handle_value_error 201 log_to_read r, s'))"

definition route_get_logs ::
  "service \<Rightarrow> habit_id \<Rightarrow> date option \<Rightarrow> date option \<Rightarrow> log_read list response" where
  "route_get_logs s habit_id start end_d =
     handle_value_error 200 (map log_to_read) (get_logs s habit_id start end_d)"

definition route_get_stats ::
  "date \<Rightarrow> service \<Rightarrow> habit_id \<Rightarrow> date option \<Rightarrow> date option \<Rightarrow> habit_stats response" where
  "route_get_stats today s habit_id start end_d =
     handle_value_error 200 stats_to_read
       (get_statistics default_calculators today s habit_id start end_d)"

text \<open>Fixture: a valid creation body with a given parent.\<close>

definition sample_create :: "habit_id option \<Rightarrow> habit_create" where
  "sample_create p = \<lparr>c_name = ''Read'', c_description = None, c_category = None, c_type = BOOLEAN,
     c_goal = None, c_parent_id = p\<rparr>"

subsection \<open>Properties of the routes\<close>

text \<open>
  C31. \<open>POST /habits\<close> with a valid body answers 201 with the new habit under the
  fresh id, and \<open>GET /habits/{id}\<close> afterwards answers 200 with the same body; an
  invalid body is answered 422 and changes nothing.
\<close>

theorem route_create_get_roundtrip:
  "case route_create_habit fresh now p s of (resp, s') \<Rightarrow>
     (if habit_create_valid p
      then (\<exists>r. resp = Response 201 r \<and> hr_id r = fresh \<and> route_get_habit s' fresh = Response 200 r)
      else resp = Unprocessable \<and> s' = s)"
  by (simp add: route_create_habit_def route_get_habit_def create_habit_def get_habit_def
      new_habit_def habit_to_read_def Let_def)

text \<open>
  C32. On a well-formed store \<open>PUT /habits/{id}\<close> answers 422 for an invalid body,
  404 for an unknown id, and otherwise 200 with the updated habit, which a following
  \<open>GET\<close> returns unchanged.
\<close>

theorem route_update_get_roundtrip:
  assumes "habit_store_wf (habit_repository s)"
  shows "case route_update_habit i u s of (resp, s') \<Rightarrow>
     (if \<not> habit_update_valid u then resp = Unprocessable \<and> s' = s
      else case get_habit s i of
             None \<Rightarrow> resp = HTTPError 404 HabitNotFound \<and> s' = s
           | Some h \<Rightarrow> resp = Response 200 (habit_to_read (apply_update u h)) \<and>
                       route_get_habit s' i = resp)"
proof (cases "get_habit s i")
  case None
  then show ?thesis
    by (simp add: route_update_habit_def update_habit_def get_habit_def handle_value_error_def)
next
  case (Some h)
  have hid: "h_id h = i"
    using habit_store_wf_get [OF assms] Some by (simp add: get_habit_def)
  show ?thesis
    using Some update_habit_Some [OF assms Some, of u] hid
    by (simp add: route_update_habit_def handle_value_error_def route_get_habit_def get_habit_def)
qed

text \<open>
  C33. On a well-formed store no route that writes or reads through the service answers
  500, except \<open>GET /habits/{id}/stats\<close> on the \<open>OverflowError\<close> of a streak that
  reaches \<open>date.min\<close>: every other failure is a 404 or a 422.
\<close>

theorem routes_no_server_error:
  assumes "habit_store_wf (habit_repository s)"
  shows "(\<forall>e. fst (route_update_habit i u s) \<noteq> ServerError e) \<and>
    (\<forall>e. fst (route_add_subhabit fresh now i c s) \<noteq> ServerError e) \<and>
    (\<forall>e. fst (route_record_log lid now i lc s) \<noteq> ServerError e) \<and>
    (\<forall>e. route_get_logs s i start end_d \<noteq> ServerError e) \<and>
    (\<forall>e. route_get_stats today s i start end_d = ServerError e \<longrightarrow> e = DateOverflow)"
proof (intro conjI allI impI)
  fix e
  show "fst (route_update_habit i u s) \<noteq> ServerError e"
    using update_habit_Some [OF assms]
    by (cases "get_habit s i")
       (auto simp: route_update_habit_def update_habit_def get_habit_def handle_value_error_def)
next
  fix e
  show "fst (route_add_subhabit fresh now i c s) \<noteq> ServerError e"
    using add_subhabit_Some [OF assms]
    by (cases "get_habit s i")
       (auto simp: route_add_subhabit_def add_subhabit_def get_habit_def handle_value_error_def Let_def)
next
  fix e
  show "fst (route_record_log lid now i lc s) \<noteq> ServerError e"
    by (auto simp: route_record_log_def record_log_def handle_value_error_def Let_def split: option.splits)
next
  fix e
  show "route_get_logs s i start end_d \<noteq> ServerError e"
    by (auto simp: route_get_logs_def get_logs_def handle_value_error_def split: option.splits)
next
  fix e
  assume "route_get_stats today s i start end_d = ServerError e"
  then show "e = DateOverflow"
    by (auto simp: route_get_stats_def get_statistics_def handle_value_error_def get_calculator_def
        default_calculators_def Let_def split: option.splits sum.splits if_splits habit_type.splits
        dest: boolean_calculate_error numeric_calculate_error)
qed

lemma links_ok_at:
  assumes ok: "links_ok st" and g: "habit_repo_get st k = Some h"
  shows "list_all (\<lambda>c. case habit_repo_get st c of None \<Rightarrow> False
            | Some hc \<Rightarrow> h_parent_id hc = Some k) (h_subhabit_ids h) \<and>
         (case h_parent_id h of None \<Rightarrow> True
          | Some q \<Rightarrow> (case habit_repo_get st q of None \<Rightarrow> False
                        | Some hq \<Rightarrow> k \<in> set (h_subhabit_ids hq)))"
proof -
  have mem: "k \<in> set (map fst st)" using habit_repo_dom [of k st] g by simp
  from bspec [OF ok [unfolded links_ok_def list_all_iff] mem] g show ?thesis by (simp add: list_all_iff)
qed

lemma links_ok_parent:
  "links_ok st \<Longrightarrow> habit_repo_get st k = Some h \<Longrightarrow> h_parent_id h = Some q \<Longrightarrow>
     \<exists>hq. habit_repo_get st q = Some hq \<and> k \<in> set (h_subhabit_ids hq)"
  by (drule (1) links_ok_at) (auto split: option.splits)

lemma links_ok_child:
  "links_ok st \<Longrightarrow> habit_repo_get st k = Some h \<Longrightarrow> c \<in> set (h_subhabit_ids h) \<Longrightarrow>
     habit_repo_get st c \<noteq> None"
  by (drule (1) links_ok_at) (auto simp: list_all_iff split: option.splits)

text \<open>
  C34. \<open>POST /habits\<close> stores a given \<open>parent_id\<close> without adding the new habit to
  the parent's \<open>subhabit_ids\<close> (and without checking that the parent exists): from every
  store satisfying the linkage invariant, a valid creation with a parent under a fresh id
  leads to a store that violates it.
\<close>

theorem route_create_parent_unlinked:
  assumes links: "links_ok (habit_repository s)" and fresh: "habit_repo_get (habit_repository s) i = None"
    and valid: "habit_create_valid payload" and parent: "c_parent_id payload = Some p"
  shows "\<not> links_ok (habit_repository (snd (route_create_habit i now payload s)))"
proof
  let ?h = "new_habit i now payload (Some p)"
  let ?st = "habit_repo_add ?h (habit_repository s)"
  assume "links_ok (habit_repository (snd (route_create_habit i now payload s)))"
  then have ok: "links_ok ?st"
    using valid parent by (simp add: route_create_habit_def create_habit_def Let_def)
  have hid: "h_id ?h = i" and par: "h_parent_id ?h = Some p" and nosub: "h_subhabit_ids ?h = []"
    by (simp_all add: new_habit_def)
  have gi: "habit_repo_get ?st i = Some ?h" using hid by simp
  from links_ok_parent [OF ok gi par] obtain hp where
    hp: "habit_repo_get ?st p = Some hp" and mem: "i \<in> set (h_subhabit_ids hp)"
    by blast
  show False
  proof (cases "p = i")
    case True
    with hp gi have "hp = ?h" by simp
    with mem nosub show False by simp
  next
    case False
    with hp hid have old: "habit_repo_get (habit_repository s) p = Some hp" by simp
    from links_ok_child [OF links old mem] fresh show False by simp
  qed
qed

subsection \<open>Witnesses\<close>

theorem route_update_get_roundtrip_witness:
  "habit_store_wf (habit_repository scenario_e_service) \<and>
   fst (route_update_habit ''c'' (rename_update ''run'') scenario_e_service) =
     Response 200 (habit_to_read (apply_update (rename_update ''run'') (named_habit ''c'' (Some ''p'') [])))"
proof -
  have wf: "habit_store_wf (habit_repository scenario_e_service)"
    by (simp add: habit_store_wf_def scenario_e_service_def named_habit_def)
  have v: "habit_update_valid (rename_update ''run'')"
    by (simp add: habit_update_valid_def rename_update_def opt_len_le_def goal_ok_def)
  have g: "get_habit scenario_e_service ''c'' = Some (named_habit ''c'' (Some ''p'') [])"
    by (simp add: get_habit_def scenario_e_service_def habit_repo_get_def)
  show ?thesis
    using route_update_get_roundtrip [OF wf, where i = "''c''" and u = "rename_update ''run''"] wf v g
    by (auto split: prod.splits)
qed

theorem routes_no_server_error_witness:
  "habit_store_wf (habit_repository scenario_e_service) \<and>
   fst (route_add_subhabit ''d'' 0 ''p'' (sample_create None) scenario_e_service) \<noteq> ServerError HabitKeyError"
proof -
  have wf: "habit_store_wf (habit_repository scenario_e_service)"
    by (simp add: habit_store_wf_def scenario_e_service_def named_habit_def)
  show ?thesis
    using routes_no_server_error [OF wf, where i = "''p''" and fresh = "''d''" and now = 0
      and c = "sample_create None"] wf by blast
qed

theorem route_create_parent_unlinked_witness:
  "links_ok [(''p'', named_habit ''p'' None [])] \<and>
   habit_repo_get [(''p'', named_habit ''p'' None [])] ''c'' = None \<and>
   habit_create_valid (sample_create (Some ''p'')) \<and> c_parent_id (sample_create (Some ''p'')) = Some ''p'' \<and>
   \<not> links_ok (habit_repository (snd (route_create_habit ''c'' 0 (sample_create (Some ''p''))
     \<lparr>habit_repository = [(''p'', named_habit ''p'' None [])], log_repository = []\<rparr>)))"
proof -
  have l: "links_ok [(''p'', named_habit ''p'' None [])]"
    and f: "habit_repo_get [(''p'', named_habit ''p'' None [])] ''c'' = None"
    and v: "habit_create_valid (sample_create (Some ''p''))"
    and c: "c_parent_id (sample_create (Some ''p'')) = Some ''p''"
    by (simp_all add: links_ok_def named_habit_def habit_repo_get_def habit_create_valid_def sample_create_def
        opt_len_le_def goal_ok_def)
  let ?s = "\<lparr>habit_repository = [(''p'', named_habit ''p'' None [])], log_repository = []\<rparr>"
  have l': "links_ok (habit_repository ?s)" using l by (simp only: service.select_convs)
  have f': "habit_repo_get (habit_repository ?s) ''c'' = None" using f by (simp only: service.select_convs)
  have n: "\<not> links_ok (habit_repository (snd (route_create_habit ''c'' 0 (sample_create (Some ''p'')) ?s)))"
    by (rule route_create_parent_unlinked [OF l' f' v c])
  show ?thesis by (rule conjI [OF l conjI [OF f conjI [OF v conjI [OF c n]]]])
qed

end
