(* ===== verification/Api.thy ===== *)
theory Api
  imports Controllers
begin

text \<open>
  The application as a state machine. \<open>build_app\<close> of \<open>src/app/main.py\<close> (and the
  in-memory branch of \<open>src/main.py\<close>) starts the service with two empty in-memory
  repositories; \<open>select_backend\<close> is the choice \<open>src/main.py\<close> makes from the
  environment. One request is one step of \<open>api_step\<close>, a rule per route that writes:
  create, update, delete, add-subhabit and record-log (the reading routes leave the
  state alone). The ids that \<open>uuid.uuid4()\<close> draws are fresh: not a key of the store.
  \<open>api_reachable\<close> holds of the states some sequence of requests leads to, and
  \<open>api_inv\<close> is the invariant proved of them by rule induction: the store is well
  formed, every stored habit satisfies the field constraints of \<open>HabitCreate\<close>
  (\<open>habit_valid\<close>), and the sub-habit relation is well founded, so the cascading
  delete always ends.
\<close>

subsection \<open>The code\<close>

definition build_app :: service where
  "build_app = \<lparr>habit_repository = [], log_repository = []\<rparr>"

definition py_lower_char :: "char \<Rightarrow> char" where
  "py_lower_char ch =
     (let n = (of_char ch :: nat) in if 65 \<le> n \<and> n \<le> 90 then char_of (n + 32) else ch)"

definition py_lower :: "string \<Rightarrow> string" where
  "py_lower s = map py_lower_char s"

definition os_getenv :: "(string \<Rightarrow> string option) \<Rightarrow> string \<Rightarrow> string \<Rightarrow> string" where
  "os_getenv env key fallback = (case env key of None \<Rightarrow> fallback | Some v \<Rightarrow> v)"

datatype backend = InMemoryBackend | SQLiteBackend string

definition select_backend :: "(string \<Rightarrow> string option) \<Rightarrow> backend" where
  "select_backend env =
     (let use_sqlite = (py_lower (os_getenv env ''USE_SQLITE'' ''false'') = ''true'') in
      if use_sqlite then SQLiteBackend (os_getenv env ''DB_PATH'' ''habits.db'') else InMemoryBackend)"

subsection \<open>Requests as steps\<close>

inductive api_step :: "service \<Rightarrow> service \<Rightarrow> bool" where
  create: "habit_repo_get (habit_repository s) fresh_id = None \<Longrightarrow>
     api_step s (snd (route_create_habit fresh_id now payload s))"
| update: "api_step s (snd (route_update_habit habit_id payload s))"
| delete: "route_delete_habit fuel habit_id s = Some (resp, s') \<Longrightarrow> api_step s s'"
| add_subhabit: "habit_repo_get (habit_repository s) fresh_id = None \<Longrightarrow>
     api_step s (snd (route_add_subhabit fresh_id now habit_id payload s))"
| record_log: "api_step s (snd (route_record_log fresh_id now habit_id payload s))"

inductive api_reachable :: "service \<Rightarrow> bool" where
  start: "api_reachable build_app"
| step: "api_reachable s \<Longrightarrow> api_step s t \<Longrightarrow> api_reachable t"

subsection \<open>Invariant\<close>

definition habit_valid :: "habit \<Rightarrow> bool" where
  "habit_valid h \<longleftrightarrow>
     1 \<le> length (h_name h) \<and> length (h_name h) \<le> 200 \<and> opt_len_le 1000 (h_description h) \<and>
     opt_len_le 100 (h_category h) \<and> goal_ok (h_goal h)"

definition habits_valid :: "habit_store \<Rightarrow> bool" where
  "habits_valid st \<longleftrightarrow> list_all (\<lambda>(k, h). habit_valid h) st"

definition api_inv :: "service \<Rightarrow> bool" where
  "api_inv s \<longleftrightarrow> habit_store_wf (habit_repository s) \<and> habits_valid (habit_repository s) \<and>
     wfp (subhabit_of (habit_repository s))"

text \<open>A reachable state: a habit \<open>a\<close> created and a sub-habit \<open>b\<close> added under it.\<close>

definition api_sample :: service where
  "api_sample = snd (route_add_subhabit ''b'' 0 ''a'' (sample_create None)
     (snd (route_create_habit ''a'' 0 (sample_create None) build_app)))"

subsection \<open>Lemmas\<close>

lemma select_backend_spec:
  "select_backend env =
     (case env ''USE_SQLITE'' of
        Some v \<Rightarrow> if py_lower v = ''true'' then SQLiteBackend (os_getenv env ''DB_PATH'' ''habits.db'')
                  else InMemoryBackend
      | None \<Rightarrow> InMemoryBackend)"
  by (simp add: select_backend_def os_getenv_def py_lower_def py_lower_char_def split: option.splits)

lemma select_backend_example:
  "select_backend (\<lambda>k. if k = ''USE_SQLITE'' then Some ''True'' else None) = SQLiteBackend ''habits.db'' \<and>
   select_backend (\<lambda>k. None) = InMemoryBackend"
  by code_simp

lemma route_create_store:
  "habit_repository (snd (route_create_habit fresh_id now p s)) =
     (if habit_create_valid p then habit_repo_add (new_habit fresh_id now p (c_parent_id p)) (habit_repository s)
      else habit_repository s)"
  by (simp add: route_create_habit_def create_habit_def Let_def)

lemma route_update_store:
  assumes "habit_store_wf (habit_repository s)"
  shows "habit_repository (snd (route_update_habit i u s)) =
     (case get_habit s i of
        Some h \<Rightarrow> if habit_update_valid u then habit_repo_add (apply_update u h) (habit_repository s)
                  else habit_repository s
      | None \<Rightarrow> habit_repository s)"
  using update_habit_Some [OF assms]
  by (cases "get_habit s i") (auto simp: route_update_habit_def update_habit_def get_habit_def)

lemma route_add_subhabit_store:
  assumes "habit_store_wf (habit_repository s)"
  shows "habit_repository (snd (route_add_subhabit fresh_id now i p s)) =
     (case get_habit s i of
        Some parent \<Rightarrow> if habit_create_valid p
          then habit_repo_add (parent\<lparr>h_subhabit_ids := h_subhabit_ids parent @ [fresh_id]\<rparr>)
                 (habit_repo_add (new_habit fresh_id now p (Some i)) (habit_repository s))
          else habit_repository s
      | None \<Rightarrow> habit_repository s)"
proof (cases "get_habit s i")
  case None
  then show ?thesis by (simp add: route_add_subhabit_def add_subhabit_def get_habit_def Let_def)
next
  case (Some parent)
  have sub: "(new_habit fresh_id now p (Some i))\<lparr>h_parent_id := Some i\<rparr> = new_habit fresh_id now p (Some i)"
    by (simp add: new_habit_def)
  show ?thesis
    using Some add_subhabit_Some [OF assms Some, of "new_habit fresh_id now p (Some i)"] sub
    by (simp add: route_add_subhabit_def Let_def new_habit_def)
qed

lemma route_record_log_store:
  "habit_repository (snd (route_record_log lid now i lc s)) = habit_repository s"
  by (simp add: route_record_log_def record_log_def Let_def split: option.splits prod.splits)

lemma habits_valid_get: "habits_valid st \<Longrightarrow> habit_repo_get st k = Some h \<Longrightarrow> habit_valid h"
  by (auto simp: habits_valid_def habit_repo_get_def list_all_iff dest: map_of_SomeD)

lemma habits_valid_add: "habits_valid st \<Longrightarrow> habit_valid h \<Longrightarrow> habits_valid (habit_repo_add h st)"
  unfolding habits_valid_def habit_repo_add_def by (induction st) auto

lemma habits_valid_delete: "habits_valid st \<Longrightarrow> habits_valid (habit_repo_delete k st)"
  by (auto simp: habits_valid_def habit_repo_delete_def AList.delete_eq list_all_iff)

lemma new_habit_valid: "habit_create_valid p \<Longrightarrow> habit_valid (new_habit fresh_id now p par)"
  by (simp add: habit_create_valid_def habit_valid_def new_habit_def)

lemma apply_update_valid:
  "habit_update_valid u \<Longrightarrow> habit_valid h \<Longrightarrow> habit_valid (apply_update u h)"
  by (auto simp: habit_update_valid_def habit_valid_def apply_update_def Let_def opt_len_le_def
      goal_ok_def split: option.splits)

lemma habit_valid_subhabits [simp]:
  "habit_valid (h\<lparr>h_subhabit_ids := xs\<rparr>) = habit_valid h"
  by (simp add: habit_valid_def)

lemma subhabit_of_add_le:
  assumes "h_subhabit_ids h = [] \<or>
    (\<exists>h0. habit_repo_get st (h_id h) = Some h0 \<and> set (h_subhabit_ids h) \<subseteq> set (h_subhabit_ids h0))"
    and s: "subhabit_of (habit_repo_add h st) c p"
  shows "subhabit_of st c p"
proof (cases "p = h_id h")
  case True
  with s have c: "c \<in> set (h_subhabit_ids h)" by (simp add: subhabit_of_def)
  with assms(1) obtain h0 where "habit_repo_get st (h_id h) = Some h0" "c \<in> set (h_subhabit_ids h0)"
    by auto
  with True show ?thesis by (simp add: subhabit_of_def)
next
  case False
  with s show ?thesis by (simp add: subhabit_of_def)
qed

lemma subhabit_of_delete_le:
  "subhabit_of (habit_repo_delete k st) c p \<Longrightarrow> subhabit_of st c p"
  by (auto simp: subhabit_of_def split: if_splits option.splits)

lemma wfp_mono_store:
  "wfp (subhabit_of st) \<Longrightarrow> (\<And>c p. subhabit_of st' c p \<Longrightarrow> subhabit_of st c p) \<Longrightarrow> wfp (subhabit_of st')"
  unfolding wfp_def by (erule wf_subset) auto

lemma wfp_add_subhabit:
  assumes wf: "wfp (subhabit_of st)" and fresh: "habit_repo_get st f = None"
    and par: "habit_repo_get st p = Some parent" and pid: "h_id parent = p"
    and leaf: "h_id sub = f" "h_subhabit_ids sub = []"
  shows "wfp (subhabit_of (habit_repo_add (parent\<lparr>h_subhabit_ids := h_subhabit_ids parent @ [f]\<rparr>)
           (habit_repo_add sub st)))"
proof -
  let ?st1 = "habit_repo_add sub st"
  let ?st2 = "habit_repo_add (parent\<lparr>h_subhabit_ids := h_subhabit_ids parent @ [f]\<rparr>) ?st1"
  let ?R1 = "{(c, q). subhabit_of ?st1 c q}"
  have wf1: "wf ?R1"
    using wfp_mono_store [OF wf subhabit_of_add_le [of sub st]] leaf by (simp add: wfp_def)
  have noin: "(z, f) \<notin> ?R1" for z
    using leaf by (auto simp: subhabit_of_def)
  have "(p, f) \<notin> ?R1\<^sup>*"
  proof
    assume "(p, f) \<in> ?R1\<^sup>*"
    then show False
    proof (cases rule: rtranclE)
      case base
      with fresh par show False by simp
    next
      case (step z)
      with noin show False by blast
    qed
  qed
  with wf1 have "wf (insert (f, p) ?R1)" by (simp add: wf_insert)
  moreover have edge: "(c, q) \<in> insert (f, p) ?R1" if cq: "subhabit_of ?st2 c q" for c q
  proof (cases "q = p")
    case True
    with cq pid have "c \<in> set (h_subhabit_ids parent) \<or> c = f" by (auto simp: subhabit_of_def)
    then show ?thesis
    proof
      assume "c \<in> set (h_subhabit_ids parent)"
      then have "subhabit_of ?st1 c p"
        using par fresh leaf by (auto simp: subhabit_of_def)
      with True show ?thesis by simp
    next
      assume "c = f"
      with True show ?thesis by simp
    qed
  next
    case False
    with cq pid have "subhabit_of ?st1 c q" by (simp add: subhabit_of_def)
    then show ?thesis by simp
  qed
  then have "{(c, q). subhabit_of ?st2 c q} \<subseteq> insert (f, p) ?R1" by blast
  ultimately show ?thesis unfolding wfp_def by (rule wf_subset)
qed

lemma api_inv_start: "api_inv build_app"
  by (simp add: api_inv_def build_app_def habit_store_wf_def habits_valid_def subhabit_of_def
      habit_repo_get_def wfp_def)

lemma api_inv_delete:
  assumes "delete_habit n i s = Some (r, s')" and "api_inv s"
  shows "api_inv s'"
proof -
  have wf: "habit_store_wf (habit_repository s')"
    using delete_preserves(1) [of habit_store_wf, OF habit_store_wf_delete assms(1)] assms(2)
    by (simp add: api_inv_def)
  have valid: "habits_valid (habit_repository s')"
    using delete_preserves(1) [of habits_valid, OF habits_valid_delete assms(1)] assms(2)
    by (simp add: api_inv_def)
  have "wfp (subhabit_of (habit_repository s'))"
    using delete_preserves(1) [of "\<lambda>st. wfp (subhabit_of st)", OF _ assms(1)] assms(2)
      wfp_mono_store subhabit_of_delete_le
    by (simp add: api_inv_def)
  with wf valid show ?thesis by (simp add: api_inv_def)
qed

lemma api_step_inv: "api_step s t \<Longrightarrow> api_inv s \<Longrightarrow> api_inv t"
proof (induction rule: api_step.induct)
  case (create s fresh_id now payload)
  have leaf: "h_subhabit_ids (new_habit fresh_id now payload (c_parent_id payload)) = []"
    by (simp add: new_habit_def)
  show ?case
    using create.prems wfp_mono_store [OF _ subhabit_of_add_le [OF disjI1 [OF leaf]]]
    by (auto simp: api_inv_def route_create_store habit_store_wf_add habits_valid_add new_habit_valid)
next
  case (update s habit_id payload)
  then have wf: "habit_store_wf (habit_repository s)" by (simp add: api_inv_def)
  show ?case
  proof (cases "get_habit s habit_id")
    case None
    with update.prems show ?thesis by (simp add: api_inv_def route_update_store [OF wf])
  next
    case (Some h)
    then have g: "habit_repo_get (habit_repository s) (h_id (apply_update payload h)) = Some h"
      using habit_store_wf_get [OF wf] by (simp add: get_habit_def)
    have "habit_valid h" using update.prems g by (auto simp: api_inv_def dest: habits_valid_get)
    then show ?thesis
      using update.prems Some g wfp_mono_store [OF _ subhabit_of_add_le [of "apply_update payload h"]]
      by (auto simp: api_inv_def route_update_store [OF wf] habit_store_wf_add habits_valid_add
          apply_update_valid)
  qed
next
  case (delete fuel habit_id s resp s')
  then obtain r where d: "delete_habit fuel habit_id s = Some (r, s')"
    by (auto simp: route_delete_habit_def split: option.splits)
  show ?case by (rule api_inv_delete [OF d delete.prems])
next
  case (add_subhabit s fresh_id now habit_id payload)
  then have wf: "habit_store_wf (habit_repository s)" by (simp add: api_inv_def)
  show ?case
  proof (cases "get_habit s habit_id")
    case None
    with add_subhabit.prems show ?thesis by (simp add: api_inv_def route_add_subhabit_store [OF wf])
  next
    case (Some parent)
    then have par: "habit_repo_get (habit_repository s) habit_id = Some parent"
      by (simp add: get_habit_def)
    have pid: "h_id parent = habit_id" using habit_store_wf_get [OF wf par] .
    have pv: "habit_valid parent" using add_subhabit.prems par by (auto simp: api_inv_def dest: habits_valid_get)
    have wfp': "wfp (subhabit_of (habit_repo_add (parent\<lparr>h_subhabit_ids := h_subhabit_ids parent @ [fresh_id]\<rparr>)
        (habit_repo_add (new_habit fresh_id now payload (Some habit_id)) (habit_repository s))))"
      using add_subhabit.prems add_subhabit.hyps par pid
      by (intro wfp_add_subhabit) (simp_all add: api_inv_def new_habit_def)
    show ?thesis
      using add_subhabit.prems Some wfp' pv
      by (auto simp: api_inv_def route_add_subhabit_store [OF wf] habit_store_wf_add habits_valid_add
          new_habit_valid)
  qed
next
  case (record_log s fresh_id now habit_id payload)
  then show ?case by (simp add: api_inv_def route_record_log_store)
qed

lemma api_reachable_inv: "api_reachable s \<Longrightarrow> api_inv s"
proof (induction rule: api_reachable.induct)
  case start
  show ?case by (rule api_inv_start)
next
  case (step s t)
  then show ?case using api_step_inv by blast
qed

subsection \<open>Properties of the application\<close>

text \<open>
  C21. In every state reachable from \<open>build_app\<close> by requests, the habit store is
  well formed and its sub-habit relation is well founded: no request sequence through
  the HTTP routes creates a cycle of sub-habit ids.
\<close>

theorem api_reachable_store_wf:
  assumes "api_reachable s"
  shows "habit_store_wf (habit_repository s) \<and> wfp (subhabit_of (habit_repository s))"
  using api_reachable_inv [OF assms] by (simp add: api_inv_def)

text \<open>
  C22. In every reachable state each stored habit satisfies the field constraints of
  the schema: a name of 1 to 200 characters, a description of at most 1000, a category of
  at most 100, and a positive goal when there is one.
\<close>

theorem api_reachable_habits_valid:
  assumes "api_reachable s" and "habit_repo_get (habit_repository s) i = Some h"
  shows "habit_valid h"
  using api_reachable_inv [OF assms(1)] assms(2) by (auto simp: api_inv_def dest: habits_valid_get)

text \<open>
  C23. In every reachable state a \<open>DELETE /habits/{id}\<close> request completes: some
  recursion depth suffices for the cascading delete, whatever the id.
\<close>

theorem api_reachable_delete_completes:
  assumes "api_reachable s"
  shows "\<exists>n resp s'. route_delete_habit n i s = Some (resp, s')"
proof -
  have "wfp (subhabit_of (habit_repository s))"
    using api_reachable_inv [OF assms] by (simp add: api_inv_def)
  then obtain n where "delete_depth_ok n (habit_repository s) i"
    using delete_depth_ok_wf by blast
  then obtain r where "delete_habit n i s = Some r"
    using delete_returns_depth(1) by blast
  then have "route_delete_habit n i s = Some (handle_value_error 204 id (fst r), snd r)"
    by (simp add: route_delete_habit_def split: prod.splits)
  then show ?thesis by blast
qed

subsection \<open>Witnesses\<close>

lemma api_sample_reachable: "api_reachable api_sample"
proof -
  have r1: "api_reachable (snd (route_create_habit ''a'' 0 (sample_create None) build_app))"
    by (rule api_reachable.step [OF api_reachable.start api_step.create])
       (simp add: build_app_def habit_repo_get_def)
  have fresh: "habit_repo_get (habit_repository (snd (route_create_habit ''a'' 0 (sample_create None) build_app))) ''b'' = None"
    by (simp add: route_create_store build_app_def habit_create_valid_def sample_create_def
        opt_len_le_def goal_ok_def new_habit_def habit_repo_get_def habit_repo_add_def)
  show ?thesis
    unfolding api_sample_def by (rule api_reachable.step [OF r1 api_step.add_subhabit [OF fresh]])
qed

theorem api_reachable_store_wf_witness:
  "api_reachable api_sample \<and> habit_store_wf (habit_repository api_sample) \<and>
   wfp (subhabit_of (habit_repository api_sample))"
  using api_reachable_store_wf [OF api_sample_reachable] api_sample_reachable by blast

theorem api_reachable_habits_valid_witness:
  "api_reachable api_sample \<and> (\<exists>h. habit_repo_get (habit_repository api_sample) ''b'' = Some h \<and> habit_valid h)"
proof -
  obtain h where h: "habit_repo_get (habit_repository api_sample) ''b'' = Some h"
    by (simp add: api_sample_def route_create_habit_def route_add_subhabit_def habit_create_valid_def
        sample_create_def opt_len_le_def goal_ok_def new_habit_def create_habit_def add_subhabit_def
        build_app_def habit_repo_add_def habit_repo_get_def habit_repo_update_def Let_def)
  show ?thesis
    using api_reachable_habits_valid [OF api_sample_reachable h] api_sample_reachable h by blast
qed

theorem api_reachable_delete_completes_witness:
  "api_reachable api_sample \<and> (\<exists>n resp s'. route_delete_habit n ''a'' api_sample = Some (resp, s'))"
  using api_reachable_delete_completes [OF api_sample_reachable] api_sample_reachable by blast

end
