(* ===== verification/SQLite.thy ===== *)
theory SQLite
  imports Repository
begin

text \<open>
  The SQLite repositories of \<open>src/app/db/sqlite.py\<close>. The \<open>habits\<close> and \<open>logs\<close>
  tables are lists of rows in rowid order (the order \<open>SELECT *\<close> without
  \<open>ORDER BY\<close> returns them in); a row keeps the column values the code writes.
  \<open>json.dumps\<close>/\<open>json.loads\<close> of \<open>subhabit_ids\<close> and \<open>isoformat\<close>/\<open>fromisoformat\<close>
  of the timestamps are library round trips and are taken as identities, so those
  columns hold the list and the timestamp themselves. A date column holds the
  date's ordinal: \<open>date.isoformat()\<close> is the zero-padded \<open>YYYY-MM-DD\<close>, whose text
  order is the date order, so \<open>date >= ?\<close> and \<open>ORDER BY date\<close> compare dates. The
  type column holds \<open>HabitType.value\<close>, and reading it back through
  \<open>HabitType(text)\<close> can fail. \<open>ORDER BY date\<close> leaves the order of rows with the
  same date unspecified, so the query result is a relation: any date-sorted
  permutation of the selected rows. The in-memory store is the abstraction of a
  table, and the refinement lemmas below relate each SQL operation to the
  dictionary operation of \<open>Repository\<close>.
\<close>

subsection \<open>The code\<close>

record habit_row =
  r_id :: habit_id
  r_name :: string
  r_description :: "string option"
  r_category :: "string option"
  r_type :: string
  r_goal :: "real option"
  r_created_at :: timestamp
  r_parent_id :: "habit_id option"
  r_subhabit_ids :: "habit_id list"

record log_row =
  lr_id :: log_id
  lr_habit_id :: habit_id
  lr_date :: date
  lr_value :: "real option"
  lr_created_at :: timestamp

type_synonym habit_table = "habit_row list"
type_synonym log_table = "log_row list"

fun habit_type_value :: "habit_type \<Rightarrow> string" where
  "habit_type_value BOOLEAN = ''boolean''"
| "habit_type_value NUMERIC = ''numeric''"

definition habit_type_of_value :: "string \<Rightarrow> error + habit_type" where
  "habit_type_of_value v =
     (if v = ''boolean'' then Inr BOOLEAN
      else if v = ''numeric'' then Inr NUMERIC
      else Inl (InvalidHabitType v))"

definition habit_from_row :: "habit_row \<Rightarrow> error + habit" where
  "habit_from_row row =
     (case habit_type_of_value (r_type row) of
        Inl e \<Rightarrow> Inl e
      | Inr ty \<Rightarrow> Inr \<lparr>h_id = r_id row, h_name = r_name row, h_description = r_description row,
          h_category = r_category row, h_type = ty, h_goal = r_goal row,
          h_created_at = r_created_at row, h_parent_id = r_parent_id row,
          h_subhabit_ids = r_subhabit_ids row\<rparr>)"

definition habit_to_row :: "habit \<Rightarrow> habit_row" where
  "habit_to_row habit =
     \<lparr>r_id = h_id habit, r_name = h_name habit, r_description = h_description habit,
      r_category = h_category habit, r_type = habit_type_value (h_type habit), r_goal = h_goal habit,
      r_created_at = h_created_at habit, r_parent_id = h_parent_id habit,
      r_subhabit_ids = h_subhabit_ids habit\<rparr>"

definition sqlite_habit_add :: "habit \<Rightarrow> habit_table \<Rightarrow> error + habit_table" where
  "sqlite_habit_add habit table =
     (if h_id habit \<in> set (map r_id table) then Inl IntegrityError
      else Inr (table @ [habit_to_row habit]))"

definition sqlite_habit_get :: "habit_table \<Rightarrow> habit_id \<Rightarrow> error + habit option" where
  "sqlite_habit_get table habit_id =
     (case find (\<lambda>row. r_id row = habit_id) table of
        None \<Rightarrow> Inr None
      | Some row \<Rightarrow> (case habit_from_row row of Inl e \<Rightarrow> Inl e | Inr h \<Rightarrow> Inr (Some h)))"

fun sqlite_rows_to_habits :: "habit_table \<Rightarrow> error + habit list" where
  "sqlite_rows_to_habits [] = Inr []"
| "sqlite_rows_to_habits (row # rows) =
     (case habit_from_row row of
        Inl e \<Rightarrow> Inl e
      | Inr h \<Rightarrow> (case sqlite_rows_to_habits rows of Inl e \<Rightarrow> Inl e | Inr hs \<Rightarrow> Inr (h # hs)))"

definition sqlite_habit_list :: "habit_table \<Rightarrow> error + habit list" where
  "sqlite_habit_list table = sqlite_rows_to_habits table"

definition sqlite_habit_update :: "habit \<Rightarrow> habit_table \<Rightarrow> error + habit_table" where
  "sqlite_habit_update habit table =
     (let rowcount = length (filter (\<lambda>row. r_id row = h_id habit) table) in
      if rowcount = 0 then Inl HabitKeyError
      else Inr (map (\<lambda>row. if r_id row = h_id habit
                          then row\<lparr>r_name := h_name habit, r_description := h_description habit,
                                   r_category := h_category habit, r_goal := h_goal habit,
                                   r_subhabit_ids := h_subhabit_ids habit\<rparr>
                          else row) table))"

definition sqlite_habit_delete :: "habit_id \<Rightarrow> habit_table \<Rightarrow> habit_table" where
  "sqlite_habit_delete habit_id table = filter (\<lambda>row. r_id row \<noteq> habit_id) table"

definition log_from_row :: "log_row \<Rightarrow> log_entry" where
  "log_from_row row =
     \<lparr>l_id = lr_id row, l_habit_id = lr_habit_id row, l_date = lr_date row, l_value = lr_value row,
      l_created_at = lr_created_at row\<rparr>"

definition log_to_row :: "log_entry \<Rightarrow> log_row" where
  "log_to_row entry =
     \<lparr>lr_id = l_id entry, lr_habit_id = l_habit_id entry, lr_date = l_date entry,
      lr_value = l_value entry, lr_created_at = l_created_at entry\<rparr>"

definition sqlite_log_add :: "log_entry \<Rightarrow> log_table \<Rightarrow> error + log_table" where
  "sqlite_log_add entry table =
     (if l_id entry \<in> set (map lr_id table) then Inl IntegrityError
      else Inr (table @ [log_to_row entry]))"

definition sqlite_log_select ::
  "log_table \<Rightarrow> habit_id \<Rightarrow> date option \<Rightarrow> date option \<Rightarrow> log_row list" where
  "sqlite_log_select table habit_id start end_d =
     filter (\<lambda>row. lr_habit_id row = habit_id \<and>
                   (case start of None \<Rightarrow> True | Some s \<Rightarrow> s \<le> lr_date row) \<and>
                   (case end_d of None \<Rightarrow> True | Some e \<Rightarrow> lr_date row \<le> e)) table"

definition sqlite_order_by_date :: "log_row list \<Rightarrow> log_row list \<Rightarrow> bool" where
  "sqlite_order_by_date rows result \<longleftrightarrow>
     mset result = mset rows \<and> sorted (map lr_date result)"

definition sqlite_list_for_habit ::
  "log_table \<Rightarrow> habit_id \<Rightarrow> date option \<Rightarrow> date option \<Rightarrow> log_entry list \<Rightarrow> bool" where
  "sqlite_list_for_habit table habit_id start end_d result \<longleftrightarrow>
     sqlite_order_by_date (sqlite_log_select table habit_id start end_d) (map log_to_row result)"

definition sqlite_log_list_all :: "log_table \<Rightarrow> log_entry list" where
  "sqlite_log_list_all table = map log_from_row table"

subsection \<open>Abstraction and invariant\<close>

definition habit_table_wf :: "habit_table \<Rightarrow> bool" where
  "habit_table_wf table \<longleftrightarrow>
     distinct (map r_id table) \<and> list_all (\<lambda>row. r_type row \<in> {''boolean'', ''numeric''}) table"

definition abs_habit_table :: "habit_table \<Rightarrow> habit_store" where
  "abs_habit_table table =
     List.map_filter (\<lambda>row. case habit_from_row row of Inl _ \<Rightarrow> None | Inr h \<Rightarrow> Some (r_id row, h)) table"

definition abs_log_table :: "log_table \<Rightarrow> log_store" where
  "abs_log_table table = map log_from_row table"

text \<open>Fixtures: a log row of habit \<open>h\<close> on day 5, and a table with a parent and its child.\<close>

definition tie_log_row :: "log_id \<Rightarrow> log_row" where
  "tie_log_row i = \<lparr>lr_id = i, lr_habit_id = ''h'', lr_date = 5, lr_value = Some 1, lr_created_at = 0\<rparr>"

definition sample_habit_table :: habit_table where
  "sample_habit_table = [habit_to_row (named_habit ''a'' None [''b'']), habit_to_row (named_habit ''b'' (Some ''a'') [])]"

subsection \<open>Lemmas\<close>

lemma habit_type_value_roundtrip: "habit_type_of_value (habit_type_value t) = Inr t"
  by (cases t) (simp_all add: habit_type_of_value_def)

lemma habit_from_row_ok:
  assumes "r_type row \<in> {''boolean'', ''numeric''}"
  obtains h where "habit_from_row row = Inr h" "h_id h = r_id row"
  using assms by (auto simp: habit_from_row_def habit_type_of_value_def)

lemma abs_habit_table_Nil [simp]: "abs_habit_table [] = []"
  by (simp add: abs_habit_table_def List.map_filter_def)

lemma abs_habit_table_Cons:
  "habit_from_row row = Inr h \<Longrightarrow> abs_habit_table (row # rows) = (r_id row, h) # abs_habit_table rows"
  by (simp add: abs_habit_table_def List.map_filter_def)

lemma abs_habit_table_append:
  "abs_habit_table (xs @ ys) = abs_habit_table xs @ abs_habit_table ys"
  by (simp add: abs_habit_table_def List.map_filter_def)

lemma abs_habit_table_filter:
  "abs_habit_table (filter (\<lambda>row. r_id row \<noteq> i) rows) = AList.delete i (abs_habit_table rows)"
  by (induction rows) (auto simp: abs_habit_table_def List.map_filter_def AList.delete_eq split: sum.splits)

lemma abs_habit_table_keys:
  "habit_table_wf rows \<Longrightarrow> map fst (abs_habit_table rows) = map r_id rows"
proof (induction rows)
  case Nil
  then show ?case by simp
next
  case (Cons row rows)
  then have ty: "r_type row \<in> {''boolean'', ''numeric''}" and wf: "habit_table_wf rows"
    by (simp_all add: habit_table_wf_def)
  obtain h where "habit_from_row row = Inr h" using habit_from_row_ok [OF ty] by blast
  with Cons.IH wf show ?case by (simp add: abs_habit_table_Cons)
qed

lemma update_absent_append:
  "k \<notin> fst ` set al \<Longrightarrow> AList.update k v al = al @ [(k, v)]"
  by (induction al) auto

lemma r_id_habit_to_row [simp]: "r_id (habit_to_row h) = h_id h"
  by (simp add: habit_to_row_def)

lemma habit_from_to_row: "habit_from_row (habit_to_row h) = Inr h"
  by (simp add: habit_from_row_def habit_to_row_def habit_type_value_roundtrip)

lemma habit_to_from_row: "habit_from_row r = Inr h \<Longrightarrow> habit_to_row h = r"
  by (auto simp: habit_from_row_def habit_to_row_def habit_type_of_value_def split: if_splits)

lemma log_from_to_row [simp]: "log_from_row (log_to_row e) = e"
  by (simp add: log_from_row_def log_to_row_def)

lemma log_to_from_row [simp]: "log_to_row (log_from_row r) = r"
  by (simp add: log_from_row_def log_to_row_def)

lemma lr_date_log_to_row [simp]: "lr_date (log_to_row e) = l_date e"
  by (simp add: log_to_row_def)

lemma abs_habit_table_update:
  assumes "distinct (map r_id rows)" "list_all (\<lambda>row. r_type row \<in> {''boolean'', ''numeric''}) rows"
    and "map_of (abs_habit_table rows) (h_id h) = Some old"
  shows "abs_habit_table (map (\<lambda>row. if r_id row = h_id h
                          then row\<lparr>r_name := h_name h, r_description := h_description h,
                                   r_category := h_category h, r_goal := h_goal h,
                                   r_subhabit_ids := h_subhabit_ids h\<rparr>
                          else row) rows) =
    AList.update (h_id h) (h\<lparr>h_type := h_type old, h_created_at := h_created_at old,
      h_parent_id := h_parent_id old\<rparr>) (abs_habit_table rows)"
  using assms
proof (induction rows)
  case Nil
  then show ?case by simp
next
  case (Cons row rows)
  from Cons.prems have ty: "r_type row \<in> {''boolean'', ''numeric''}" by simp
  obtain hr where hr: "habit_from_row row = Inr hr" and hid: "h_id hr = r_id row"
    using habit_from_row_ok [OF ty] by blast
  show ?case
  proof (cases "r_id row = h_id h")
    case True
    with Cons.prems hr have old: "old = hr" by (simp add: abs_habit_table_Cons)
    have notin: "h_id h \<notin> set (map r_id rows)" using Cons.prems(1) True by auto
    have same: "map (\<lambda>row. if r_id row = h_id h
                          then row\<lparr>r_name := h_name h, r_description := h_description h,
                                   r_category := h_category h, r_goal := h_goal h,
                                   r_subhabit_ids := h_subhabit_ids h\<rparr>
                          else row) rows = rows"
    proof (rule map_idI)
      fix x assume "x \<in> set rows"
      with notin have "r_id x \<noteq> h_id h" by force
      then show "(if r_id x = h_id h then x\<lparr>r_name := h_name h, r_description := h_description h,
                                   r_category := h_category h, r_goal := h_goal h,
                                   r_subhabit_ids := h_subhabit_ids h\<rparr> else x) = x" by simp
    qed
    have "habit_from_row (row\<lparr>r_name := h_name h, r_description := h_description h,
                                   r_category := h_category h, r_goal := h_goal h,
                                   r_subhabit_ids := h_subhabit_ids h\<rparr>) =
      Inr (h\<lparr>h_type := h_type old, h_created_at := h_created_at old, h_parent_id := h_parent_id old\<rparr>)"
      using hr old True by (auto simp: habit_from_row_def split: sum.splits)
    then show ?thesis
      using True same hr by (simp add: abs_habit_table_Cons)
  next
    case False
    with Cons.prems hr have "map_of (abs_habit_table rows) (h_id h) = Some old"
      by (simp add: abs_habit_table_Cons)
    with Cons.IH Cons.prems False hr show ?thesis by (simp add: abs_habit_table_Cons)
  qed
qed

lemma sqlite_log_select_eq:
  "map log_from_row (sqlite_log_select table i start end_d) =
     filter (\<lambda>e. l_habit_id e = i \<and> in_window start end_d (l_date e)) (abs_log_table table)"
  by (induction table)
     (auto simp: sqlite_log_select_def abs_log_table_def in_window_def log_from_row_def split: option.splits)

lemma abs_habit_table_dom:
  assumes "habit_table_wf rows"
  shows "k \<in> set (map r_id rows) \<longleftrightarrow> habit_repo_get (abs_habit_table rows) k \<noteq> None"
  using habit_repo_dom [of k "abs_habit_table rows"] abs_habit_table_keys [OF assms]
  by (metis list.set_map)

lemma sqlite_habit_add_fresh:
  assumes "habit_table_wf rows" and "habit_repo_get (abs_habit_table rows) (h_id h) = None"
  shows "sqlite_habit_add h rows = Inr (rows @ [habit_to_row h]) \<and>
    habit_table_wf (rows @ [habit_to_row h]) \<and>
    abs_habit_table (rows @ [habit_to_row h]) = habit_repo_add h (abs_habit_table rows)"
proof -
  have notin: "h_id h \<notin> set (map r_id rows)" using abs_habit_table_dom [OF assms(1)] assms(2) by simp
  have ty: "r_type (habit_to_row h) \<in> {''boolean'', ''numeric''}"
    by (cases "h_type h") (simp_all add: habit_to_row_def)
  have wf': "habit_table_wf (rows @ [habit_to_row h])"
    using assms(1) notin ty by (simp add: habit_table_wf_def habit_to_row_def)
  have "abs_habit_table (rows @ [habit_to_row h]) = abs_habit_table rows @ [(h_id h, h)]"
    by (simp add: abs_habit_table_append abs_habit_table_Cons [OF habit_from_to_row])
  moreover have "h_id h \<notin> fst ` set (abs_habit_table rows)"
    using notin abs_habit_table_keys [OF assms(1)] by (metis list.set_map)
  ultimately have "abs_habit_table (rows @ [habit_to_row h]) = habit_repo_add h (abs_habit_table rows)"
    by (simp add: habit_repo_add_def update_absent_append)
  with notin wf' show ?thesis by (simp add: sqlite_habit_add_def)
qed

lemma sqlite_habit_update_missing:
  assumes "habit_table_wf rows" and "habit_repo_get (abs_habit_table rows) (h_id h) = None"
  shows "sqlite_habit_update h rows = Inl HabitKeyError \<and>
    habit_repo_update h (abs_habit_table rows) = Inl HabitKeyError"
proof -
  have "h_id h \<notin> set (map r_id rows)" using abs_habit_table_dom [OF assms(1)] assms(2) by simp
  then have "length (filter (\<lambda>row. r_id row = h_id h) rows) = 0"
    by (force simp: filter_empty_conv)
  with assms(2) show ?thesis by (simp add: sqlite_habit_update_def habit_repo_update_def habit_repo_dom)
qed

lemma sqlite_habit_update_present:
  assumes "habit_table_wf rows" and Some: "habit_repo_get (abs_habit_table rows) (h_id h) = Some old"
  shows "\<exists>rows'. sqlite_habit_update h rows = Inr rows' \<and> habit_table_wf rows' \<and>
       abs_habit_table rows' = habit_repo_add (h\<lparr>h_type := h_type old, h_created_at := h_created_at old,
         h_parent_id := h_parent_id old\<rparr>) (abs_habit_table rows)"
proof -
  from assms(1) have d: "distinct (map r_id rows)"
    and ty: "list_all (\<lambda>row. r_type row \<in> {''boolean'', ''numeric''}) rows"
    by (simp_all add: habit_table_wf_def)
  have keys: "h_id h \<in> set (map r_id rows)" using abs_habit_table_dom [OF assms(1)] Some by simp
  have cnt: "length (filter (\<lambda>row. r_id row = h_id h) rows) \<noteq> 0"
    using keys by (force simp: filter_empty_conv)
  have wf': "habit_table_wf (map (\<lambda>row. if r_id row = h_id h
                        then row\<lparr>r_name := h_name h, r_description := h_description h,
                                 r_category := h_category h, r_goal := h_goal h,
                                 r_subhabit_ids := h_subhabit_ids h\<rparr>
                        else row) rows)"
  proof -
    let ?f = "\<lambda>row. if r_id row = h_id h
                        then row\<lparr>r_name := h_name h, r_description := h_description h,
                                 r_category := h_category h, r_goal := h_goal h,
                                 r_subhabit_ids := h_subhabit_ids h\<rparr>
                        else row"
    have idf: "r_id (?f row) = r_id row" for row by simp
    have tyf: "r_type (?f row) = r_type row" for row by simp
    have ids: "map r_id (map ?f rows) = map r_id rows"
      by (simp only: map_map comp_def idf)
    have tys: "list_all (\<lambda>row. r_type row \<in> {''boolean'', ''numeric''}) (map ?f rows)"
      using ty by (simp only: list.pred_map comp_def tyf)
    show ?thesis
      unfolding habit_table_wf_def ids using d tys by blast
  qed
  show ?thesis
    using Some keys cnt wf' abs_habit_table_update [OF d ty, of h old]
    by (simp add: sqlite_habit_update_def habit_repo_get_def habit_repo_add_def)
qed

lemma abs_habit_table_ids: "list_all (\<lambda>(k, h). h_id h = k) (abs_habit_table rows)"
  by (induction rows)
     (auto simp: abs_habit_table_def List.map_filter_def habit_from_row_def split: sum.splits)

lemma abs_habit_table_store_wf: "habit_table_wf rows \<Longrightarrow> habit_store_wf (abs_habit_table rows)"
  using abs_habit_table_keys [of rows] abs_habit_table_ids [of rows]
  by (simp add: habit_store_wf_def habit_table_wf_def)

lemma sqlite_habit_update_agrees:
  assumes wf: "habit_table_wf rows" and old: "habit_repo_get (abs_habit_table rows) (h_id h) = Some old"
    and same: "h_type h = h_type old" "h_created_at h = h_created_at old" "h_parent_id h = h_parent_id old"
  shows "\<exists>rows'. sqlite_habit_update h rows = Inr rows' \<and> habit_table_wf rows' \<and>
      abs_habit_table rows' = habit_repo_add h (abs_habit_table rows) \<and>
      habit_repo_update h (abs_habit_table rows) = Inr (habit_repo_add h (abs_habit_table rows))"
proof -
  from same have "h\<lparr>h_type := h_type old, h_created_at := h_created_at old, h_parent_id := h_parent_id old\<rparr> = h"
    by simp
  with sqlite_habit_update_present [OF wf old] old show ?thesis
    by (simp add: habit_repo_update_Inr)
qed

lemma sqlite_log_select_rows:
  "sqlite_log_select table i start end_d = map log_to_row (filter (\<lambda>e. l_habit_id e = i \<and> in_window start end_d (l_date e))
      (abs_log_table table))"
  using arg_cong [OF sqlite_log_select_eq [of table i start end_d], of "map log_to_row"]
  by (simp add: comp_def)

lemma sqlite_list_for_habit_memory:
  "sqlite_list_for_habit table i start end_d (list_for_habit (abs_log_table table) i start end_d)"
  by (simp add: sqlite_list_for_habit_def sqlite_order_by_date_def list_for_habit_eq sqlite_log_select_rows
      comp_def mset_map)

lemma sqlite_list_for_habit_sound:
  assumes r: "sqlite_list_for_habit table i start end_d result"
  shows "mset result = mset (list_for_habit (abs_log_table table) i start end_d) \<and> sorted (map l_date result)"
proof -
  let ?sel = "sqlite_log_select table i start end_d"
  from r have m: "mset (map log_to_row result) = mset ?sel" and s: "sorted (map lr_date (map log_to_row result))"
    by (simp_all add: sqlite_list_for_habit_def sqlite_order_by_date_def)
  from arg_cong [OF m, of "image_mset log_from_row"] have "mset result = mset (map log_from_row ?sel)"
    by (simp add: multiset.map_comp comp_def)
  then have "mset result = mset (list_for_habit (abs_log_table table) i start end_d)"
    by (simp add: sqlite_log_select_eq list_for_habit_eq)
  moreover from s have "sorted (map l_date result)" by (simp add: comp_def)
  ultimately show ?thesis ..
qed

subsection \<open>Properties of the SQLite repositories\<close>

text \<open>
  Rows round-trip: reading back the row \<open>add\<close> writes for a habit gives the
  habit, a row that reads as a habit is the row of that habit, and the same holds for
  log entries and log rows.
\<close>

lemma habit_row_roundtrip:
  "habit_from_row (habit_to_row h) = Inr h \<and> (habit_from_row r = Inr h' \<longrightarrow> habit_to_row h' = r) \<and>
   log_from_row (log_to_row e) = e \<and> log_to_row (log_from_row lr) = lr"
  by (simp add: habit_from_to_row habit_to_from_row)

text \<open>
  On a well-formed table (distinct ids, valid type texts) the SQLite
  \<open>get\<close> returns what the in-memory \<open>get\<close> returns on the abstracted store.
\<close>

lemma sqlite_habit_get_refines:
  assumes "habit_table_wf rows"
  shows "sqlite_habit_get rows i = Inr (habit_repo_get (abs_habit_table rows) i)"
  using assms
proof (induction rows)
  case Nil
  then show ?case by (simp add: sqlite_habit_get_def habit_repo_get_def)
next
  case (Cons row rows)
  then have ty: "r_type row \<in> {''boolean'', ''numeric''}" and wf: "habit_table_wf rows"
    by (simp_all add: habit_table_wf_def)
  obtain h where h: "habit_from_row row = Inr h" using habit_from_row_ok [OF ty] by blast
  show ?case
    using Cons.IH [OF wf] h
    by (simp add: sqlite_habit_get_def habit_repo_get_def abs_habit_table_Cons)
qed

text \<open>
  On a well-formed table the SQLite \<open>list\<close> returns the in-memory
  \<open>list\<close> of the abstracted store, in rowid order.
\<close>

lemma sqlite_habit_list_refines:
  assumes "habit_table_wf rows"
  shows "sqlite_habit_list rows = Inr (habit_repo_list (abs_habit_table rows))"
  using assms
proof (induction rows)
  case Nil
  then show ?case by (simp add: sqlite_habit_list_def habit_repo_list_def)
next
  case (Cons row rows)
  then have ty: "r_type row \<in> {''boolean'', ''numeric''}" and wf: "habit_table_wf rows"
    by (simp_all add: habit_table_wf_def)
  obtain h where h: "habit_from_row row = Inr h" using habit_from_row_ok [OF ty] by blast
  show ?case
    using Cons.IH [OF wf] h
    by (simp add: sqlite_habit_list_def habit_repo_list_def abs_habit_table_Cons)
qed

text \<open>
  C24. The SQLite \<open>add\<close> raises \<open>IntegrityError\<close> exactly when the id is already
  stored, where the in-memory \<open>add\<close> overwrites; on a new id it appends a row, keeps
  the table well formed, and its abstraction is the in-memory \<open>add\<close>.
\<close>

theorem sqlite_habit_add_refines:
  assumes "habit_table_wf rows"
  shows "case sqlite_habit_add h rows of
     Inl e \<Rightarrow> e = IntegrityError \<and> habit_repo_get (abs_habit_table rows) (h_id h) \<noteq> None
   | Inr rows' \<Rightarrow> habit_table_wf rows' \<and>
       abs_habit_table rows' = habit_repo_add h (abs_habit_table rows) \<and>
       habit_repo_get (abs_habit_table rows) (h_id h) = None"
proof (cases "habit_repo_get (abs_habit_table rows) (h_id h)")
  case None
  with sqlite_habit_add_fresh [OF assms None] show ?thesis by simp
next
  case (Some old)
  then have "h_id h \<in> set (map r_id rows)" using abs_habit_table_dom [OF assms] by simp
  with Some show ?thesis by (simp add: sqlite_habit_add_def)
qed

text \<open>
  C25. The SQLite \<open>update\<close> raises \<open>KeyError\<close> exactly when the in-memory one
  does; otherwise it keeps the table well formed and its abstraction is the in-memory
  \<open>update\<close> of the habit with type, creation time and parent taken from the stored
  row (its \<open>SET\<close> clause writes only name, description, category, goal and
  sub-habit ids).
\<close>

theorem sqlite_habit_update_refines:
  assumes "habit_table_wf rows"
  shows "case habit_repo_get (abs_habit_table rows) (h_id h) of
     None \<Rightarrow> sqlite_habit_update h rows = Inl HabitKeyError \<and>
             habit_repo_update h (abs_habit_table rows) = Inl HabitKeyError
   | Some old \<Rightarrow> (\<exists>rows'. sqlite_habit_update h rows = Inr rows' \<and> habit_table_wf rows' \<and>
       abs_habit_table rows' = habit_repo_add (h\<lparr>h_type := h_type old, h_created_at := h_created_at old,
         h_parent_id := h_parent_id old\<rparr>) (abs_habit_table rows))"
  using sqlite_habit_update_missing [OF assms] sqlite_habit_update_present [OF assms]
  by (cases "habit_repo_get (abs_habit_table rows) (h_id h)") simp_all

text \<open>
  The SQLite \<open>delete\<close> keeps the table well formed and its abstraction is the
  in-memory \<open>delete\<close>.
\<close>

lemma sqlite_habit_delete_refines:
  assumes "habit_table_wf rows"
  shows "habit_table_wf (sqlite_habit_delete i rows) \<and>
    abs_habit_table (sqlite_habit_delete i rows) = habit_repo_delete i (abs_habit_table rows)"
  using assms
  by (auto simp: sqlite_habit_delete_def habit_repo_delete_def abs_habit_table_filter
      habit_table_wf_def distinct_map_filter list_all_iff)

text \<open>
  C29. The in-memory \<open>list_for_habit\<close> result is one of the results the SQL query
  with \<open>ORDER BY date\<close> may return, and every such result holds the same entries and
  is sorted by date.
\<close>

theorem sqlite_list_for_habit_refines:
  "sqlite_list_for_habit table i start end_d (list_for_habit (abs_log_table table) i start end_d) \<and>
   (sqlite_list_for_habit table i start end_d result \<longrightarrow>
      mset result = mset (list_for_habit (abs_log_table table) i start end_d) \<and> sorted (map l_date result))"
  using sqlite_list_for_habit_memory sqlite_list_for_habit_sound by blast

text \<open>
  The two log backends can disagree on the order of entries of the same date: the
  SQL query may return two same-day entries in the reverse of the in-memory order.
\<close>

lemma sqlite_ties_unordered:
  "sqlite_list_for_habit [tie_log_row ''1'', tie_log_row ''2''] ''h'' None None
     (rev (list_for_habit (abs_log_table [tie_log_row ''1'', tie_log_row ''2'']) ''h'' None None)) \<and>
   rev (list_for_habit (abs_log_table [tie_log_row ''1'', tie_log_row ''2'']) ''h'' None None) \<noteq>
     list_for_habit (abs_log_table [tie_log_row ''1'', tie_log_row ''2'']) ''h'' None None"
  by (simp add: sqlite_list_for_habit_def sqlite_order_by_date_def sqlite_log_select_def
      list_for_habit_def abs_log_table_def tie_log_row_def log_from_row_def log_to_row_def
      add_mset_commute)

subsection \<open>Witnesses\<close>

lemma sample_habit_table_wf: "habit_table_wf sample_habit_table"
  by (simp add: habit_table_wf_def sample_habit_table_def habit_to_row_def named_habit_def)

lemma sample_abs: "abs_habit_table sample_habit_table =
    [(''a'', named_habit ''a'' None [''b'']), (''b'', named_habit ''b'' (Some ''a'') [])]"
  by (simp add: sample_habit_table_def abs_habit_table_Cons [OF habit_from_to_row] named_habit_def)

lemma sqlite_habit_get_refines_example:
  "habit_table_wf sample_habit_table \<and>
   sqlite_habit_get sample_habit_table ''b'' = Inr (Some (named_habit ''b'' (Some ''a'') []))"
  using sqlite_habit_get_refines [OF sample_habit_table_wf, of "''b''"] sample_habit_table_wf sample_abs
  by (simp add: habit_repo_get_def)

lemma sqlite_habit_list_refines_example:
  "habit_table_wf sample_habit_table \<and>
   sqlite_habit_list sample_habit_table = Inr [named_habit ''a'' None [''b''], named_habit ''b'' (Some ''a'') []]"
  using sqlite_habit_list_refines [OF sample_habit_table_wf] sample_habit_table_wf sample_abs
  by (simp add: habit_repo_list_def)

theorem sqlite_habit_add_refines_witness:
  "habit_table_wf sample_habit_table \<and>
   sqlite_habit_add (named_habit ''a'' None []) sample_habit_table = Inl IntegrityError \<and>
   habit_repo_get (abs_habit_table sample_habit_table) ''a'' \<noteq> None"
proof -
  have "sqlite_habit_add (named_habit ''a'' None []) sample_habit_table = Inl IntegrityError"
    by (simp add: sqlite_habit_add_def sample_habit_table_def named_habit_def)
  then show ?thesis
    using sqlite_habit_add_refines [OF sample_habit_table_wf, of "named_habit ''a'' None []"]
      sample_habit_table_wf
    by (simp add: named_habit_def)
qed

theorem sqlite_habit_update_refines_witness:
  "habit_table_wf sample_habit_table \<and>
   (\<exists>rows'. sqlite_habit_update ((named_habit ''b'' None [])\<lparr>h_name := ''run''\<rparr>) sample_habit_table = Inr rows' \<and>
      habit_repo_get (abs_habit_table rows') ''b'' = Some ((named_habit ''b'' (Some ''a'') [])\<lparr>h_name := ''run''\<rparr>))"
proof -
  have g: "habit_repo_get (abs_habit_table sample_habit_table) ''b'' = Some (named_habit ''b'' (Some ''a'') [])"
    by (simp add: sample_abs habit_repo_get_def)
  show ?thesis
    using sqlite_habit_update_refines [OF sample_habit_table_wf, of "(named_habit ''b'' None [])\<lparr>h_name := ''run''\<rparr>"]
      sample_habit_table_wf g
    by (auto simp: named_habit_def)
qed

lemma sqlite_habit_delete_refines_example:
  "habit_table_wf sample_habit_table \<and>
   abs_habit_table (sqlite_habit_delete ''a'' sample_habit_table) = [(''b'', named_habit ''b'' (Some ''a'') [])]"
  using sqlite_habit_delete_refines [OF sample_habit_table_wf, of "''a''"] sample_habit_table_wf sample_abs
  by (simp add: habit_repo_delete_def)

theorem sqlite_list_for_habit_refines_witness:
  "sqlite_list_for_habit [tie_log_row ''1''] ''h'' None None [log_from_row (tie_log_row ''1'')] \<and>
   sorted (map l_date [log_from_row (tie_log_row ''1'')])"
proof -
  have r: "sqlite_list_for_habit [tie_log_row ''1''] ''h'' None None [log_from_row (tie_log_row ''1'')]"
    by (simp add: sqlite_list_for_habit_def sqlite_order_by_date_def sqlite_log_select_def tie_log_row_def)
  show ?thesis
    using sqlite_list_for_habit_refines [of "[tie_log_row ''1'']" "''h''" None None "[log_from_row (tie_log_row ''1'')]"] r
    by blast
qed

lemma habit_row_roundtrip_witness:
  "habit_from_row (habit_to_row (named_habit ''a'' None [])) = Inr (named_habit ''a'' None []) \<and>
   habit_to_row (named_habit ''a'' None []) = habit_to_row (named_habit ''a'' None [])"
  using habit_row_roundtrip [of "named_habit ''a'' None []" "habit_to_row (named_habit ''a'' None [])"
      "named_habit ''a'' None []"] by blast

end
