(* ===== verification/RepoInterface.thy ===== *)
theory RepoInterface
  imports SQLite
begin

text \<open>
  The \<open>HabitRepository\<close> protocol of \<open>src/app/db/repository.py\<close> as an interface: a
  datatype of its five operations and a result type, one step function per
  implementation (\<open>InMemoryHabitRepository\<close>, \<open>SQLiteHabitRepository\<close>), and
  \<open>repo_run\<close>, which runs a sequence of operations on any implementation and stops
  at the first exception, keeping the writes made before it. The generic simulation
  lemma is stated over the implementation's state type; its instance relates whole runs
  of the two implementations through the abstraction \<open>abs_habit_table\<close>.
\<close>

subsection \<open>The code\<close>

datatype habit_repo_op =
    RepoAdd habit
  | RepoGet habit_id
  | RepoList
  | RepoUpdate habit
  | RepoDelete habit_id

datatype habit_repo_result = Done | Found "habit option" | Listed "habit list"

definition mem_habit_step :: "habit_repo_op \<Rightarrow> habit_store \<Rightarrow> (error + habit_repo_result) \<times> habit_store" where
  "mem_habit_step op st =
     (case op of
        RepoAdd h \<Rightarrow> (Inr Done, habit_repo_add h st)
      | RepoGet i \<Rightarrow> (Inr (Found (habit_repo_get st i)), st)
      | RepoList \<Rightarrow> (Inr (Listed (habit_repo_list st)), st)
      | RepoUpdate h \<Rightarrow> (case habit_repo_update h st of Inl e \<Rightarrow> (Inl e, st) | Inr st' \<Rightarrow> (Inr Done, st'))
      | RepoDelete i \<Rightarrow> (Inr Done, habit_repo_delete i st))"

definition sqlite_habit_step :: "habit_repo_op \<Rightarrow> habit_table \<Rightarrow> (error + habit_repo_result) \<times> habit_table" where
  "sqlite_habit_step op t =
     (case op of
        RepoAdd h \<Rightarrow> (case sqlite_habit_add h t of Inl e \<Rightarrow> (Inl e, t) | Inr t' \<Rightarrow> (Inr Done, t'))
      | RepoGet i \<Rightarrow> (case sqlite_habit_get t i of Inl e \<Rightarrow> (Inl e, t) | Inr r \<Rightarrow> (Inr (Found r), t))
      | RepoList \<Rightarrow> (case sqlite_habit_list t of Inl e \<Rightarrow> (Inl e, t) | Inr hs \<Rightarrow> (Inr (Listed hs), t))
      | RepoUpdate h \<Rightarrow> (case sqlite_habit_update h t of Inl e \<Rightarrow> (Inl e, t) | Inr t' \<Rightarrow> (Inr Done, t'))
      | RepoDelete i \<Rightarrow> (Inr Done, sqlite_habit_delete i t))"

fun repo_run :: "('op \<Rightarrow> 's \<Rightarrow> (error + 'r) \<times> 's) \<Rightarrow> 'op list \<Rightarrow> 's \<Rightarrow> (error + 'r list) \<times> 's" where
  "repo_run step [] s = (Inr [], s)"
| "repo_run step (op # ops) s =
     (case step op s of
        (Inl e, s') \<Rightarrow> (Inl e, s')
      | (Inr r, s') \<Rightarrow>
          (case repo_run step ops s' of
             (Inl e, s'') \<Rightarrow> (Inl e, s'')
           | (Inr rs, s'') \<Rightarrow> (Inr (r # rs), s'')))"

subsection \<open>Specification: the operations the two implementations agree on\<close>

text \<open>
  \<open>habit_op_agrees op st\<close>: the operation is one on which the SQL implementation
  behaves as the dictionary: an \<open>add\<close> of an id not yet stored, an \<open>update\<close> that
  keeps the stored type, creation time and parent (the columns its \<open>SET\<close> omits), and
  every read and delete. \<open>run_agrees\<close> asks it of every operation a run performs, in
  the state the run has reached.
\<close>

definition habit_op_agrees :: "habit_repo_op \<Rightarrow> habit_store \<Rightarrow> bool" where
  "habit_op_agrees op st =
     (case op of
        RepoAdd h \<Rightarrow> habit_repo_get st (h_id h) = None
      | RepoUpdate h \<Rightarrow> (case habit_repo_get st (h_id h) of
            None \<Rightarrow> True
          | Some old \<Rightarrow> h_type h = h_type old \<and> h_created_at h = h_created_at old \<and>
                        h_parent_id h = h_parent_id old)
      | _ \<Rightarrow> True)"

fun run_agrees ::
  "('op \<Rightarrow> 's \<Rightarrow> (error + 'r) \<times> 's) \<Rightarrow> ('op \<Rightarrow> 's \<Rightarrow> bool) \<Rightarrow> 'op list \<Rightarrow> 's \<Rightarrow> bool" where
  "run_agrees step ok [] s = True"
| "run_agrees step ok (op # ops) s =
     (ok op s \<and> (case step op s of (Inl _, _) \<Rightarrow> True | (Inr _, s') \<Rightarrow> run_agrees step ok ops s'))"

text \<open>A run of every operation on the sample table of \<open>SQLite\<close>.\<close>

definition sample_ops :: "habit_repo_op list" where
  "sample_ops = [RepoAdd (named_habit ''c'' None []),
     RepoUpdate ((named_habit ''b'' (Some ''a'') [])\<lparr>h_name := ''run''\<rparr>),
     RepoGet ''b'', RepoDelete ''a'', RepoList]"

subsection \<open>Lemmas\<close>

lemma repo_run_simulation:
  assumes sim: "\<And>op s r s'. invar s \<Longrightarrow> ok op (abstr s) \<Longrightarrow> step2 op s = (r, s') \<Longrightarrow>
      step1 op (abstr s) = (r, abstr s') \<and> invar s'"
  shows "invar s \<Longrightarrow> run_agrees step1 ok ops (abstr s) \<Longrightarrow> repo_run step2 ops s = (r, s') \<Longrightarrow>
      repo_run step1 ops (abstr s) = (r, abstr s') \<and> invar s'"
proof (induction ops arbitrary: s r s')
  case Nil
  then show ?case by simp
next
  case (Cons op ops)
  obtain r1 s1 where st: "step2 op s = (r1, s1)" by (cases "step2 op s")
  from Cons.prems(2) have ok: "ok op (abstr s)" by simp
  from sim [OF Cons.prems(1) ok st] have st1: "step1 op (abstr s) = (r1, abstr s1)" and inv1: "invar s1"
    by simp_all
  show ?case
  proof (cases r1)
    case (Inl e)
    with Cons.prems(3) st st1 inv1 show ?thesis by simp
  next
    case (Inr x)
    note r1 = this
    obtain r2 s2 where rr: "repo_run step2 ops s1 = (r2, s2)" by (cases "repo_run step2 ops s1")
    from Cons.prems(2) st1 r1 have ok2: "run_agrees step1 ok ops (abstr s1)" by simp
    from Cons.IH [OF inv1 ok2 rr] have IH: "repo_run step1 ops (abstr s1) = (r2, abstr s2)" "invar s2"
      by simp_all
    show ?thesis
    proof (cases r2)
      case (Inl e)
      with Cons.prems(3) st r1 rr have "r = Inl e" "s' = s2" by simp_all
      with st1 r1 IH Inl show ?thesis by simp
    next
      case (Inr rs)
      with Cons.prems(3) st r1 rr have "r = Inr (x # rs)" "s' = s2" by simp_all
      with st1 r1 IH Inr show ?thesis by simp
    qed
  qed
qed

lemma sqlite_habit_step_refines:
  assumes "habit_table_wf t" and "habit_op_agrees op (abs_habit_table t)"
    and "sqlite_habit_step op t = (r, t')"
  shows "mem_habit_step op (abs_habit_table t) = (r, abs_habit_table t') \<and> habit_table_wf t'"
proof (cases op)
  case (RepoAdd h)
  then show ?thesis
    using assms sqlite_habit_add_fresh [OF assms(1), of h]
    by (auto simp: habit_op_agrees_def sqlite_habit_step_def mem_habit_step_def)
next
  case (RepoGet i)
  then show ?thesis
    using assms sqlite_habit_get_refines [OF assms(1), of i]
    by (auto simp: sqlite_habit_step_def mem_habit_step_def)
next
  case RepoList
  then show ?thesis
    using assms sqlite_habit_list_refines [OF assms(1)]
    by (auto simp: sqlite_habit_step_def mem_habit_step_def)
next
  case (RepoUpdate h)
  show ?thesis
  proof (cases "habit_repo_get (abs_habit_table t) (h_id h)")
    case None
    then show ?thesis
      using assms RepoUpdate sqlite_habit_update_missing [OF assms(1) None]
      by (auto simp: sqlite_habit_step_def mem_habit_step_def)
  next
    case (Some old)
    with assms(2) RepoUpdate have "h_type h = h_type old" "h_created_at h = h_created_at old"
        "h_parent_id h = h_parent_id old" by (simp_all add: habit_op_agrees_def)
    from sqlite_habit_update_agrees [OF assms(1) Some this] assms(3) RepoUpdate show ?thesis
      by (auto simp: sqlite_habit_step_def mem_habit_step_def)
  qed
next
  case (RepoDelete i)
  then show ?thesis
    using assms sqlite_habit_delete_refines [OF assms(1), of i]
    by (auto simp: sqlite_habit_step_def mem_habit_step_def)
qed

subsection \<open>Properties of the interface\<close>

text \<open>
  C26. A run of habit-repository operations on a well-formed SQLite table gives the same
  results, and an abstraction of the same final store, as the run on the in-memory
  dictionary, as long as no \<open>add\<close> reuses a stored id and no \<open>update\<close> changes the
  type, creation time or parent: the two implementations of \<open>HabitRepository\<close> are
  interchangeable for such runs, exceptions included.
\<close>

theorem sqlite_run_refines_memory:
  assumes "habit_table_wf t"
    and "run_agrees mem_habit_step habit_op_agrees ops (abs_habit_table t)"
    and "repo_run sqlite_habit_step ops t = (r, t')"
  shows "repo_run mem_habit_step ops (abs_habit_table t) = (r, abs_habit_table t') \<and> habit_table_wf t'"
  using repo_run_simulation [of habit_table_wf habit_op_agrees abs_habit_table sqlite_habit_step
      mem_habit_step, OF sqlite_habit_step_refines] assms
  by blast

subsection \<open>Witnesses\<close>

theorem sqlite_run_refines_memory_witness:
  "habit_table_wf sample_habit_table \<and>
   run_agrees mem_habit_step habit_op_agrees sample_ops (abs_habit_table sample_habit_table) \<and>
   repo_run mem_habit_step sample_ops (abs_habit_table sample_habit_table) =
     (fst (repo_run sqlite_habit_step sample_ops sample_habit_table),
      abs_habit_table (snd (repo_run sqlite_habit_step sample_ops sample_habit_table)))"
proof -
  have ag: "run_agrees mem_habit_step habit_op_agrees sample_ops (abs_habit_table sample_habit_table)"
    by (simp add: sample_abs sample_ops_def mem_habit_step_def habit_op_agrees_def habit_repo_get_def
        habit_repo_add_def habit_repo_update_def habit_repo_delete_def named_habit_def)
  show ?thesis
    using sqlite_run_refines_memory [OF sample_habit_table_wf ag surjective_pairing] sample_habit_table_wf ag
    by simp
qed

end
