(* ===== verification/LogInterface.thy ===== *)
theory LogInterface
  imports RepoInterface
begin

text \<open>
  The \<open>LogRepository\<close> protocol of \<open>src/app/db/repository.py\<close> as an interface, in the
  style of \<open>RepoInterface\<close>: a datatype of its three operations, the in-memory
  implementation as a step function, and the SQLite implementation as a step
  relation, because \<open>ORDER BY date\<close> lets the database return same-date rows in any
  order. \<open>run_rel\<close> runs a sequence of operations through a step relation, stopping
  at the first exception. Two generic lemmas relate runs of a relational
  implementation to runs of a functional one (every run of the first is matched,
  up to a relation on results, and every run of the second is possible in the first);
  their instance shows that the SQLite log repository refines the in-memory one up to
  the order of same-date entries, for runs whose log ids are fresh.
\<close>

subsection \<open>The code\<close>

datatype log_repo_op =
    LogAdd log_entry
  | LogListForHabit habit_id "date option" "date option"
  | LogListAll

datatype log_repo_result = LogDone | LogListed "log_entry list"

definition mem_log_step :: "log_repo_op \<Rightarrow> log_store \<Rightarrow> (error + log_repo_result) \<times> log_store" where
  "mem_log_step op st =
     (case op of
        LogAdd entry \<Rightarrow> (Inr LogDone, log_repo_add entry st)
      | LogListForHabit i start end_d \<Rightarrow> (Inr (LogListed (list_for_habit st i start end_d)), st)
      | LogListAll \<Rightarrow> (Inr (LogListed (log_repo_list_all st)), st))"

inductive sqlite_log_step :: "log_repo_op \<Rightarrow> log_table \<Rightarrow> (error + log_repo_result) \<times> log_table \<Rightarrow> bool" where
  sqlite_log_step_add_err:
    "sqlite_log_add entry t = Inl e \<Longrightarrow> sqlite_log_step (LogAdd entry) t (Inl e, t)"
| sqlite_log_step_add:
    "sqlite_log_add entry t = Inr t' \<Longrightarrow> sqlite_log_step (LogAdd entry) t (Inr LogDone, t')"
| sqlite_log_step_list:
    "sqlite_list_for_habit t i start end_d result \<Longrightarrow>
     sqlite_log_step (LogListForHabit i start end_d) t (Inr (LogListed result), t)"
| sqlite_log_step_all:
    "sqlite_log_step LogListAll t (Inr (LogListed (sqlite_log_list_all t)), t)"

inductive_cases sqlite_log_step_AddE: "sqlite_log_step (LogAdd entry) t p"
inductive_cases sqlite_log_step_ListE: "sqlite_log_step (LogListForHabit i start end_d) t p"
inductive_cases sqlite_log_step_AllE: "sqlite_log_step LogListAll t p"

inductive run_rel ::
  "('op \<Rightarrow> 's \<Rightarrow> (error + 'r) \<times> 's \<Rightarrow> bool) \<Rightarrow> 'op list \<Rightarrow> 's \<Rightarrow> (error + 'r list) \<times> 's \<Rightarrow> bool"
  for step where
  run_rel_nil: "run_rel step [] s (Inr [], s)"
| run_rel_err: "step op s (Inl e, s') \<Longrightarrow> run_rel step (op # ops) s (Inl e, s')"
| run_rel_later_err:
    "step op s (Inr r, s') \<Longrightarrow> run_rel step ops s' (Inl e, s'') \<Longrightarrow>
     run_rel step (op # ops) s (Inl e, s'')"
| run_rel_ok:
    "step op s (Inr r, s') \<Longrightarrow> run_rel step ops s' (Inr rs, s'') \<Longrightarrow>
     run_rel step (op # ops) s (Inr (r # rs), s'')"

inductive_cases run_rel_ConsE: "run_rel step (op # ops) s p"

subsection \<open>Specification\<close>

text \<open>
  A log table is well formed when its primary key is unique. The in-memory and SQL
  implementations agree on a log operation when an \<open>add\<close> uses an id not yet
  stored (the service draws it from \<open>uuid4\<close>); list results are matched as multisets,
  since the SQL order of same-date entries is unspecified.
\<close>

definition log_table_wf :: "log_table \<Rightarrow> bool" where
  "log_table_wf t \<longleftrightarrow> distinct (map lr_id t)"

definition log_op_agrees :: "log_repo_op \<Rightarrow> log_store \<Rightarrow> bool" where
  "log_op_agrees op st = (case op of LogAdd entry \<Rightarrow> l_id entry \<notin> l_id ` set st | _ \<Rightarrow> True)"

fun log_result_equiv :: "log_repo_result \<Rightarrow> log_repo_result \<Rightarrow> bool" where
  "log_result_equiv LogDone LogDone = True"
| "log_result_equiv (LogListed xs) (LogListed ys) = (mset xs = mset ys)"
| "log_result_equiv _ _ = False"

text \<open>A run on a one-row log table: a second same-day entry, a listing of the habit, a full listing.\<close>

definition sample_log_ops :: "log_repo_op list" where
  "sample_log_ops = [LogAdd (log_from_row (tie_log_row ''2'')), LogListForHabit ''h'' None None, LogListAll]"

subsection \<open>Lemmas\<close>

lemma run_rel_repo_run: "run_rel (\<lambda>op s p. step op s = p) ops s p \<longleftrightarrow> repo_run step ops s = p"
proof
  assume "run_rel (\<lambda>op s p. step op s = p) ops s p"
  then show "repo_run step ops s = p"
    by (induction rule: run_rel.induct) auto
next
  assume "repo_run step ops s = p"
  then show "run_rel (\<lambda>op s p. step op s = p) ops s p"
  proof (induction ops arbitrary: s p)
    case Nil
    then show ?case by (auto intro: run_rel_nil)
  next
    case (Cons op ops)
    show ?case
    proof (cases "step op s")
      case (Pair r s1)
      show ?thesis
      proof (cases r)
        case (Inl e)
        with Cons.prems Pair show ?thesis by (auto intro: run_rel_err)
      next
        case (Inr x)
        obtain r2 s2 where rr: "repo_run step ops s1 = (r2, s2)" by (cases "repo_run step ops s1")
        with Cons.IH have IH: "run_rel (\<lambda>op s p. step op s = p) ops s1 (r2, s2)" by blast
        show ?thesis
        proof (cases r2)
          case (Inl e)
          with Cons.prems Pair Inr rr IH show ?thesis by (auto intro: run_rel_later_err)
        next
          case (Inr rs)
          with Cons.prems Pair \<open>r = Inr x\<close> rr IH show ?thesis by (auto intro: run_rel_ok)
        qed
      qed
    qed
  qed
qed

text \<open>
  Soundness of a relational implementation: every run it can make is matched by the
  run of the functional one from the abstract state, with results related by \<open>R\<close>
  and the same final state under the abstraction.
\<close>

lemma run_rel_simulation:
  assumes sim: "\<And>op s r s'. invar s \<Longrightarrow> ok op (abstr s) \<Longrightarrow> rstep op s (r, s') \<Longrightarrow>
      \<exists>r1. fstep op (abstr s) = (r1, abstr s') \<and> rel_sum (=) R r1 r \<and> invar s'"
  shows "run_rel rstep ops s p \<Longrightarrow> invar s \<Longrightarrow> run_agrees fstep ok ops (abstr s) \<Longrightarrow>
      \<exists>r1. repo_run fstep ops (abstr s) = (r1, abstr (snd p)) \<and>
           rel_sum (=) (list_all2 R) r1 (fst p) \<and> invar (snd p)"
proof (induction rule: run_rel.induct)
  case (run_rel_nil s)
  then show ?case by simp
next
  case (run_rel_err op s e s' ops)
  then obtain r1 where "fstep op (abstr s) = (r1, abstr s')" "rel_sum (=) R r1 (Inl e)" "invar s'"
    using sim by fastforce
  then show ?case by (auto elim: rel_sum.cases)
next
  case (run_rel_later_err op s r s' ops e s'')
  then obtain r1 where st: "fstep op (abstr s) = (r1, abstr s')" "rel_sum (=) R r1 (Inr r)" "invar s'"
    using sim by fastforce
  then obtain x where x: "r1 = Inr x" by (auto elim: rel_sum.cases)
  with run_rel_later_err.prems st have "run_agrees fstep ok ops (abstr s')" by simp
  with run_rel_later_err.IH st obtain r2 where
    "repo_run fstep ops (abstr s') = (r2, abstr s'')" "rel_sum (=) (list_all2 R) r2 (Inl e)" "invar s''"
    by auto
  with st x show ?case by (auto elim: rel_sum.cases)
next
  case (run_rel_ok op s r s' ops rs s'')
  then obtain r1 where st: "fstep op (abstr s) = (r1, abstr s')" "rel_sum (=) R r1 (Inr r)" "invar s'"
    using sim by fastforce
  then obtain x where x: "r1 = Inr x" "R x r" by (auto elim: rel_sum.cases)
  with run_rel_ok.prems st have "run_agrees fstep ok ops (abstr s')" by simp
  with run_rel_ok.IH st obtain r2 where
    "repo_run fstep ops (abstr s') = (r2, abstr s'')" "rel_sum (=) (list_all2 R) r2 (Inr rs)" "invar s''"
    by auto
  with st x show ?case by (auto elim!: rel_sum.cases)
qed

text \<open>
  Completeness: every run of the functional implementation from the abstract state is
  a run the relational implementation can make, with the same results.
\<close>

lemma run_rel_complete:
  assumes comp: "\<And>op s r1 s1. invar s \<Longrightarrow> ok op (abstr s) \<Longrightarrow> fstep op (abstr s) = (r1, s1) \<Longrightarrow>
      \<exists>s'. rstep op s (r1, s') \<and> abstr s' = s1 \<and> invar s'"
  shows "invar s \<Longrightarrow> run_agrees fstep ok ops (abstr s) \<Longrightarrow>
      \<exists>s'. run_rel rstep ops s (fst (repo_run fstep ops (abstr s)), s') \<and>
           abstr s' = snd (repo_run fstep ops (abstr s)) \<and> invar s'"
proof (induction ops arbitrary: s)
  case Nil
  then show ?case by (auto intro: run_rel_nil)
next
  case (Cons op ops)
  obtain r1 s1 where st1: "fstep op (abstr s) = (r1, s1)" by (cases "fstep op (abstr s)")
  from Cons.prems have ok: "ok op (abstr s)" by simp
  from comp [OF Cons.prems(1) ok st1] obtain s' where
    st2: "rstep op s (r1, s')" "abstr s' = s1" "invar s'" by blast
  show ?case
  proof (cases r1)
    case (Inl e)
    with st1 st2 show ?thesis by (auto intro: run_rel_err)
  next
    case (Inr x)
    with Cons.prems st1 st2 have "run_agrees fstep ok ops (abstr s')" by simp
    from Cons.IH [OF st2(3) this] obtain s'' where
      IH: "run_rel rstep ops s' (fst (repo_run fstep ops (abstr s')), s'')"
        "abstr s'' = snd (repo_run fstep ops (abstr s'))" "invar s''" by blast
    from st2(1) Inr have step: "rstep op s (Inr x, s')" by simp
    show ?thesis
    proof (cases "repo_run fstep ops (abstr s')")
      case (Pair r2 st')
      show ?thesis
      proof (cases r2)
        case (Inl e)
        with IH Pair have "run_rel rstep ops s' (Inl e, s'')" by simp
        from run_rel_later_err [OF step this] IH Pair Inl st1 st2 \<open>r1 = Inr x\<close> show ?thesis by auto
      next
        case (Inr rs)
        with IH Pair have "run_rel rstep ops s' (Inr rs, s'')" by simp
        from run_rel_ok [OF step this] IH Pair Inr st1 st2 \<open>r1 = Inr x\<close> show ?thesis by auto
      qed
    qed
  qed
qed

text \<open>
  The same for two relational implementations: every run of the concrete one is
  matched by a run of the abstract one from the abstract state.
\<close>

lemma run_rel_refines:
  assumes sim: "\<And>op s r s'. invar s \<Longrightarrow> rstep op s (r, s') \<Longrightarrow>
      \<exists>r1. astep op (abstr s) (r1, abstr s') \<and> rel_sum (=) R r1 r \<and> invar s'"
  shows "run_rel rstep ops s p \<Longrightarrow> invar s \<Longrightarrow>
      \<exists>r1. run_rel astep ops (abstr s) (r1, abstr (snd p)) \<and> rel_sum (=) (list_all2 R) r1 (fst p) \<and>
           invar (snd p)"
proof (induction rule: run_rel.induct)
  case (run_rel_nil s)
  then show ?case by (auto intro: run_rel.run_rel_nil)
next
  case (run_rel_err op s e s' ops)
  then obtain r1 where "astep op (abstr s) (r1, abstr s')" "rel_sum (=) R r1 (Inl e)" "invar s'"
    using sim by blast
  then show ?case by (auto elim!: rel_sum.cases intro: run_rel.run_rel_err)
next
  case (run_rel_later_err op s r s' ops e s'')
  then obtain r1 where st: "astep op (abstr s) (r1, abstr s')" "rel_sum (=) R r1 (Inr r)" "invar s'"
    using sim by blast
  then obtain x where x: "r1 = Inr x" by (auto elim: rel_sum.cases)
  from run_rel_later_err.IH [OF st(3)] obtain r2 where
    "run_rel astep ops (abstr s') (r2, abstr s'')" "rel_sum (=) (list_all2 R) r2 (Inl e)" "invar s''"
    by auto
  with st x show ?case by (auto elim!: rel_sum.cases intro: run_rel.run_rel_later_err)
next
  case (run_rel_ok op s r s' ops rs s'')
  then obtain r1 where st: "astep op (abstr s) (r1, abstr s')" "rel_sum (=) R r1 (Inr r)" "invar s'"
    using sim by blast
  then obtain x where x: "r1 = Inr x" "R x r" by (auto elim: rel_sum.cases)
  from run_rel_ok.IH [OF st(3)] obtain r2 where
    "run_rel astep ops (abstr s') (r2, abstr s'')" "rel_sum (=) (list_all2 R) r2 (Inr rs)" "invar s''"
    by auto
  with st x show ?case by (auto elim!: rel_sum.cases intro: run_rel.run_rel_ok)
qed

lemma abs_log_table_ids [simp]: "l_id ` set (abs_log_table t) = lr_id ` set t"
  by (auto simp: abs_log_table_def log_from_row_def image_iff)

lemma abs_log_table_snoc: "abs_log_table (t @ [log_to_row e]) = log_repo_add e (abs_log_table t)"
  by (simp add: abs_log_table_def log_repo_add_def)

lemma sqlite_log_list_all_abs [simp]: "sqlite_log_list_all t = log_repo_list_all (abs_log_table t)"
  by (simp add: sqlite_log_list_all_def log_repo_list_all_def abs_log_table_def)

lemma sqlite_log_add_fresh:
  assumes "l_id e \<notin> l_id ` set (abs_log_table t)"
  shows "sqlite_log_add e t = Inr (t @ [log_to_row e])"
    and "log_table_wf t \<Longrightarrow> log_table_wf (t @ [log_to_row e])"
  using assms by (simp_all add: sqlite_log_add_def log_table_wf_def log_to_row_def)

lemma sqlite_log_step_sound:
  assumes wf: "log_table_wf t" and ok: "log_op_agrees op (abs_log_table t)"
    and st: "sqlite_log_step op t (r, t')"
  shows "\<exists>r1. mem_log_step op (abs_log_table t) = (r1, abs_log_table t') \<and>
      rel_sum (=) log_result_equiv r1 r \<and> log_table_wf t'"
  using st
proof cases
  case (sqlite_log_step_add_err entry e)
  with ok sqlite_log_add_fresh(1) [of entry t] show ?thesis by (simp add: log_op_agrees_def)
next
  case (sqlite_log_step_add entry)
  with ok wf sqlite_log_add_fresh [of entry t] show ?thesis
    by (simp add: log_op_agrees_def mem_log_step_def abs_log_table_snoc)
next
  case (sqlite_log_step_list i start end_d result)
  with wf sqlite_list_for_habit_sound [of t i start end_d result] show ?thesis
    by (simp add: mem_log_step_def)
next
  case sqlite_log_step_all
  with wf show ?thesis by (simp add: mem_log_step_def)
qed

lemma sqlite_log_step_complete:
  assumes wf: "log_table_wf t" and ok: "log_op_agrees op (abs_log_table t)"
    and st: "mem_log_step op (abs_log_table t) = (r1, s1)"
  shows "\<exists>t'. sqlite_log_step op t (r1, t') \<and> abs_log_table t' = s1 \<and> log_table_wf t'"
proof (cases op)
  case (LogAdd entry)
  with ok wf st sqlite_log_add_fresh [of entry t] show ?thesis
    by (auto simp: log_op_agrees_def mem_log_step_def abs_log_table_snoc intro: sqlite_log_step_add)
next
  case (LogListForHabit i start end_d)
  with wf st sqlite_list_for_habit_memory [of t i start end_d] show ?thesis
    by (auto simp: mem_log_step_def intro: sqlite_log_step_list)
next
  case LogListAll
  with wf st sqlite_log_step_all [of t] show ?thesis by (auto simp: mem_log_step_def)
qed

subsection \<open>Properties of the interface\<close>

text \<open>
  C27. The SQLite log repository refines the in-memory one: on a table with a unique
  primary key and a run of \<open>LogRepository\<close> operations whose \<open>add\<close>s use fresh ids,
  the in-memory run is a run the SQL implementation can make (same results, the same
  log list under the abstraction), and every run the SQL implementation can make
  gives the in-memory results up to the order of entries within each listing, the
  same final log list, and a table whose primary key is still unique.
\<close>

theorem sqlite_log_run_refines_memory:
  assumes wf: "log_table_wf t"
    and ag: "run_agrees mem_log_step log_op_agrees ops (abs_log_table t)"
  shows "(\<exists>t'. run_rel sqlite_log_step ops t (fst (repo_run mem_log_step ops (abs_log_table t)), t') \<and>
            abs_log_table t' = snd (repo_run mem_log_step ops (abs_log_table t))) \<and>
         (\<forall>r t'. run_rel sqlite_log_step ops t (r, t') \<longrightarrow>
            rel_sum (=) (list_all2 log_result_equiv) (fst (repo_run mem_log_step ops (abs_log_table t))) r \<and>
            snd (repo_run mem_log_step ops (abs_log_table t)) = abs_log_table t' \<and> log_table_wf t')"
proof
  show "\<exists>t'. run_rel sqlite_log_step ops t (fst (repo_run mem_log_step ops (abs_log_table t)), t') \<and>
            abs_log_table t' = snd (repo_run mem_log_step ops (abs_log_table t))"
    using run_rel_complete [where invar = log_table_wf and ok = log_op_agrees and abstr = abs_log_table
        and fstep = mem_log_step and rstep = sqlite_log_step, OF sqlite_log_step_complete, OF _ _ _ wf ag] by blast
  show "\<forall>r t'. run_rel sqlite_log_step ops t (r, t') \<longrightarrow>
            rel_sum (=) (list_all2 log_result_equiv) (fst (repo_run mem_log_step ops (abs_log_table t))) r \<and>
            snd (repo_run mem_log_step ops (abs_log_table t)) = abs_log_table t' \<and> log_table_wf t'"
  proof (intro allI impI)
    fix r t'
    assume "run_rel sqlite_log_step ops t (r, t')"
    from run_rel_simulation [where invar = log_table_wf and ok = log_op_agrees and rstep = sqlite_log_step
        and fstep = mem_log_step and abstr = abs_log_table and R = log_result_equiv,
        OF sqlite_log_step_sound, OF _ _ _ this wf ag]
    show "rel_sum (=) (list_all2 log_result_equiv) (fst (repo_run mem_log_step ops (abs_log_table t))) r \<and>
            snd (repo_run mem_log_step ops (abs_log_table t)) = abs_log_table t' \<and> log_table_wf t'"
      by (metis fst_conv snd_conv)
  qed
qed

subsection \<open>Witnesses\<close>

theorem sqlite_log_run_refines_memory_witness:
  "log_table_wf [tie_log_row ''1''] \<and>
   run_agrees mem_log_step log_op_agrees sample_log_ops (abs_log_table [tie_log_row ''1'']) \<and>
   (\<exists>t'. run_rel sqlite_log_step sample_log_ops [tie_log_row ''1'']
      (fst (repo_run mem_log_step sample_log_ops (abs_log_table [tie_log_row ''1''])), t') \<and>
      abs_log_table t' = snd (repo_run mem_log_step sample_log_ops (abs_log_table [tie_log_row ''1''])))"
proof -
  have wf: "log_table_wf [tie_log_row ''1'']" by (simp add: log_table_wf_def tie_log_row_def)
  have ag: "run_agrees mem_log_step log_op_agrees sample_log_ops (abs_log_table [tie_log_row ''1''])"
    by (simp add: sample_log_ops_def mem_log_step_def log_op_agrees_def abs_log_table_def
        tie_log_row_def log_from_row_def log_repo_add_def)
  show ?thesis using sqlite_log_run_refines_memory [OF wf ag] wf ag by blast
qed

end
