(* ===== verification/Backend.thy ===== *)
theory Backend
  imports Api LogInterface
begin

text \<open>
  \<open>HabitService\<close> of \<open>src/app/core/services.py\<close> written against the repository
  protocols of \<open>src/app/db/repository.py\<close> rather than against one implementation:
  \<open>repositories\<close> is a record of the protocol methods over an abstract habit state
  \<open>'h\<close> and log state \<open>'l\<close>, and the \<open>svc_\<close> functions are the service methods
  over any such record, with every exception an implementation may raise passed on.
  Two instances are the two backends \<open>src/main.py\<close> chooses between:
  \<open>mem_repositories\<close> (the dictionary and list of \<open>src/app/db/in_memory.py\<close>) and
  \<open>sqlite_repositories order\<close> (the two tables of \<open>src/app/db/sqlite.py\<close>), where
  \<open>order\<close> is the order in which the database returns the rows of
  \<open>ORDER BY date\<close>, any order that sorts them by date.
  The lemmas show that the in-memory instance is the service model of \<open>Services\<close>,
  and that on well-formed tables the SQLite instance gives the same results and the
  same stores under the abstraction, except that log listings may order same-date
  entries differently and a numeric average, summed in that order, may differ in
  its value.
\<close>

subsection \<open>The code\<close>

record ('h, 'l) repositories =
  impl_add :: "habit \<Rightarrow> 'h \<Rightarrow> error + 'h"
  impl_get :: "'h \<Rightarrow> habit_id \<Rightarrow> error + habit option"
  impl_list :: "'h \<Rightarrow> error + habit list"
  impl_update :: "habit \<Rightarrow> 'h \<Rightarrow> error + 'h"
  impl_delete :: "habit_id \<Rightarrow> 'h \<Rightarrow> 'h"
  impl_log_add :: "log_entry \<Rightarrow> 'l \<Rightarrow> error + 'l"
  impl_list_for_habit :: "'l \<Rightarrow> habit_id \<Rightarrow> date option \<Rightarrow> date option \<Rightarrow> log_entry list"
  impl_list_all :: "'l \<Rightarrow> log_entry list"

record ('h, 'l) service_state =
  sv_habits :: 'h
  sv_logs :: 'l

definition svc_create_habit ::
  "('h, 'l) repositories \<Rightarrow> habit \<Rightarrow> ('h, 'l) service_state \<Rightarrow> (error + unit) \<times> ('h, 'l) service_state" where
  "svc_create_habit R habit s =
     (case impl_add R habit (sv_habits s) of
        Inl e \<Rightarrow> (Inl e, s)
      | Inr hs \<Rightarrow> (Inr (), s\<lparr>sv_habits := hs\<rparr>))"

definition svc_get_habit ::
  "('h, 'l) repositories \<Rightarrow> ('h, 'l) service_state \<Rightarrow> habit_id \<Rightarrow> error + habit option" where
  "svc_get_habit R s habit_id = impl_get R (sv_habits s) habit_id"

definition svc_list_habits :: "('h, 'l) repositories \<Rightarrow> ('h, 'l) service_state \<Rightarrow> error + habit list" where
  "svc_list_habits R s = impl_list R (sv_habits s)"

definition svc_update_habit ::
  "('h, 'l) repositories \<Rightarrow> habit_id \<Rightarrow> habit_update \<Rightarrow> ('h, 'l) service_state
   \<Rightarrow> (error + habit) \<times> ('h, 'l) service_state" where
  "svc_update_habit R habit_id update s =
     (case impl_get R (sv_habits s) habit_id of
        Inl e \<Rightarrow> (Inl e, s)
      | Inr None \<Rightarrow> (Inl HabitNotFound, s)
      | Inr (Some habit) \<Rightarrow>
          (let habit' = apply_update update habit in
           case impl_update R habit' (sv_habits s) of
             Inl e \<Rightarrow> (Inl e, s)
           | Inr hs \<Rightarrow> (Inr habit', s\<lparr>sv_habits := hs\<rparr>)))"

fun svc_delete_habit ::
  "('h, 'l) repositories \<Rightarrow> nat \<Rightarrow> habit_id \<Rightarrow> ('h, 'l) service_state
   \<Rightarrow> ((error + unit) \<times> ('h, 'l) service_state) option"
and svc_delete_subhabits ::
  "('h, 'l) repositories \<Rightarrow> nat \<Rightarrow> habit_id list \<Rightarrow> ('h, 'l) service_state
   \<Rightarrow> ((error + unit) \<times> ('h, 'l) service_state) option"
where
  "svc_delete_habit R 0 habit_id s = None"
| "svc_delete_habit R (Suc n) habit_id s =
     (case impl_get R (sv_habits s) habit_id of
        Inl e \<Rightarrow> Some (Inl e, s)
      | Inr None \<Rightarrow> Some (Inl HabitNotFound, s)
      | Inr (Some habit) \<Rightarrow>
          (case svc_delete_subhabits R n (h_subhabit_ids habit) s of
             None \<Rightarrow> None
           | Some (Inl e, s') \<Rightarrow> Some (Inl e, s')
           | Some (Inr (), s') \<Rightarrow> Some (Inr (), s'\<lparr>sv_habits := impl_delete R habit_id (sv_habits s')\<rparr>)))"
| "svc_delete_subhabits R n [] s = Some (Inr (), s)"
| "svc_delete_subhabits R n (subhabit_id # rest) s =
     (case svc_delete_habit R n subhabit_id s of
        None \<Rightarrow> None
      | Some (Inl e, s') \<Rightarrow> Some (Inl e, s')
      | Some (Inr (), s') \<Rightarrow> svc_delete_subhabits R n rest s')"

definition svc_add_subhabit ::
  "('h, 'l) repositories \<Rightarrow> habit_id \<Rightarrow> habit \<Rightarrow> ('h, 'l) service_state
   \<Rightarrow> (error + unit) \<times> ('h, 'l) service_state" where
  "svc_add_subhabit R parent_id subhabit s =
     (case impl_get R (sv_habits s) parent_id of
        Inl e \<Rightarrow> (Inl e, s)
      | Inr None \<Rightarrow> (Inl ParentHabitNotFound, s)
      | Inr (Some parent) \<Rightarrow>
          (let subhabit' = subhabit\<lparr>h_parent_id := Some parent_id\<rparr>;
               parent' = parent\<lparr>h_subhabit_ids := h_subhabit_ids parent @ [h_id subhabit]\<rparr>
           in case impl_add R subhabit' (sv_habits s) of
                Inl e \<Rightarrow> (Inl e, s)
              | Inr hs1 \<Rightarrow>
                  (case impl_update R parent' hs1 of
                     Inl e \<Rightarrow> (Inl e, s\<lparr>sv_habits := hs1\<rparr>)
                   | Inr hs2 \<Rightarrow> (Inr (), s\<lparr>sv_habits := hs2\<rparr>))))"

definition svc_record_log ::
  "('h, 'l) repositories \<Rightarrow> log_id \<Rightarrow> timestamp \<Rightarrow> habit_id \<Rightarrow> date \<Rightarrow> real option
   \<Rightarrow> ('h, 'l) service_state \<Rightarrow> (error + log_entry) \<times> ('h, 'l) service_state" where
  "svc_record_log R fresh_id now habit_id log_date value s =
     (case impl_get R (sv_habits s) habit_id of
        Inl e \<Rightarrow> (Inl e, s)
      | Inr None \<Rightarrow> (Inl HabitNotFound, s)
      | Inr (Some _) \<Rightarrow>
          (let entry = log_entry_create fresh_id now habit_id log_date value in
           case impl_log_add R entry (sv_logs s) of
             Inl e \<Rightarrow> (Inl e, s)
           | Inr ls \<Rightarrow> (Inr entry, s\<lparr>sv_logs := ls\<rparr>)))"

definition svc_get_logs ::
  "('h, 'l) repositories \<Rightarrow> ('h, 'l) service_state \<Rightarrow> habit_id \<Rightarrow> date option \<Rightarrow> date option
   \<Rightarrow> error + log_entry list" where
  "svc_get_logs R s habit_id start end_d =
     (case impl_get R (sv_habits s) habit_id of
        Inl e \<Rightarrow> Inl e
      | Inr None \<Rightarrow> Inl HabitNotFound
      | Inr (Some _) \<Rightarrow> Inr (impl_list_for_habit R (sv_logs s) habit_id start end_d))"

definition svc_get_statistics ::
  "('h, 'l) repositories \<Rightarrow> calculator_registry \<Rightarrow> date \<Rightarrow> ('h, 'l) service_state \<Rightarrow> habit_id
   \<Rightarrow> date option \<Rightarrow> date option \<Rightarrow> error + habit_id \<times> statistics_result" where
  "svc_get_statistics R calculators today s habit_id start end_d =
     (case impl_get R (sv_habits s) habit_id of
        Inl e \<Rightarrow> Inl e
      | Inr None \<Rightarrow> Inl HabitNotFound
      | Inr (Some habit) \<Rightarrow>
          (let logs = impl_list_for_habit R (sv_logs s) habit_id start end_d in
           case get_calculator calculators (h_type habit) of
             Inl e \<Rightarrow> Inl e
           | Inr calculator \<Rightarrow>
               (case calculate calculator today habit logs start end_d of
                  Inl e \<Rightarrow> Inl e
                | Inr result \<Rightarrow> Inr (habit_id, result))))"

subsection \<open>The two backends\<close>

definition mem_repositories :: "(habit_store, log_store) repositories" where
  "mem_repositories =
     \<lparr>impl_add = (\<lambda>h st. Inr (habit_repo_add h st)), impl_get = (\<lambda>st i. Inr (habit_repo_get st i)),
      impl_list = (\<lambda>st. Inr (habit_repo_list st)), impl_update = habit_repo_update,
      impl_delete = habit_repo_delete, impl_log_add = (\<lambda>e st. Inr (log_repo_add e st)),
      impl_list_for_habit = list_for_habit, impl_list_all = log_repo_list_all\<rparr>"

definition sqlite_repositories ::
  "(log_row list \<Rightarrow> log_row list) \<Rightarrow> (habit_table, log_table) repositories" where
  "sqlite_repositories order =
     \<lparr>impl_add = sqlite_habit_add, impl_get = sqlite_habit_get, impl_list = sqlite_habit_list,
      impl_update = sqlite_habit_update, impl_delete = sqlite_habit_delete,
      impl_log_add = sqlite_log_add,
      impl_list_for_habit = (\<lambda>t i start end_d. map log_from_row (order (sqlite_log_select t i start end_d))),
      impl_list_all = sqlite_log_list_all\<rparr>"

text \<open>
  \<open>order\<close> is an order the database may choose for \<open>ORDER BY date\<close> when it returns
  the rows in an order that \<open>sqlite_order_by_date\<close> admits.
\<close>

definition order_by_date_ok :: "(log_row list \<Rightarrow> log_row list) \<Rightarrow> bool" where
  "order_by_date_ok order \<longleftrightarrow> (\<forall>rows. sqlite_order_by_date rows (order rows))"

text \<open>The in-memory service state of \<open>Services\<close> as a state of the generic service.\<close>

definition svc_of :: "service \<Rightarrow> (habit_store, log_store) service_state" where
  "svc_of s = \<lparr>sv_habits = habit_repository s, sv_logs = log_repository s\<rparr>"

text \<open>
  Opening the backend: \<open>SQLiteHabitRepository(db_path)\<close> and
  \<open>SQLiteLogRepository(db_path)\<close> run \<open>CREATE TABLE IF NOT EXISTS\<close> (and create two
  indexes, which change no query result), so a table already in the database file keeps
  its rows and a missing one starts empty. \<open>None\<close> is a file without the table.
\<close>

definition sqlite_create_table :: "'r list option \<Rightarrow> 'r list" where
  "sqlite_create_table table = (case table of None \<Rightarrow> [] | Some rows \<Rightarrow> rows)"

definition sqlite_open :: "habit_table option \<Rightarrow> log_table option \<Rightarrow> (habit_table, log_table) service_state" where
  "sqlite_open habits logs = \<lparr>sv_habits = sqlite_create_table habits, sv_logs = sqlite_create_table logs\<rparr>"

text \<open>
  The SQLite service state seen as an in-memory one, and its invariant: both primary
  keys unique and every stored type text a \<open>HabitType\<close> value.
\<close>

definition abs_service :: "(habit_table, log_table) service_state \<Rightarrow> (habit_store, log_store) service_state" where
  "abs_service st = \<lparr>sv_habits = abs_habit_table (sv_habits st), sv_logs = abs_log_table (sv_logs st)\<rparr>"

definition tables_wf :: "(habit_table, log_table) service_state \<Rightarrow> bool" where
  "tables_wf st \<longleftrightarrow> habit_table_wf (sv_habits st) \<and> log_table_wf (sv_logs st)"

subsection \<open>Calls of the service\<close>

text \<open>
  A call of one \<open>HabitService\<close> method with its arguments, and its reply. \<open>svc_call R n\<close>
  runs a call with recursion depth \<open>n\<close> for \<open>delete_habit\<close> (the other methods do
  not recurse); \<open>service_step R\<close> relates a state to the outcomes of the calls that
  return, for some depth. On the SQLite backend the database also chooses the order of
  same-date rows, any order \<open>ORDER BY date\<close> admits.
\<close>

datatype service_call =
    CreateHabit habit
  | GetHabit habit_id
  | ListHabits
  | UpdateHabit habit_id habit_update
  | DeleteHabit habit_id
  | AddSubhabit habit_id habit
  | RecordLog log_id timestamp habit_id date "real option"
  | GetLogs habit_id "date option" "date option"
  | GetStatistics calculator_registry date habit_id "date option" "date option"

datatype service_reply =
    NoReply
  | HabitReply "habit option"
  | HabitsReply "habit list"
  | UpdatedReply habit
  | LogReply log_entry
  | LogsReply "log_entry list"
  | StatsReply "habit_id \<times> statistics_result"

definition svc_call ::
  "('h, 'l) repositories \<Rightarrow> nat \<Rightarrow> service_call \<Rightarrow> ('h, 'l) service_state
   \<Rightarrow> ((error + service_reply) \<times> ('h, 'l) service_state) option" where
  "svc_call R n c s =
     (case c of
        CreateHabit h \<Rightarrow> Some (map_prod (map_sum id (\<lambda>_. NoReply)) id (svc_create_habit R h s))
      | GetHabit i \<Rightarrow> Some (map_sum id HabitReply (svc_get_habit R s i), s)
      | ListHabits \<Rightarrow> Some (map_sum id HabitsReply (svc_list_habits R s), s)
      | UpdateHabit i u \<Rightarrow> Some (map_prod (map_sum id UpdatedReply) id (svc_update_habit R i u s))
      | DeleteHabit i \<Rightarrow> map_option (map_prod (map_sum id (\<lambda>_. NoReply)) id) (svc_delete_habit R n i s)
      | AddSubhabit p sub \<Rightarrow> Some (map_prod (map_sum id (\<lambda>_. NoReply)) id (svc_add_subhabit R p sub s))
      | RecordLog fresh now i d v \<Rightarrow>
          Some (map_prod (map_sum id LogReply) id (svc_record_log R fresh now i d v s))
      | GetLogs i start end_d \<Rightarrow> Some (map_sum id LogsReply (svc_get_logs R s i start end_d), s)
      | GetStatistics calcs today i start end_d \<Rightarrow>
          Some (map_sum id StatsReply (svc_get_statistics R calcs today s i start end_d), s))"

inductive service_step ::
  "('h, 'l) repositories \<Rightarrow> service_call \<Rightarrow> ('h, 'l) service_state
   \<Rightarrow> (error + service_reply) \<times> ('h, 'l) service_state \<Rightarrow> bool" for R where
  service_stepI: "svc_call R n c s = Some p \<Longrightarrow> service_step R c s p"

inductive sqlite_service_step ::
  "service_call \<Rightarrow> (habit_table, log_table) service_state
   \<Rightarrow> (error + service_reply) \<times> (habit_table, log_table) service_state \<Rightarrow> bool" where
  sqlite_service_stepI:
    "order_by_date_ok order \<Longrightarrow> service_step (sqlite_repositories order) c s p \<Longrightarrow> sqlite_service_step c s p"

text \<open>
  The ids a call brings are fresh: the habit of \<open>create_habit\<close> and the sub-habit of
  \<open>add_subhabit\<close> (drawn from \<open>uuid4\<close> by the routes) are not stored, nor is the id
  \<open>LogEntry.create\<close> draws. Replies agree when they are equal, when they are log
  listings with the same entries, or when they are statistics that agree on every field
  except the value of \<open>average_value\<close>, where they agree only on whether there is one:
  \<open>sum(values)\<close> adds Python floats in the order the query returned the logs, so the mean
  may differ in its last bits when same-date logs come back in another order.
\<close>

definition call_fresh :: "service_call \<Rightarrow> (habit_store, log_store) service_state \<Rightarrow> bool" where
  "call_fresh c s =
     (case c of
        CreateHabit h \<Rightarrow> habit_repo_get (sv_habits s) (h_id h) = None
      | AddSubhabit p sub \<Rightarrow> habit_repo_get (sv_habits s) (h_id sub) = None
      | RecordLog fresh now i d v \<Rightarrow> fresh \<notin> l_id ` set (sv_logs s)
      | _ \<Rightarrow> True)"

definition stats_agree :: "statistics_result \<Rightarrow> statistics_result \<Rightarrow> bool" where
  "stats_agree r r' \<longleftrightarrow>
     r\<lparr>average_value := None\<rparr> = r'\<lparr>average_value := None\<rparr> \<and>
     (average_value r = None \<longleftrightarrow> average_value r' = None)"

fun reply_equiv :: "service_reply \<Rightarrow> service_reply \<Rightarrow> bool" where
  "reply_equiv (LogsReply xs) (LogsReply ys) = (mset xs = mset ys)"
| "reply_equiv (StatsReply (i, r)) (StatsReply (i', r')) = (i = i' \<and> stats_agree r r')"
| "reply_equiv r r' = (r = r')"

text \<open>Fixture: a habit created, a log recorded and listed.\<close>

definition sample_calls :: "service_call list" where
  "sample_calls = [CreateHabit (named_habit ''a'' None []), RecordLog ''l1'' 0 ''a'' 5 (Some 1),
     GetLogs ''a'' None None]"

subsection \<open>The in-memory instance is the service model\<close>

lemma svc_of_update [simp]:
  "svc_of (s\<lparr>habit_repository := hs\<rparr>) = (svc_of s)\<lparr>sv_habits := hs\<rparr>"
  "svc_of (s\<lparr>log_repository := ls\<rparr>) = (svc_of s)\<lparr>sv_logs := ls\<rparr>"
  "sv_habits (svc_of s) = habit_repository s" "sv_logs (svc_of s) = log_repository s"
  by (simp_all add: svc_of_def)

lemma mem_repositories_simps [simp]:
  "impl_add mem_repositories h st = Inr (habit_repo_add h st)"
  "impl_get mem_repositories st i = Inr (habit_repo_get st i)"
  "impl_list mem_repositories st = Inr (habit_repo_list st)"
  "impl_update mem_repositories = habit_repo_update"
  "impl_delete mem_repositories = habit_repo_delete"
  "impl_log_add mem_repositories e ls = Inr (log_repo_add e ls)"
  "impl_list_for_habit mem_repositories = list_for_habit"
  by (simp_all add: mem_repositories_def)

lemma mem_delete_equiv:
  "svc_delete_habit mem_repositories n i (svc_of s) = map_option (map_prod id svc_of) (delete_habit n i s)"
  "svc_delete_subhabits mem_repositories n is (svc_of s) = map_option (map_prod id svc_of) (delete_subhabits n is s)"
proof (induction n i s and n "is" s rule: delete_habit_delete_subhabits.induct)
  case (2 n i s)
  then show ?case
    by (auto simp: map_prod_def split: option.splits sum.splits prod.splits)
next
  case (4 n j rest s)
  then show ?case
    by (auto simp: map_prod_def split: option.splits sum.splits prod.splits)
qed simp_all

lemma mem_ops_equiv:
  "svc_create_habit mem_repositories h (svc_of s) = (Inr (), svc_of (create_habit h s))"
  "svc_get_habit mem_repositories (svc_of s) i = Inr (get_habit s i)"
  "svc_list_habits mem_repositories (svc_of s) = Inr (list_habits s)"
  "svc_update_habit mem_repositories i u (svc_of s) = map_prod id svc_of (update_habit i u s)"
  "svc_add_subhabit mem_repositories i sub (svc_of s) = map_prod id svc_of (add_subhabit i sub s)"
  "svc_record_log mem_repositories fresh now i d v (svc_of s) =
     map_prod id svc_of (record_log fresh now i d v s)"
  "svc_get_logs mem_repositories (svc_of s) i start end_d = get_logs s i start end_d"
  "svc_get_statistics mem_repositories calcs today (svc_of s) i start end_d =
     get_statistics calcs today s i start end_d"
  by (simp_all add: svc_create_habit_def create_habit_def svc_get_habit_def get_habit_def
      svc_list_habits_def list_habits_def svc_update_habit_def update_habit_def Let_def
      svc_add_subhabit_def add_subhabit_def svc_record_log_def record_log_def svc_get_logs_def
      get_logs_def svc_get_statistics_def get_statistics_def
      split: option.splits sum.splits)

subsection \<open>The SQLite instance refines the in-memory one\<close>

lemma sqlite_repositories_simps [simp]:
  "impl_add (sqlite_repositories order) = sqlite_habit_add"
  "impl_get (sqlite_repositories order) = sqlite_habit_get"
  "impl_list (sqlite_repositories order) = sqlite_habit_list"
  "impl_update (sqlite_repositories order) = sqlite_habit_update"
  "impl_delete (sqlite_repositories order) = sqlite_habit_delete"
  "impl_log_add (sqlite_repositories order) = sqlite_log_add"
  "impl_list_for_habit (sqlite_repositories order) t i start end_d =
     map log_from_row (order (sqlite_log_select t i start end_d))"
  by (simp_all add: sqlite_repositories_def)

lemma abs_service_simps [simp]:
  "sv_habits (abs_service st) = abs_habit_table (sv_habits st)"
  "sv_logs (abs_service st) = abs_log_table (sv_logs st)"
  "abs_service (st\<lparr>sv_habits := t\<rparr>) = (abs_service st)\<lparr>sv_habits := abs_habit_table t\<rparr>"
  "abs_service (st\<lparr>sv_logs := lt\<rparr>) = (abs_service st)\<lparr>sv_logs := abs_log_table lt\<rparr>"
  by (simp_all add: abs_service_def)

lemma tables_wf_upd [simp]:
  "tables_wf (st\<lparr>sv_habits := t\<rparr>) \<longleftrightarrow> habit_table_wf t \<and> log_table_wf (sv_logs st)"
  "tables_wf (st\<lparr>sv_logs := lt\<rparr>) \<longleftrightarrow> habit_table_wf (sv_habits st) \<and> log_table_wf lt"
  by (simp_all add: tables_wf_def)

lemma tables_wf_get:
  "tables_wf st \<Longrightarrow> sqlite_habit_get (sv_habits st) i = Inr (habit_repo_get (abs_habit_table (sv_habits st)) i)"
  using sqlite_habit_get_refines by (simp add: tables_wf_def)

lemma order_by_date_ok_mset:
  assumes "order_by_date_ok order"
  shows "mset (map log_from_row (order (sqlite_log_select t i start end_d))) =
           mset (list_for_habit (abs_log_table t) i start end_d) \<and>
         sorted (map l_date (map log_from_row (order (sqlite_log_select t i start end_d))))"
proof -
  have "sqlite_list_for_habit t i start end_d (map log_from_row (order (sqlite_log_select t i start end_d)))"
    using assms by (simp add: order_by_date_ok_def sqlite_list_for_habit_def comp_def)
  from sqlite_list_for_habit_sound [OF this] show ?thesis .
qed

lemma sqlite_svc_create:
  assumes wf: "tables_wf st" and fresh: "habit_repo_get (abs_habit_table (sv_habits st)) (h_id h) = None"
  shows "map_prod id abs_service (svc_create_habit (sqlite_repositories order) h st) =
           svc_create_habit mem_repositories h (abs_service st) \<and>
         tables_wf (snd (svc_create_habit (sqlite_repositories order) h st))"
  using sqlite_habit_add_fresh [OF _ fresh] wf
  by (simp add: svc_create_habit_def tables_wf_def)

lemma sqlite_svc_update:
  assumes wf: "tables_wf st"
  shows "map_prod id abs_service (svc_update_habit (sqlite_repositories order) i u st) =
           svc_update_habit mem_repositories i u (abs_service st) \<and>
         tables_wf (snd (svc_update_habit (sqlite_repositories order) i u st))"
proof (cases "habit_repo_get (abs_habit_table (sv_habits st)) i")
  case None
  with wf show ?thesis by (simp add: svc_update_habit_def tables_wf_get)
next
  case (Some old)
  have hwf: "habit_table_wf (sv_habits st)" using wf by (simp add: tables_wf_def)
  have "h_id old = i"
    using habit_store_wf_get [OF abs_habit_table_store_wf [OF hwf] Some] .
  then have old: "habit_repo_get (abs_habit_table (sv_habits st)) (h_id (apply_update u old)) = Some old"
    using Some by (simp add: apply_update_id)
  obtain rows' where u: "sqlite_habit_update (apply_update u old) (sv_habits st) = Inr rows'"
    "habit_table_wf rows'"
    "abs_habit_table rows' = habit_repo_add (apply_update u old) (abs_habit_table (sv_habits st))"
    "habit_repo_update (apply_update u old) (abs_habit_table (sv_habits st)) =
       Inr (habit_repo_add (apply_update u old) (abs_habit_table (sv_habits st)))"
    using sqlite_habit_update_agrees [OF hwf old] by auto
  with wf Some show ?thesis by (simp add: svc_update_habit_def tables_wf_get Let_def tables_wf_def)
qed

lemma sqlite_svc_record_log:
  assumes wf: "tables_wf st" and fresh: "fresh_id \<notin> l_id ` set (abs_log_table (sv_logs st))"
  shows "map_prod id abs_service (svc_record_log (sqlite_repositories order) fresh_id now i d v st) =
           svc_record_log mem_repositories fresh_id now i d v (abs_service st) \<and>
         tables_wf (snd (svc_record_log (sqlite_repositories order) fresh_id now i d v st))"
proof -
  let ?e = "log_entry_create fresh_id now i d v"
  have "l_id ?e \<notin> l_id ` set (abs_log_table (sv_logs st))"
    using fresh by (simp add: log_entry_create_def)
  from sqlite_log_add_fresh [OF this] wf show ?thesis
    by (auto simp: svc_record_log_def tables_wf_get tables_wf_def abs_log_table_snoc Let_def
        split: option.splits)
qed

lemma sqlite_svc_get_logs:
  assumes wf: "tables_wf st" and ord: "order_by_date_ok order"
  shows "rel_sum (=) (\<lambda>xs ys. mset xs = mset ys \<and> sorted (map l_date ys))
           (svc_get_logs mem_repositories (abs_service st) i start end_d)
           (svc_get_logs (sqlite_repositories order) st i start end_d)"
  using order_by_date_ok_mset [OF ord] wf
  by (simp add: svc_get_logs_def tables_wf_get split: option.splits)

lemma sqlite_svc_get_statistics:
  assumes wf: "tables_wf st" and ord: "order_by_date_ok order"
  shows "svc_get_statistics (sqlite_repositories order) calcs today st i start end_d =
           svc_get_statistics mem_repositories calcs today (abs_service st) i start end_d"
proof -
  have eq: "calculate c today h (map log_from_row (order (sqlite_log_select (sv_logs st) i start end_d)))
      start end_d = calculate c today h (list_for_habit (abs_log_table (sv_logs st)) i start end_d) start end_d"
    for c h
    by (rule calculate_mset) (rule conjunct1 [OF order_by_date_ok_mset [OF ord]])
  from wf show ?thesis
    by (simp add: svc_get_statistics_def tables_wf_get Let_def eq split: option.splits sum.splits)
qed

lemma sqlite_svc_add_subhabit:
  assumes wf: "tables_wf st" and fresh: "habit_repo_get (abs_habit_table (sv_habits st)) (h_id sub) = None"
  shows "map_prod id abs_service (svc_add_subhabit (sqlite_repositories order) p sub st) =
           svc_add_subhabit mem_repositories p sub (abs_service st) \<and>
         tables_wf (snd (svc_add_subhabit (sqlite_repositories order) p sub st))"
proof (cases "habit_repo_get (abs_habit_table (sv_habits st)) p")
  case None
  with wf show ?thesis by (simp add: svc_add_subhabit_def tables_wf_get)
next
  case (Some parent)
  let ?t = "sv_habits st"
  let ?sub' = "sub\<lparr>h_parent_id := Some p\<rparr>"
  let ?parent' = "parent\<lparr>h_subhabit_ids := h_subhabit_ids parent @ [h_id sub]\<rparr>"
  have hwf: "habit_table_wf ?t" using wf by (simp add: tables_wf_def)
  have pid: "h_id parent = p"
    using habit_store_wf_get [OF abs_habit_table_store_wf [OF hwf] Some] .
  have ne: "p \<noteq> h_id sub" using Some fresh by auto
  have add: "sqlite_habit_add ?sub' ?t = Inr (?t @ [habit_to_row ?sub'])"
    "habit_table_wf (?t @ [habit_to_row ?sub'])"
    "abs_habit_table (?t @ [habit_to_row ?sub']) = habit_repo_add ?sub' (abs_habit_table ?t)"
    using sqlite_habit_add_fresh [OF hwf, of ?sub'] fresh by simp_all
  have "habit_repo_get (abs_habit_table (?t @ [habit_to_row ?sub'])) (h_id ?parent') = Some parent"
    using add(3) Some pid ne by simp
  from sqlite_habit_update_agrees [OF add(2) this] obtain rows' where
    upd: "sqlite_habit_update ?parent' (?t @ [habit_to_row ?sub']) = Inr rows'" "habit_table_wf rows'"
      "abs_habit_table rows' = habit_repo_add ?parent' (abs_habit_table (?t @ [habit_to_row ?sub']))"
      "habit_repo_update ?parent' (abs_habit_table (?t @ [habit_to_row ?sub'])) =
         Inr (habit_repo_add ?parent' (abs_habit_table (?t @ [habit_to_row ?sub'])))"
    by auto
  from wf Some add upd show ?thesis
    by (simp add: svc_add_subhabit_def tables_wf_get Let_def tables_wf_def)
qed

lemma sqlite_svc_delete_gen:
  "R = sqlite_repositories order \<Longrightarrow> tables_wf st \<Longrightarrow>
     map_option (map_prod id abs_service) (svc_delete_habit R n i st) =
       svc_delete_habit mem_repositories n i (abs_service st) \<and>
     pred_option (\<lambda>p. tables_wf (snd p)) (svc_delete_habit R n i st)"
  "R = sqlite_repositories order \<Longrightarrow> tables_wf st \<Longrightarrow>
     map_option (map_prod id abs_service) (svc_delete_subhabits R n is st) =
       svc_delete_subhabits mem_repositories n is (abs_service st) \<and>
     pred_option (\<lambda>p. tables_wf (snd p)) (svc_delete_subhabits R n is st)"
proof (induction R n i st and R n "is" st rule: svc_delete_habit_svc_delete_subhabits.induct)
  case (2 R n i st)
  show ?case
  proof (cases "habit_repo_get (abs_habit_table (sv_habits st)) i")
    case None
    with "2.prems" show ?thesis by (simp add: tables_wf_get)
  next
    case (Some h)
    with "2.IH" [OF _ _ "2.prems"] "2.prems" sqlite_habit_delete_refines show ?thesis
      by (auto simp: tables_wf_get tables_wf_def split: option.splits sum.splits prod.splits)
  qed
next
  case (4 R n j rest st)
  then show ?case
    by (auto split: option.splits sum.splits prod.splits)
qed simp_all

lemmas sqlite_svc_delete = sqlite_svc_delete_gen [OF refl]

lemma reply_equiv_refl [simp]: "reply_equiv r r"
  by (cases r) (auto simp: stats_agree_def)

lemma rel_sum_reply_equiv_refl [simp]: "rel_sum (=) reply_equiv x x"
  by (cases x) simp_all

lemma map_prod_eq_Pair: "map_prod f g p = (a, b) \<longleftrightarrow> (\<exists>x y. p = (x, y) \<and> a = f x \<and> b = g y)"
  by (cases p) auto

lemma sqlite_svc_call:
  assumes wf: "tables_wf s" and fresh: "call_fresh c (abs_service s)" and ord: "order_by_date_ok order"
    and call: "svc_call (sqlite_repositories order) n c s = Some (r, s')"
  shows "\<exists>r1. svc_call mem_repositories n c (abs_service s) = Some (r1, abs_service s') \<and>
           rel_sum (=) reply_equiv r1 r \<and> tables_wf s'"
proof (cases c)
  case (CreateHabit h)
  with sqlite_svc_create [OF wf, of h order] fresh call show ?thesis
    by (auto simp: svc_call_def call_fresh_def map_prod_def split: prod.splits)
next
  case (GetHabit i)
  with wf call show ?thesis by (auto simp: svc_call_def svc_get_habit_def tables_wf_get)
next
  case ListHabits
  with wf call sqlite_habit_list_refines show ?thesis
    by (auto simp: svc_call_def svc_list_habits_def tables_wf_def)
next
  case (UpdateHabit i u)
  with sqlite_svc_update [OF wf, of order i u] call show ?thesis
    by (auto simp: svc_call_def map_prod_def split: prod.splits)
next
  case (DeleteHabit i)
  with sqlite_svc_delete(1) [OF wf, of order n i] call show ?thesis
    by (auto simp: svc_call_def map_prod_def split: prod.splits) (metis rel_sum_reply_equiv_refl)
next
  case (AddSubhabit p sub)
  with sqlite_svc_add_subhabit [OF wf, of sub order p] fresh call show ?thesis
    by (auto simp: svc_call_def call_fresh_def map_prod_def split: prod.splits)
next
  case (RecordLog fresh_id now i d v)
  with sqlite_svc_record_log [OF wf, of fresh_id order now i d v] fresh call show ?thesis
    by (auto simp: svc_call_def call_fresh_def map_prod_def split: prod.splits)
next
  case (GetLogs i start end_d)
  with sqlite_svc_get_logs [OF wf ord, of i start end_d] wf call show ?thesis
    by (auto simp: svc_call_def elim!: rel_sum.cases)
next
  case (GetStatistics calcs today i start end_d)
  with sqlite_svc_get_statistics [OF wf ord, of calcs today i start end_d] wf call show ?thesis
    by (auto simp: svc_call_def)
qed

lemma sort_by_date_ok: "order_by_date_ok (sort_key lr_date)"
  by (simp add: order_by_date_ok_def sqlite_order_by_date_def)

subsection \<open>Properties of the backends\<close>

text \<open>
  The service written against the repository protocols, run on the in-memory
  repositories, is the service model of \<open>Services\<close>: every \<open>HabitService\<close> method
  gives the same outcome and the same repositories, \<open>delete_habit\<close> at every recursion
  depth.
\<close>

lemma mem_service_equiv:
  "svc_create_habit mem_repositories h (svc_of s) = (Inr (), svc_of (create_habit h s)) \<and>
   svc_get_habit mem_repositories (svc_of s) i = Inr (get_habit s i) \<and>
   svc_list_habits mem_repositories (svc_of s) = Inr (list_habits s) \<and>
   svc_update_habit mem_repositories i u (svc_of s) = map_prod id svc_of (update_habit i u s) \<and>
   svc_delete_habit mem_repositories n i (svc_of s) = map_option (map_prod id svc_of) (delete_habit n i s) \<and>
   svc_add_subhabit mem_repositories i sub (svc_of s) = map_prod id svc_of (add_subhabit i sub s) \<and>
   svc_record_log mem_repositories fresh now i d v (svc_of s) = map_prod id svc_of (record_log fresh now i d v s) \<and>
   svc_get_logs mem_repositories (svc_of s) i start end_d = get_logs s i start end_d \<and>
   svc_get_statistics mem_repositories calcs today (svc_of s) i start end_d =
     get_statistics calcs today s i start end_d"
  by (simp add: mem_ops_equiv mem_delete_equiv)

lemma sqlite_service_sim:
  assumes wf: "tables_wf st"
    and run: "run_rel (\<lambda>c s p. call_fresh c (abs_service s) \<and> sqlite_service_step c s p) calls st (r, st')"
  shows "\<exists>r1. run_rel (service_step mem_repositories) calls (abs_service st) (r1, abs_service st') \<and>
           rel_sum (=) (list_all2 reply_equiv) r1 r \<and> tables_wf st'"
proof -
  have sim: "\<exists>r1. service_step mem_repositories c (abs_service s) (r1, abs_service s') \<and>
      rel_sum (=) reply_equiv r1 r \<and> tables_wf s'"
    if "tables_wf s" "call_fresh c (abs_service s) \<and> sqlite_service_step c s (r, s')" for c s r s'
  proof -
    from that(2) obtain order n where ord: "order_by_date_ok order"
      and call: "svc_call (sqlite_repositories order) n c s = Some (r, s')"
      by (auto elim!: sqlite_service_step.cases service_step.cases)
    from sqlite_svc_call [OF that(1) conjunct1 [OF that(2)] ord call] show ?thesis
      by (auto intro: service_stepI)
  qed
  from run_rel_refines [where invar = tables_wf and abstr = abs_service and R = reply_equiv
      and rstep = "\<lambda>c s p. call_fresh c (abs_service s) \<and> sqlite_service_step c s p"
      and astep = "service_step mem_repositories", OF sim run wf]
  show ?thesis by simp
qed

lemma sqlite_open_fresh: "sqlite_open None None = \<lparr>sv_habits = [], sv_logs = []\<rparr>"
  by (simp add: sqlite_open_def sqlite_create_table_def)

text \<open>
  C28. The app on a fresh SQLite database behaves as the in-memory app: every run of
  service calls from the tables \<open>build_app\<close> creates over a file without them, with
  fresh ids for new habits and logs and any order of same-date rows the database picks,
  is matched by a run of the in-memory service from \<open>build_app\<close>'s empty repositories,
  with the same replies (log listings with the same entries, possibly in another order)
  and the abstraction of the final tables, which stay well formed.
\<close>

theorem sqlite_app_refines_memory_app:
  assumes run: "run_rel (\<lambda>c s p. call_fresh c (abs_service s) \<and> sqlite_service_step c s p) calls
      (sqlite_open None None) (r, st')"
  shows "\<exists>r1. run_rel (service_step mem_repositories) calls (svc_of build_app) (r1, abs_service st') \<and>
           rel_sum (=) (list_all2 reply_equiv) r1 r \<and> tables_wf st'"
proof -
  have wf: "tables_wf (sqlite_open None None)"
    by (simp add: sqlite_open_fresh tables_wf_def habit_table_wf_def log_table_wf_def)
  have "abs_service (sqlite_open None None) = svc_of build_app"
    by (simp add: sqlite_open_fresh abs_service_def svc_of_def build_app_def abs_log_table_def)
  with sqlite_service_sim [OF wf run] show ?thesis by simp
qed

subsection \<open>Witnesses\<close>


lemma sample_app_calls:
  "svc_call (sqlite_repositories (sort_key lr_date)) 0 (CreateHabit (named_habit ''a'' None []))
     (sqlite_open None None) =
     Some (Inr NoReply, \<lparr>sv_habits = [habit_to_row (named_habit ''a'' None [])], sv_logs = []\<rparr>)"
  "svc_call (sqlite_repositories (sort_key lr_date)) 0 (RecordLog ''l1'' 0 ''a'' 5 (Some 1))
     \<lparr>sv_habits = [habit_to_row (named_habit ''a'' None [])], sv_logs = []\<rparr> =
     Some (Inr (LogReply (log_entry_create ''l1'' 0 ''a'' 5 (Some 1))),
       \<lparr>sv_habits = [habit_to_row (named_habit ''a'' None [])],
        sv_logs = [log_to_row (log_entry_create ''l1'' 0 ''a'' 5 (Some 1))]\<rparr>)"
  "svc_call (sqlite_repositories (sort_key lr_date)) 0 (GetLogs ''a'' None None)
     \<lparr>sv_habits = [habit_to_row (named_habit ''a'' None [])],
      sv_logs = [log_to_row (log_entry_create ''l1'' 0 ''a'' 5 (Some 1))]\<rparr> =
     Some (Inr (LogsReply [log_entry_create ''l1'' 0 ''a'' 5 (Some 1)]),
       \<lparr>sv_habits = [habit_to_row (named_habit ''a'' None [])],
        sv_logs = [log_to_row (log_entry_create ''l1'' 0 ''a'' 5 (Some 1))]\<rparr>)"
  by (simp_all add: svc_call_def svc_create_habit_def svc_record_log_def svc_get_logs_def sqlite_open_fresh
      sqlite_habit_add_def sqlite_habit_get_def habit_to_row_def habit_from_row_def named_habit_def
      habit_type_of_value_def sqlite_log_add_def Let_def sqlite_log_select_def log_entry_create_def
      log_to_row_def log_from_row_def)

lemma sample_app_run:
  "run_rel (\<lambda>c s p. call_fresh c (abs_service s) \<and> sqlite_service_step c s p) sample_calls
     (sqlite_open None None)
     (Inr [NoReply, LogReply (log_entry_create ''l1'' 0 ''a'' 5 (Some 1)),
           LogsReply [log_entry_create ''l1'' 0 ''a'' 5 (Some 1)]],
      \<lparr>sv_habits = [habit_to_row (named_habit ''a'' None [])],
       sv_logs = [log_to_row (log_entry_create ''l1'' 0 ''a'' 5 (Some 1))]\<rparr>)"
  unfolding sample_calls_def
proof (intro run_rel_ok conjI)
  show "sqlite_service_step (CreateHabit (named_habit ''a'' None [])) (sqlite_open None None)
      (Inr NoReply, \<lparr>sv_habits = [habit_to_row (named_habit ''a'' None [])], sv_logs = []\<rparr>)"
    by (rule sqlite_service_stepI [OF sort_by_date_ok service_stepI [OF sample_app_calls(1)]])
  show "sqlite_service_step (RecordLog ''l1'' 0 ''a'' 5 (Some 1))
      \<lparr>sv_habits = [habit_to_row (named_habit ''a'' None [])], sv_logs = []\<rparr>
      (Inr (LogReply (log_entry_create ''l1'' 0 ''a'' 5 (Some 1))),
       \<lparr>sv_habits = [habit_to_row (named_habit ''a'' None [])],
        sv_logs = [log_to_row (log_entry_create ''l1'' 0 ''a'' 5 (Some 1))]\<rparr>)"
    by (rule sqlite_service_stepI [OF sort_by_date_ok service_stepI [OF sample_app_calls(2)]])
  show "sqlite_service_step (GetLogs ''a'' None None)
      \<lparr>sv_habits = [habit_to_row (named_habit ''a'' None [])],
       sv_logs = [log_to_row (log_entry_create ''l1'' 0 ''a'' 5 (Some 1))]\<rparr>
      (Inr (LogsReply [log_entry_create ''l1'' 0 ''a'' 5 (Some 1)]),
       \<lparr>sv_habits = [habit_to_row (named_habit ''a'' None [])],
        sv_logs = [log_to_row (log_entry_create ''l1'' 0 ''a'' 5 (Some 1))]\<rparr>)"
    by (rule sqlite_service_stepI [OF sort_by_date_ok service_stepI [OF sample_app_calls(3)]])
qed (simp_all add: call_fresh_def sqlite_open_fresh abs_service_def abs_log_table_def
       abs_habit_table_def List.map_filter_def habit_from_row_def habit_to_row_def named_habit_def
       habit_type_of_value_def habit_repo_get_def log_entry_create_def log_to_row_def log_from_row_def,
     rule run_rel.run_rel_nil)

theorem sqlite_app_refines_memory_app_witness:
  "\<exists>r st'. run_rel (\<lambda>c s p. call_fresh c (abs_service s) \<and> sqlite_service_step c s p) sample_calls
       (sqlite_open None None) (r, st') \<and>
     (\<exists>r1. run_rel (service_step mem_repositories) sample_calls (svc_of build_app)
        (r1, abs_service st') \<and> rel_sum (=) (list_all2 reply_equiv) r1 r \<and> tables_wf st')"
  using sqlite_app_refines_memory_app [OF sample_app_run] sample_app_run by blast

end
