(* ===== verification/Spec2Isabelle.thy ===== *)
theory Spec2Isabelle
  imports Backend
begin

text \<open>
  \<^bold>\<open>A verification development for the habit tracker.\<close>
  The program (\<open>src/app\<close>) is a FastAPI service that stores habits and daily log
  entries and computes streak statistics. Its parts, bottom-up:
  \<^item> the domain objects \<open>Habit\<close>, \<open>LogEntry\<close>, \<open>HabitType\<close> of
    \<open>core/models.py\<close> and the update payload \<open>HabitUpdate\<close> of \<open>api/schemas.py\<close>;
  \<^item> the statistics engine of \<open>core/statistics.py\<close>: the streak computation
    \<open>StatisticsCalculator._calculate_streaks\<close>, the window filter, the boolean and the
    numeric calculator and the factory that picks one by habit type;
  \<^item> two interchangeable repository pairs behind the protocols of \<open>db/repository.py\<close>:
    the dictionaries and lists of \<open>db/in_memory.py\<close> and the tables of \<open>db/sqlite.py\<close>;
  \<^item> \<open>HabitService\<close> of \<open>core/services.py\<close>, which looks habits up, cascades
    deletes through sub-habit ids, links sub-habits, records logs and delegates to the
    engine; the routes of \<open>api/controllers.py\<close> call it and map its \<open>ValueError\<close>s to
    404; \<open>build_app\<close> of \<open>app/main.py\<close> and \<open>src/main.py\<close> wires repositories,
    service and router together.

  \<^bold>\<open>Theories.\<close>
  \<^item> \<open>Prelude\<close>: dates as proleptic Gregorian ordinals (\<open>date.toordinal()\<close>, day 1 =
    0001-01-01, \<open>date_max\<close> = 9999-12-31), ids as strings, timestamps as opaque
    integers, and the list, set and map lemmas the components share.
  \<^item> \<open>Models\<close>: the records \<open>habit\<close>, \<open>log_entry\<close>, \<open>habit_update\<close>, the datatype
    \<open>habit_type\<close>, and one datatype \<open>error\<close> for every exception the code raises
    (\<open>is_value_error\<close> tells the \<open>ValueError\<close>s apart).
  \<^item> \<open>Streaks\<close>: \<open>_calculate_streaks\<close> as \<open>calculate_streaks\<close>; its backward
    \<open>while\<close> loop is \<open>current_streak_loop\<close>, a \<open>function\<close> that terminates
    because the cursor decreases towards \<open>date_min\<close> and fails with \<open>DateOverflow\<close>
    where \<open>cursor - timedelta(days=1)\<close> would leave the date range; its index loop is a
    \<open>fold\<close> of \<open>longest_step\<close>. The abstract specification is \<open>has_run S d k\<close> (the
    \<open>k\<close> days ending at \<open>d\<close> are all completed); C1 to C4 refine both loops to it.
  \<^item> \<open>Statistics\<close>: \<open>filter_logs_by_date\<close>, \<open>boolean_calculate\<close>,
    \<open>numeric_calculate\<close> (its accumulation loop is a \<open>fold\<close> of \<open>numeric_step\<close>),
    the closed set of calculators as a datatype with \<open>calculate\<close> as dispatch, and the
    factory's class-level registry as an explicit map argument
    (\<open>default_calculators\<close>, \<open>get_calculator\<close>, \<open>register_calculator\<close>). Floats are
    exact reals. C5 to C9: bounds of the completion rate and of the streaks, and what
    each calculator counts and averages (spec scenarios A and C are the witnesses);
    lemmas cover the window filter, spec scenarios B, D and F, the empty input, the
    factory's registration and \<open>calculate_mset\<close>: a calculator reads its input as a
    multiset.
  \<^item> \<open>Repository\<close>: the in-memory habit dictionary as an insertion-ordered association
    list (\<open>AList.update\<close> is \<open>d[k] = v\<close>, \<open>AList.delete\<close> is \<open>pop(k, None)\<close>), the
    log list, and \<open>list_for_habit\<close> with Python's stable \<open>sorted\<close> as \<open>sort_key\<close>.
    C10 and C11: the query's result and the store invariant \<open>habit_store_wf\<close>.
  \<^item> \<open>Services\<close>: the state \<open>service\<close> holds both repositories; each method returns
    \<open>(error + result) \<times> service\<close>, so writes made before an exception survive it, as
    in Python. Fresh UUIDs, the clock and \<open>date.today()\<close> are arguments. The recursive
    \<open>delete_habit\<close> has no termination argument in the code, so it and its \<open>for\<close>
    loop \<open>delete_subhabits\<close> take fuel: one unit per level of recursion, \<open>None\<close> when
    it runs out; a lemma shows more fuel never changes an answer. C12 shows the fuel
    suffices whenever the sub-habit relation is well founded, with
    \<open>delete_depth_ok\<close> as the executable depth bound; C14 shows a self-cycle, reachable
    through \<open>add_subhabit\<close> with a reused id, exhausts every fuel; C15 shows that once a
    sub-habit is deleted directly its parent can never be deleted. C13 and C16 to C20:
    what delete, update, add-subhabit and record-log do on every branch, and the spec's
    linkage invariant \<open>links_ok\<close>.
  \<^item> \<open>Controllers\<close>: every route of \<open>create_router\<close> over the service, with the
    request and response models of \<open>api/schemas.py\<close>; pydantic's \<open>Field\<close>
    constraints answer 422, \<open>except ValueError\<close> answers 404, any other exception 500.
    C31 to C34: create/get and update/get round trips, no 500 on a well-formed store
    except the stats overflow, and that creating a habit with a \<open>parent_id\<close> breaks the
    linkage invariant of every store that satisfies it.
  \<^item> \<open>Api\<close>: the application as a state machine: \<open>build_app\<close> is the start state
    (two empty in-memory repositories; \<open>select_backend\<close> is \<open>src/main.py\<close>'s choice
    of backend), \<open>api_step\<close> has one rule per writing route with a fresh uuid, and
    \<open>api_reachable\<close> is the closure. By rule induction every reachable state keeps
    \<open>api_inv\<close>: C21 the store is well formed with a well-founded sub-habit relation
    (so, unlike C14, no cycle is reachable through HTTP), C22 every habit meets the
    schema's field constraints, and C23 every delete request completes.
  \<^item> \<open>SQLite\<close>: both tables as row lists in rowid order, \<open>INSERT\<close> with its
    primary-key check, the five-column \<open>UPDATE\<close>, \<open>DELETE\<close>, and \<open>ORDER BY date\<close>
    as a relation (ties unordered). The abstraction \<open>abs_habit_table\<close> maps a table to
    the in-memory store and lemmas refine each SQL operation to the dictionary
    operation; C24 and C25 where \<open>add\<close> and \<open>update\<close> diverge from the
    dictionary, C29 the \<open>ORDER BY\<close> refinement (lemmas show the row round trips, which
    hold by construction since \<open>json\<close> and \<open>isoformat\<close> are identities here, and
    that the two backends may order same-day entries differently). \<open>list_all\<close>'s
    \<open>SELECT *\<close> has no \<open>ORDER BY\<close>; it is taken to return the rows in rowid order. \<open>sqlite_create_table\<close>
    and \<open>sqlite_open\<close> are \<open>CREATE TABLE IF NOT EXISTS\<close> when the repositories are
    opened.
  \<^item> \<open>RepoInterface\<close>: the \<open>HabitRepository\<close> protocol of \<open>db/repository.py\<close> as a
    datatype of operations, one step function per implementation and \<open>repo_run\<close> over
    either; C26 shows whole runs on SQLite refine runs on the dictionary (a forward
    simulation through \<open>abs_habit_table\<close>, from a generic lemma over the state type).
  \<^item> \<open>LogInterface\<close>: the \<open>LogRepository\<close> protocol the same way, the SQLite side a
    step relation \<open>sqlite_log_step\<close>, runs through a relation as the inductive
    \<open>run_rel\<close>, and generic soundness and completeness lemmas relating a relational
    implementation to a functional one; C27: on a table with unique ids and for runs
    whose adds are fresh, the in-memory runs are SQLite runs and every SQLite run
    matches the in-memory one up to the order inside listings.
  \<^item> \<open>Backend\<close>: \<open>HabitService\<close> written against the protocols, as \<open>svc_\<close> functions
    over a record \<open>repositories\<close> of the protocol methods, instantiated with the
    in-memory pair (\<open>mem_repositories\<close>) and with the SQLite pair
    (\<open>sqlite_repositories order\<close>, where \<open>order\<close> is the row order the database returns
    for \<open>ORDER BY date\<close>, constrained by \<open>order_by_date_ok\<close>); a datatype of service
    calls with \<open>svc_call\<close> as dispatch and step relations for both backends. A lemma
    shows the in-memory instance is the \<open>Services\<close> model. C28: from a fresh database
    every run of the SQLite-backed app is matched by a run of the in-memory app from
    \<open>build_app\<close> with the same replies, except the order inside log listings and the
    value of a numeric average, which Python sums as floats in that order (fresh ids
    assumed, as \<open>uuid4\<close> provides).
  \<^item> this theory: properties across components, C30: the statistics the service reports
    for a boolean habit are the runs of that habit's completed days in the store.

  \<^bold>\<open>Not modelled.\<close>
  FastAPI and uvicorn themselves (request decoding, the response encoding; the routes'
  effect is modelled), \<open>json\<close> and \<open>isoformat\<close> (taken as round trips), the
  \<open>sqlite3\<close> connection handling (each SQL statement is one atomic step; the indexes
  of \<open>_init_db\<close> change no result), the HTTP routes over the SQLite backend (the routes
  are modelled over the in-memory service, which C28 relates to the SQLite one), Python
  float rounding (floats are exact reals; C28 does not rely on it), \<open>str.lower\<close> beyond ASCII, Python's \<open>RecursionError\<close> (a delete that
  recurses forever is \<open>None\<close>), concurrency between requests (each request is one step
  on the state), and the test suites, whose scenarios reappear as witness theorems.
\<close>

definition scenario_a_service :: service where
  "scenario_a_service = \<lparr>habit_repository = [(''h'', test_habit BOOLEAN None)],
     log_repository = scenario_a_logs\<rparr>"

subsection \<open>Lemmas\<close>

lemma get_statistics_boolean_Inr:
  assumes "get_habit s i = Some h" "h_type h = BOOLEAN"
    and "get_statistics default_calculators today s i start end_d = Inr (i', r)"
  shows "i' = i \<and> boolean_calculate today h (list_for_habit (log_repository s) i start end_d) start end_d = Inr r"
  using assms
  by (auto simp: get_statistics_def get_habit_def get_calculator_def default_calculators_def Let_def
      split: sum.splits)

lemma completed_dates_of_store:
  "boolean_completed_dates (filter_logs_by_date (list_for_habit store i start end_d) start end_d) =
   l_date ` {e \<in> set store. l_habit_id e = i \<and> in_window start end_d (l_date e) \<and>
                            (\<exists>v. l_value e = Some v \<and> 1 \<le> v)}"
  by (auto simp: boolean_completed_dates_eq filter_logs_by_date_eq list_for_habit_eq boolean_completes_iff)

subsection \<open>Properties across components\<close>

text \<open>
  C30. The statistics the service reports for a boolean habit are computed from the
  habit's own log entries in the window: the completions are the distinct dates with a
  value of at least 1.0, and the longest streak is the length of the longest run of such
  dates.
\<close>

theorem get_statistics_boolean_runs:
  assumes "get_habit s i = Some h" and "h_type h = BOOLEAN"
    and "get_statistics default_calculators today s i start end_d = Inr (i', r)"
  shows "i' = i \<and>
    total_completions r = card (l_date ` {e \<in> set (log_repository s). l_habit_id e = i \<and>
        in_window start end_d (l_date e) \<and> (\<exists>v. l_value e = Some v \<and> 1 \<le> v)}) \<and>
    (k \<le> longest_streak r \<longleftrightarrow>
       (\<exists>d. has_run (l_date ` {e \<in> set (log_repository s). l_habit_id e = i \<and>
          in_window start end_d (l_date e) \<and> (\<exists>v. l_value e = Some v \<and> 1 \<le> v)}) d k))"
proof -
  let ?D = "l_date ` {e \<in> set (log_repository s). l_habit_id e = i \<and>
          in_window start end_d (l_date e) \<and> (\<exists>v. l_value e = Some v \<and> 1 \<le> v)}"
  obtain ii: "i' = i" and bc: "boolean_calculate today h (list_for_habit (log_repository s) i start end_d)
      start end_d = Inr r"
    using get_statistics_boolean_Inr [OF assms] by blast
  then have cs: "calculate_streaks today ?D = Inr (current_streak r, longest_streak r)"
    and tc: "total_completions r = card ?D"
    by (simp_all add: boolean_calculate_Inr completed_dates_of_store Let_def)
  have fin: "finite ?D" by simp
  have "k \<le> longest_streak r \<longleftrightarrow> (\<exists>d. has_run ?D d k)"
    using cs
  proof (cases rule: calculate_streaks_InrE)
    case 1
    show ?thesis unfolding 1(1) using 1(3) by (simp add: has_run_not_in)
  next
    case 2
    with fin show ?thesis by (simp add: longest_streak_loop_set)
  qed
  with ii tc show ?thesis by simp
qed

subsection \<open>Witnesses\<close>

theorem get_statistics_boolean_runs_witness:
  "get_statistics default_calculators 100 scenario_a_service ''h'' None None =
     Inr (''h'', \<lparr>current_streak = 5, longest_streak = 5, total_completions = 5, completion_rate = 1,
        average_value = None, total_days_tracked = 5\<rparr>) \<and>
   (\<exists>d. has_run (l_date ` {e \<in> set scenario_a_logs. l_habit_id e = ''h'' \<and>
        in_window None None (l_date e) \<and> (\<exists>v. l_value e = Some v \<and> 1 \<le> v)}) d 5)"
proof -
  have g: "get_statistics default_calculators 100 scenario_a_service ''h'' None None =
     Inr (''h'', \<lparr>current_streak = 5, longest_streak = 5, total_completions = 5, completion_rate = 1,
        average_value = None, total_days_tracked = 5\<rparr>)"
    by (simp add: get_statistics_def scenario_a_service_def habit_repo_get_def get_calculator_def
        default_calculators_def test_habit_def list_for_habit_def scenario_a_logs_def test_log_def
        boolean_calculate_def filter_logs_by_date_def boolean_completed_dates_def boolean_completes_def
        calculate_streaks_def current_streak_loop.simps date_min_def sorted_list_of_set_sort_remdups
        longest_streak_loop_def longest_step_def upt_rec)
  have h: "get_habit scenario_a_service ''h'' = Some (test_habit BOOLEAN None)"
    by (simp add: get_habit_def scenario_a_service_def habit_repo_get_def)
  show ?thesis
    using get_statistics_boolean_runs [OF h _ g, of 5] g
    by (simp add: test_habit_def scenario_a_service_def)
qed

end
